theory Spec2Isabelle
  imports Complex_Main "HOL-Library.Sublist" "HOL-Library.Multiset"
begin

section \<open>JavaScript values used by the background script\<close>

text \<open>
  A number read from a JSON document (a price, a rating, a count) is modelled as an exact
  rational, and the arithmetic of the script on prices and ratings (comparison with a
  threshold, division by 100000, a sum and one average) is read over the rationals.  The
  sold counts are not: \<open>parseSoldText\<close> and the sums of its results are computed in IEEE
  doubles, see below.  A property that may be absent from a JSON object is an \<open>option\<close>;
  \<open>None\<close> is \<open>undefined\<close>.  A string is a list of code units below 256.
\<close>

type_synonym num = rat

text \<open>Truthiness of an optional number and of an optional string, and \<open>a || b\<close>.\<close>

definition truthy_num :: "num option \<Rightarrow> bool" where
  "truthy_num x = (case x of None \<Rightarrow> False | Some v \<Rightarrow> v \<noteq> 0)"

definition or_num :: "num option \<Rightarrow> num option \<Rightarrow> num option" where
  "or_num a b = (if truthy_num a then a else b)"

definition num_or0 :: "num option \<Rightarrow> num" where
  "num_or0 a = (case a of None \<Rightarrow> 0 | Some v \<Rightarrow> v)"

definition truthy_str :: "string option \<Rightarrow> bool" where
  "truthy_str x = (case x of None \<Rightarrow> False | Some s \<Rightarrow> s \<noteq> [])"

definition or_str :: "string option \<Rightarrow> string option \<Rightarrow> string option" where
  "or_str a b = (if truthy_str a then a else b)"

definition str_or_empty :: "string option \<Rightarrow> string" where
  "str_or_empty a = (case a of None \<Rightarrow> [] | Some s \<Rightarrow> s)"

text \<open>\<open>String.prototype.includes\<close>: the pattern occurs as a contiguous substring.\<close>

fun str_includes :: "string \<Rightarrow> string \<Rightarrow> bool" where
  "str_includes [] pat = (pat = [])"
| "str_includes (c # cs) pat = (prefix pat (c # cs) \<or> str_includes cs pat)"

section \<open>parseSoldText\<close>

text \<open>
  The character classes of the regular expression
  \<^verbatim>\<open>/(\d+(?:[.,]\d+)?)\s*(RB|JT)?/i\<close>: \<^verbatim>\<open>\d\<close> is an ASCII digit, \<^verbatim>\<open>\s\<close> is the
  white space of ECMAScript (below 256: tab, line feed, vertical tab, form feed, carriage
  return, space, no-break space), and with the flag \<^verbatim>\<open>i\<close> a letter of the pattern
  matches itself and its lower-case form only.
\<close>

definition is_digit :: "char \<Rightarrow> bool" where
  "is_digit c = (48 \<le> (of_char c :: nat) \<and> (of_char c :: nat) \<le> 57)"

definition is_space :: "char \<Rightarrow> bool" where
  "is_space c = ((of_char c :: nat) \<in> {9, 10, 11, 12, 13, 32, 160})"

definition is_sep :: "char \<Rightarrow> bool" where
  "is_sep c = (c = CHR ''.'' \<or> c = CHR '','')"

definition toUpperCase_char :: "char \<Rightarrow> char" where
  "toUpperCase_char c =
     (if 97 \<le> (of_char c :: nat) \<and> (of_char c :: nat) \<le> 122
      then char_of ((of_char c :: nat) - 32) else c)"

definition toUpperCase :: "string \<Rightarrow> string" where
  "toUpperCase s = map toUpperCase_char s"

definition is_unit :: "string \<Rightarrow> bool" where
  "is_unit u = (toUpperCase u = ''RB'' \<or> toUpperCase u = ''JT'')"

text \<open>
  \<open>regex_match text\<close> is \<^verbatim>\<open>text.match(...)\<close>: \<open>None\<close> for \<^verbatim>\<open>null\<close>, otherwise the two
  capture groups.  The match starts at the first digit of the text, since \<^verbatim>\<open>\d+\<close> is the
  only part of the pattern that must consume a character; every quantifier is greedy and
  everything after \<^verbatim>\<open>\d+\<close> may match the empty string, so the first choice of each
  quantifier stands: all the digits, then a separator with all the digits behind it when a
  digit follows the separator, then all the white space, then the unit when two letters
  of a unit follow.
\<close>

definition match_fraction :: "string \<Rightarrow> string \<times> string" where
  "match_fraction r =
     (case r of
        c # d # r' \<Rightarrow>
          if is_sep c \<and> is_digit d
          then (c # takeWhile is_digit (d # r'), dropWhile is_digit (d # r'))
          else ([], r)
      | _ \<Rightarrow> ([], r))"

definition match_unit :: "string \<Rightarrow> string option" where
  "match_unit r =
     (case r of
        a # b # _ \<Rightarrow> if is_unit [a, b] then Some [a, b] else None
      | _ \<Rightarrow> None)"

definition match_at :: "string \<Rightarrow> string \<times> string option" where
  "match_at s =
     (let ip = takeWhile is_digit s;
          (fpart, r2) = match_fraction (dropWhile is_digit s);
          r3 = dropWhile is_space r2
      in (ip @ fpart, match_unit r3))"

definition regex_match :: "string \<Rightarrow> (string \<times> string option) option" where
  "regex_match text =
     (case dropWhile (\<lambda>c. \<not> is_digit c) text of
        [] \<Rightarrow> None
      | c # cs \<Rightarrow> Some (match_at (c # cs)))"

text \<open>\<^verbatim>\<open>s.replace(",", ".")\<close> replaces the first comma.\<close>

fun replace_comma :: "string \<Rightarrow> string" where
  "replace_comma [] = []"
| "replace_comma (c # cs) = (if c = CHR '','' then CHR ''.'' # cs else c # replace_comma cs)"

text \<open>
  The number the parser returns depends on the rounding of IEEE doubles, so it is computed
  as the script computes it.  \<open>jsnumber\<close> is a non-negative JavaScript number that may be
  \<open>Infinity\<close> (no other number arises from a sold-count text); \<open>round_to_double\<close> is the
  Number value of a non-negative rational: the nearest double, a tie going to the even
  significand, and \<open>Infinity\<close> from \<open>2^1024\<close> on.  Below \<open>2^-1022\<close> the doubles are the
  multiples of \<open>2^-1074\<close>.
\<close>

datatype jsnumber = Finite rat | Infinity

fun bit_length :: "nat \<Rightarrow> nat" where
  "bit_length n = (if n = 0 then 0 else Suc (bit_length (n div 2)))"

declare bit_length.simps [simp del]

definition pow2 :: "int \<Rightarrow> rat" where
  "pow2 e = (if e \<ge> 0 then 2 ^ nat e else 1 / 2 ^ nat (- e))"

text \<open>The integer part of the binary logarithm of a positive rational.\<close>

definition floor_log2 :: "rat \<Rightarrow> int" where
  "floor_log2 q =
     (if q \<ge> 1 then int (bit_length (nat \<lfloor>q\<rfloor>)) - 1
      else (let n = nat \<lfloor>1 / q\<rfloor>
            in - int (if of_nat n = 1 / q then bit_length (n - 1) else bit_length n)))"

definition round_half_even :: "rat \<Rightarrow> int" where
  "round_half_even x =
     (let f = \<lfloor>x\<rfloor>; d = x - of_int f
      in if d < 1 / 2 then f else if d > 1 / 2 then f + 1 else if even f then f else f + 1)"

definition round_to_double :: "rat \<Rightarrow> jsnumber" where
  "round_to_double q =
     (if q = 0 then Finite 0
      else (let e = max (floor_log2 q - 52) (- 1074);
                r = of_int (round_half_even (q / pow2 e)) * pow2 e
            in if r \<ge> pow2 1024 then Infinity else Finite r))"

text \<open>\<open>x * k\<close> for a positive constant \<open>k\<close>, and \<open>x + y\<close>, on these numbers.\<close>

definition js_times :: "jsnumber \<Rightarrow> rat \<Rightarrow> jsnumber" where
  "js_times x k = (case x of Infinity \<Rightarrow> Infinity | Finite a \<Rightarrow> round_to_double (a * k))"

definition js_plus :: "jsnumber \<Rightarrow> jsnumber \<Rightarrow> jsnumber" where
  "js_plus x y =
     (case x of
        Infinity \<Rightarrow> Infinity
      | Finite a \<Rightarrow> (case y of Infinity \<Rightarrow> Infinity | Finite b \<Rightarrow> round_to_double (a + b)))"

text \<open>
  \<open>parseFloat\<close> on the strings that reach it here, a run of digits with an optional point
  and further digits: the Number value of the longest prefix that is a decimal literal.
  Signs, exponents and leading white space cannot occur in the first capture group.
\<close>

definition digit_val :: "char \<Rightarrow> nat" where
  "digit_val c = (of_char c :: nat) - 48"

definition digits_val :: "string \<Rightarrow> nat" where
  "digits_val ds = foldl (\<lambda>acc c. 10 * acc + digit_val c) 0 ds"

definition decimal_value :: "string \<Rightarrow> string \<Rightarrow> rat" where
  "decimal_value ip fp = of_nat (digits_val ip) + of_nat (digits_val fp) / 10 ^ length fp"

definition parseFloat :: "string \<Rightarrow> jsnumber" where
  "parseFloat s =
     (let ip = takeWhile is_digit s; r = dropWhile is_digit s
      in case r of
           c # r' \<Rightarrow> if c = CHR ''.'' then round_to_double (decimal_value ip (takeWhile is_digit r'))
                     else round_to_double (decimal_value ip [])
         | [] \<Rightarrow> round_to_double (decimal_value ip []))"

text \<open>\<open>Math.round\<close>: the nearest integer, a tie going up; \<open>Infinity\<close> stays.\<close>

definition Math_round :: "jsnumber \<Rightarrow> jsnumber" where
  "Math_round x = (case x of Infinity \<Rightarrow> Infinity | Finite q \<Rightarrow> Finite (of_int \<lfloor>q + 1 / 2\<rfloor>))"

text \<open>\<open>if (unit === "JT") num *= 1000000 else if (unit === "RB") num *= 1000\<close>.\<close>

definition apply_unit :: "string option \<Rightarrow> jsnumber \<Rightarrow> jsnumber" where
  "apply_unit unit num =
     (case unit of
        None \<Rightarrow> num
      | Some u \<Rightarrow> if toUpperCase u = ''JT'' then js_times num 1000000
                  else if toUpperCase u = ''RB'' then js_times num 1000 else num)"

definition parseSoldText :: "string \<Rightarrow> jsnumber" where
  "parseSoldText text =
     (if text = [] then Finite 0
      else case regex_match text of
             None \<Rightarrow> Finite 0
           | Some (m1, m2) \<Rightarrow> Math_round (apply_unit m2 (parseFloat (replace_comma m1))))"

text \<open>
  The contract of the parser in the words of the specification: the text is cut into a
  prefix without a digit, the integer digits, an optional fraction (a point or a comma and
  digits), white space, an optional unit and the rest, the number and the white space
  being as long as they can be.
\<close>

definition starts_with :: "(char \<Rightarrow> bool) \<Rightarrow> string \<Rightarrow> bool" where
  "starts_with P s = (case s of [] \<Rightarrow> False | c # _ \<Rightarrow> P c)"

definition starts_with_fraction :: "string \<Rightarrow> bool" where
  "starts_with_fraction s = (case s of c # d # _ \<Rightarrow> is_sep c \<and> is_digit d | _ \<Rightarrow> False)"

definition starts_with_unit :: "string \<Rightarrow> bool" where
  "starts_with_unit s = (case s of a # b # _ \<Rightarrow> is_unit [a, b] | _ \<Rightarrow> False)"

definition is_fraction :: "string \<Rightarrow> bool" where
  "is_fraction fpart =
     (case fpart of [] \<Rightarrow> False | c # fp \<Rightarrow> is_sep c \<and> fp \<noteq> [] \<and> list_all is_digit fp)"

definition sold_text_shape ::
  "string \<Rightarrow> string \<Rightarrow> string \<Rightarrow> string \<Rightarrow> string \<Rightarrow> string \<Rightarrow> bool" where
  "sold_text_shape pre ip fpart ws u rest =
     (list_all (\<lambda>c. \<not> is_digit c) pre \<and>
      ip \<noteq> [] \<and> list_all is_digit ip \<and>
      (if fpart = [] then \<not> starts_with_fraction (ws @ u @ rest) else is_fraction fpart) \<and>
      \<not> starts_with is_digit (ws @ u @ rest) \<and>
      list_all is_space ws \<and> \<not> starts_with is_space (u @ rest) \<and>
      (if u = [] then \<not> starts_with_unit rest else is_unit u))"

definition spec_factor :: "string \<Rightarrow> rat" where
  "spec_factor u =
     (if toUpperCase u = ''RB'' then 1000 else if toUpperCase u = ''JT'' then 1000000 else 1)"

text \<open>
  The double the script rounds: the Number value of the decimal, times the factor of the
  unit when there is a unit.
\<close>

definition unit_product :: "string \<Rightarrow> string \<Rightarrow> string \<Rightarrow> jsnumber" where
  "unit_product ip fp u =
     (if u = [] then round_to_double (decimal_value ip fp)
      else js_times (round_to_double (decimal_value ip fp)) (spec_factor u))"

section \<open>The JavaScript \<open>Map\<close>\<close>

text \<open>
  A \<open>Map\<close> keeps its entries in insertion order; \<open>set\<close> on a key that is present replaces
  the value where it stands, \<open>set\<close> on a new key appends.  \<open>values()\<close> lists the values in
  that order.
\<close>

type_synonym ('k, 'v) js_map = "('k \<times> 'v) list"

fun map_set :: "'k \<Rightarrow> 'v \<Rightarrow> ('k, 'v) js_map \<Rightarrow> ('k, 'v) js_map" where
  "map_set k v [] = [(k, v)]"
| "map_set k v (e # m) = (if fst e = k then (k, v) # m else e # map_set k v m)"

definition map_get :: "'k \<Rightarrow> ('k, 'v) js_map \<Rightarrow> 'v option" where
  "map_get k m = map_of m k"

definition map_has :: "'k \<Rightarrow> ('k, 'v) js_map \<Rightarrow> bool" where
  "map_has k m = (k \<in> set (map fst m))"

definition map_keys :: "('k, 'v) js_map \<Rightarrow> 'k list" where
  "map_keys m = map fst m"

definition map_values :: "('k, 'v) js_map \<Rightarrow> 'v list" where
  "map_values m = map snd m"

definition map_size :: "('k, 'v) js_map \<Rightarrow> nat" where
  "map_size m = length m"

section \<open>Raw items and product records\<close>

text \<open>The sub-objects of an item card, each field as the script reads it.\<close>

record price_info =
  pi_price :: "num option"
  pi_strikethrough_price :: "num option"
  pi_discount :: "num option"

record sold_info =
  si_historical_sold_count_text :: "string option"
  si_monthly_sold_count_text :: "string option"

record rating_info =
  ri_rating_star :: "num option"
  ri_rating_count :: "num list option"

record displayed_asset =
  da_name :: "string option"
  da_image :: "string option"
  da_seller_flag_name :: "string option"

record raw_item =
  raw_itemid :: "int option"
  raw_item_id :: "int option"
  raw_shopid :: "int option"
  raw_item_card_display_price :: "price_info option"
  raw_price :: "num option"
  raw_item_card_display_sold_count :: "sold_info option"
  raw_historical_sold :: "num option"
  raw_item_rating :: "rating_info option"
  raw_item_card_displayed_asset :: "displayed_asset option"
  raw_name :: "string option"
  raw_discount :: "num option"
  raw_stock :: "num option"
  raw_liked_count :: "num option"
  raw_cmt_count :: "num option"
  raw_image :: "string option"
  raw_ctime :: "num option"
  raw_catid :: "num option"
  raw_global_brand_display_name :: "string option"
  raw_brand :: "string option"

text \<open>The record \<open>processItems\<close> stores, the \<open>ProductData\<close> of the content script.\<close>

record product =
  p_itemid :: int
  p_shopid :: "int option"
  p_name :: string
  p_price :: num
  p_original_price :: num
  p_discount :: num
  p_historical_sold :: jsnumber
  p_historical_sold_text :: string
  p_monthly_sold :: jsnumber
  p_monthly_sold_text :: string
  p_stock :: num
  p_rating_star :: num
  p_rating_count :: num
  p_liked_count :: num
  p_comment_count :: num
  p_image :: string
  p_ctime :: num
  p_catid :: num
  p_brand :: string

text \<open>\<open>x || {}\<close> followed by a field read: the field of the sub-object when it is there.\<close>

definition sub_field :: "'a option \<Rightarrow> ('a \<Rightarrow> 'b option) \<Rightarrow> 'b option" where
  "sub_field obj f = (case obj of None \<Rightarrow> None | Some v \<Rightarrow> f v)"

text \<open>\<open>ratingInfo.rating_count?.[0] || 0\<close>.\<close>

definition first_rating_count :: "rating_info option \<Rightarrow> num" where
  "first_rating_count ri =
     (case sub_field ri ri_rating_count of Some (c # _) \<Rightarrow> c | _ \<Rightarrow> 0)"

text \<open>\<open>item.itemid || item.item_id\<close>, and \<open>None\<close> when the result is falsy (absent or 0).\<close>

definition itemId_of :: "raw_item \<Rightarrow> int option" where
  "itemId_of item =
     (let a = raw_itemid item; b = raw_item_id item
      in if a \<noteq> None \<and> a \<noteq> Some 0 then a
         else if b \<noteq> None \<and> b \<noteq> Some 0 then b else None)"

text \<open>The price a product-list item carries, before the rescale.\<close>

definition item_input_price :: "raw_item \<Rightarrow> num" where
  "item_input_price item =
     num_or0 (or_num (sub_field (raw_item_card_display_price item) pi_price) (raw_price item))"

definition item_input_strikethrough :: "raw_item \<Rightarrow> num" where
  "item_input_strikethrough item =
     num_or0 (sub_field (raw_item_card_display_price item) pi_strikethrough_price)"

text \<open>The pair (price, strikethroughPrice) after the rescale of \<open>processItems\<close>.\<close>

definition rescale_pair :: "num \<Rightarrow> num \<Rightarrow> num \<times> num" where
  "rescale_pair price other =
     (if price > 1000000 then (price / 100000, other / 100000) else (price, other))"

definition normalize_item :: "int \<Rightarrow> raw_item \<Rightarrow> product" where
  "normalize_item itemId item =
     (let priceInfo = raw_item_card_display_price item;
          (price, strikethroughPrice) =
             rescale_pair (item_input_price item) (item_input_strikethrough item);
          soldInfo = raw_item_card_display_sold_count item;
          historicalSoldText = str_or_empty (sub_field soldInfo si_historical_sold_count_text);
          monthlySoldText = str_or_empty (sub_field soldInfo si_monthly_sold_count_text);
          historicalSold =
            (if parseSoldText historicalSoldText \<noteq> Finite 0
             then parseSoldText historicalSoldText
             else Finite (num_or0 (raw_historical_sold item)));
          monthlySold = parseSoldText monthlySoldText;
          ratingInfo = raw_item_rating item;
          displayAsset = raw_item_card_displayed_asset item
      in \<lparr> p_itemid = itemId,
           p_shopid = raw_shopid item,
           p_name = str_or_empty (or_str (sub_field displayAsset da_name) (raw_name item)),
           p_price = price,
           p_original_price = (if strikethroughPrice \<noteq> 0 then strikethroughPrice else price),
           p_discount = num_or0 (or_num (sub_field priceInfo pi_discount) (raw_discount item)),
           p_historical_sold = historicalSold,
           p_historical_sold_text = historicalSoldText,
           p_monthly_sold = monthlySold,
           p_monthly_sold_text = monthlySoldText,
           p_stock = num_or0 (raw_stock item),
           p_rating_star = num_or0 (sub_field ratingInfo ri_rating_star),
           p_rating_count = first_rating_count ratingInfo,
           p_liked_count = num_or0 (raw_liked_count item),
           p_comment_count = num_or0 (raw_cmt_count item),
           p_image = str_or_empty (or_str (sub_field displayAsset da_image) (raw_image item)),
           p_ctime = num_or0 (raw_ctime item),
           p_catid = num_or0 (raw_catid item),
           p_brand = str_or_empty (or_str (raw_global_brand_display_name item) (raw_brand item)) \<rparr>)"

text \<open>The body of the \<open>forEach\<close> of \<open>processItems\<close>: an item without an id is skipped.\<close>

definition process_item :: "raw_item \<Rightarrow> (int, product) js_map \<Rightarrow> (int, product) js_map" where
  "process_item item m =
     (case itemId_of item of
        None \<Rightarrow> m
      | Some itemId \<Rightarrow> map_set itemId (normalize_item itemId item) m)"

section \<open>The per-tab stores\<close>

text \<open>
  \<open>ShopData\<close> is the interface of the script; the shop-info object is stored and forwarded
  as it came, so its type is a parameter.  \<open>totalCaptured\<close> is a count, \<open>totalExpected\<close> the
  number the site reported.
\<close>

record 's ShopData =
  shopInfo :: "'s option"
  products :: "(int, product) js_map"
  totalCaptured :: nat
  totalExpected :: num

definition empty_ShopData :: "'s ShopData" where
  "empty_ShopData = \<lparr> shopInfo = None, products = [], totalCaptured = 0, totalExpected = 0 \<rparr>"

text \<open>The product record of the category cache and the official-store accumulator.\<close>

record category_product =
  cp_itemid :: "int option"
  cp_shopid :: "int option"
  cp_name :: string
  cp_image :: string
  cp_price :: num
  cp_originalPrice :: num
  cp_discount :: num
  cp_historicalSold :: jsnumber
  cp_historicalSoldText :: string
  cp_monthlySold :: jsnumber
  cp_monthlySoldText :: string
  cp_rating :: num
  cp_ratingCount :: num
  cp_likedCount :: num
  cp_isOfficialShop :: bool
  cp_isPreferredPlus :: bool
  cp_shopName :: string
  cp_shopLocation :: string

record official_store =
  os_shopid :: int
  os_shopName :: string
  os_shopLocation :: string
  productCount :: nat
  totalSold :: jsnumber
  totalRating :: num
  ratingSum :: nat

text \<open>The entry of the output list: the accumulator spread, with \<open>avgRating\<close> added.\<close>

record official_store_out = official_store +
  avgRating :: num

record category_cache =
  cc_products :: "category_product list"
  cc_officialStores :: "official_store_out list"
  cc_totalCount :: num
  cc_timestamp :: num

record 'a search_cache =
  sc_items :: "'a list"
  sc_totalCount :: num
  sc_timestamp :: num

text \<open>The payload of \<open>SHOPEE_DATA_UPDATE\<close> and of the answer to \<open>GET_CAPTURED_DATA\<close>.\<close>

record 's snapshot =
  sn_shopInfo :: "'s option"
  sn_products :: "product list"
  sn_totalProducts :: nat
  sn_totalExpected :: num

text \<open>The product-detail record, restricted to identity, prices and variants.\<close>

record pdp_model =
  m_model_id :: "int option"
  m_modelid :: "int option"
  m_name :: "string option"
  m_price :: "num option"
  m_price_before_discount :: "num option"
  m_stock :: "num option"
  m_normal_stock :: "num option"
  m_sold :: "num option"

record pdp_item =
  pdp_item_id :: "int option"
  pdp_itemid :: "int option"
  pdp_title :: "string option"
  pdp_name :: "string option"
  pdp_price :: "num option"
  pdp_price_min :: "num option"
  pdp_price_max :: "num option"
  pdp_price_before_discount :: "num option"
  pdp_models :: "pdp_model list option"

record model_info =
  mi_modelid :: "int option"
  mi_name :: string
  mi_price :: num
  mi_price_before_discount :: num
  mi_stock :: num
  mi_sold :: num

record product_info =
  pr_itemid :: "int option"
  pr_name :: string
  pr_price :: num
  pr_price_min :: num
  pr_price_max :: num
  pr_price_before_discount :: num
  pr_models :: "model_info list"

text \<open>Messages sent to the content script with \<open>chrome.tabs.sendMessage\<close>.\<close>

datatype ('s, 'a) message =
    SHOPEE_DATA_UPDATE "'s snapshot"
  | SHOPEE_SEARCH_UPDATE "'a search_cache"
  | SHOPEE_CATEGORY_UPDATE category_cache
  | SHOPEE_PDP_UPDATE product_info

text \<open>
  The module-level state: the three tables keyed by tab id, and the messages handed to
  \<open>chrome.tabs.sendMessage\<close> so far, the newest last, each with the tab it went to.
\<close>

record ('s, 'a) bg_state =
  shopDataByTab :: "nat \<rightharpoonup> 's ShopData"
  categoryDataByTab :: "nat \<rightharpoonup> category_cache"
  searchDataByTab :: "nat \<rightharpoonup> 'a search_cache"
  sent :: "(nat \<times> ('s, 'a) message) list"

definition initial_state :: "('s, 'a) bg_state" where
  "initial_state =
     \<lparr> shopDataByTab = Map.empty, categoryDataByTab = Map.empty,
       searchDataByTab = Map.empty, sent = [] \<rparr>"

text \<open>\<open>if (!shopDataByTab[tabId]) shopDataByTab[tabId] = {...}\<close>.\<close>

definition ensure_tab :: "nat \<Rightarrow> ('s, 'a) bg_state \<Rightarrow> ('s, 'a) bg_state" where
  "ensure_tab tabId st =
     (case shopDataByTab st tabId of
        None \<Rightarrow> st\<lparr>shopDataByTab := (shopDataByTab st)(tabId \<mapsto> empty_ShopData)\<rparr>
      | Some _ \<Rightarrow> st)"

text \<open>The entry of a tab that \<open>ensure_tab\<close> has made sure of.\<close>

definition tab_data :: "nat \<Rightarrow> ('s, 'a) bg_state \<Rightarrow> 's ShopData" where
  "tab_data tabId st = (case shopDataByTab st tabId of None \<Rightarrow> empty_ShopData | Some d \<Rightarrow> d)"

definition processItems_data :: "raw_item list \<Rightarrow> num \<Rightarrow> 's ShopData \<Rightarrow> 's ShopData" where
  "processItems_data items totalFromApi d =
     (let d1 = (if totalFromApi \<noteq> 0 then d\<lparr>totalExpected := totalFromApi\<rparr> else d);
          m = fold process_item items (products d1)
      in d1\<lparr>products := m, totalCaptured := map_size m\<rparr>)"

definition processItems ::
  "nat \<Rightarrow> raw_item list \<Rightarrow> num \<Rightarrow> ('s, 'a) bg_state \<Rightarrow> ('s, 'a) bg_state" where
  "processItems tabId items totalFromApi st =
     (let st1 = ensure_tab tabId st
      in st1\<lparr>shopDataByTab :=
               (shopDataByTab st1)(tabId \<mapsto> processItems_data items totalFromApi (tab_data tabId st1))\<rparr>)"

text \<open>The snapshot both delivery paths build from the entry of a tab.\<close>

definition snapshot_of :: "'s ShopData \<Rightarrow> 's snapshot" where
  "snapshot_of d =
     (let productsArray = map_values (products d)
      in \<lparr> sn_shopInfo = shopInfo d, sn_products = productsArray,
           sn_totalProducts = length productsArray, sn_totalExpected = totalExpected d \<rparr>)"

definition notifyContentScript :: "nat \<Rightarrow> ('s, 'a) bg_state \<Rightarrow> ('s, 'a) bg_state" where
  "notifyContentScript tabId st =
     (case shopDataByTab st tabId of
        None \<Rightarrow> st
      | Some d \<Rightarrow> st\<lparr>sent := sent st @ [(tabId, SHOPEE_DATA_UPDATE (snapshot_of d))]\<rparr>)"

text \<open>
  The answer to \<open>GET_CAPTURED_DATA\<close>; \<open>None\<close> is \<open>{ data: null }\<close>.  When the tab has no
  entry the listener starts \<open>attachDebugger\<close>, which suspends at its first \<open>await\<close> before
  it touches the table, so the read that follows still finds no entry.
\<close>

definition GET_CAPTURED_DATA :: "nat \<Rightarrow> ('s, 'a) bg_state \<Rightarrow> 's snapshot option" where
  "GET_CAPTURED_DATA tabId st =
     (case shopDataByTab st tabId of None \<Rightarrow> None | Some d \<Rightarrow> Some (snapshot_of d))"

text \<open>
  The listener of \<open>chrome.runtime.onMessage\<close> on a \<open>GET_CAPTURED_DATA\<close> message: it
  answers nothing when the sender has no tab id (\<open>if (!tabId) return true\<close>), and
  otherwise sends the data above.
\<close>

datatype 's answer = NoAnswer | Answer "'s snapshot option"

definition onMessage_GET_CAPTURED_DATA :: "nat option \<Rightarrow> ('s, 'a) bg_state \<Rightarrow> 's answer" where
  "onMessage_GET_CAPTURED_DATA sender_tab_id st =
     (case sender_tab_id of
        None \<Rightarrow> NoAnswer
      | Some tabId \<Rightarrow> if tabId = 0 then NoAnswer else Answer (GET_CAPTURED_DATA tabId st))"

text \<open>The part of \<open>attachDebugger\<close> that runs once the debugger is attached.\<close>

definition attachDebugger_attached :: "nat \<Rightarrow> ('s, 'a) bg_state \<Rightarrow> ('s, 'a) bg_state" where
  "attachDebugger_attached tabId st = ensure_tab tabId st"

definition reset_tab :: "nat \<Rightarrow> ('s, 'a) bg_state \<Rightarrow> ('s, 'a) bg_state" where
  "reset_tab tabId st = st\<lparr>shopDataByTab := (shopDataByTab st)(tabId \<mapsto> empty_ShopData)\<rparr>"

text \<open>\<open>chrome.tabs.onUpdated\<close>, \<open>chrome.tabs.onRemoved\<close> and \<open>FORCE_REFRESH_CAPTURE\<close>.\<close>

definition onUpdated ::
  "nat \<Rightarrow> string option \<Rightarrow> string option \<Rightarrow> ('s, 'a) bg_state \<Rightarrow> ('s, 'a) bg_state" where
  "onUpdated tabId status url st =
     (if status = Some ''loading'' \<and> (case url of None \<Rightarrow> False | Some u \<Rightarrow> str_includes u ''shopee.co.id'')
      then reset_tab tabId st else st)"

definition onRemoved :: "nat \<Rightarrow> ('s, 'a) bg_state \<Rightarrow> ('s, 'a) bg_state" where
  "onRemoved tabId st = st\<lparr>shopDataByTab := (shopDataByTab st)(tabId := None)\<rparr>"

definition FORCE_REFRESH_CAPTURE :: "nat \<Rightarrow> ('s, 'a) bg_state \<Rightarrow> ('s, 'a) bg_state" where
  "FORCE_REFRESH_CAPTURE tabId st = reset_tab tabId st"

section \<open>Category normalization\<close>

record shop_data =
  sd_shop_name :: "string option"
  sd_shop_location :: "string option"

record item_data =
  id_itemid :: "int option"
  id_shopid :: "int option"
  id_shop_data :: "shop_data option"
  id_item_card_display_price :: "price_info option"
  id_item_card_display_sold_count :: "sold_info option"
  id_item_rating :: "rating_info option"
  id_liked_count :: "num option"

record unit_item =
  ui_item_data :: "item_data option"
  ui_item_card_displayed_asset :: "displayed_asset option"

record category_unit =
  u_data_type :: "string option"
  u_item :: "unit_item option"

text \<open>The price a category item carries, \<open>priceInfo.price || 0\<close>, before the rescale.\<close>

definition unit_input_price :: "unit_item \<Rightarrow> num" where
  "unit_input_price it =
     num_or0 (sub_field (sub_field (ui_item_data it) id_item_card_display_price) pi_price)"

definition unit_input_originalPrice :: "unit_item \<Rightarrow> num" where
  "unit_input_originalPrice it =
     (let s = sub_field (sub_field (ui_item_data it) id_item_card_display_price)
                pi_strikethrough_price
      in if truthy_num s then num_or0 s else unit_input_price it)"

definition normalize_unit :: "unit_item \<Rightarrow> category_product" where
  "normalize_unit it =
     (let itemData = ui_item_data it;
          displayAsset = ui_item_card_displayed_asset it;
          shopData = sub_field itemData id_shop_data;
          sellerFlag = str_or_empty (sub_field displayAsset da_seller_flag_name);
          isOfficialShop = (sellerFlag = ''OFFICIAL_SHOP'');
          priceInfo = sub_field itemData id_item_card_display_price;
          (price, originalPrice) =
             rescale_pair (unit_input_price it) (unit_input_originalPrice it);
          soldInfo = sub_field itemData id_item_card_display_sold_count;
          historicalSoldText = str_or_empty (sub_field soldInfo si_historical_sold_count_text);
          monthlySoldText = str_or_empty (sub_field soldInfo si_monthly_sold_count_text);
          ratingInfo = sub_field itemData id_item_rating
      in \<lparr> cp_itemid = sub_field itemData id_itemid,
           cp_shopid = sub_field itemData id_shopid,
           cp_name = str_or_empty (sub_field displayAsset da_name),
           cp_image = str_or_empty (sub_field displayAsset da_image),
           cp_price = price,
           cp_originalPrice = originalPrice,
           cp_discount = num_or0 (sub_field priceInfo pi_discount),
           cp_historicalSold = parseSoldText historicalSoldText,
           cp_historicalSoldText = historicalSoldText,
           cp_monthlySold = parseSoldText monthlySoldText,
           cp_monthlySoldText = monthlySoldText,
           cp_rating = num_or0 (sub_field ratingInfo ri_rating_star),
           cp_ratingCount = first_rating_count ratingInfo,
           cp_likedCount = num_or0 (sub_field itemData id_liked_count),
           cp_isOfficialShop = isOfficialShop,
           cp_isPreferredPlus = (sellerFlag = ''PREFERRED_PLUS''),
           cp_shopName = str_or_empty (sub_field shopData sd_shop_name),
           cp_shopLocation = str_or_empty (sub_field shopData sd_shop_location) \<rparr>)"

text \<open>
  The update of \<open>officialStoresMap\<close> for one product.  The script mutates the accumulator
  object the map holds, which leaves the entry where it stands.
\<close>

definition track_store ::
  "category_product \<Rightarrow> (int, official_store) js_map \<Rightarrow> (int, official_store) js_map" where
  "track_store p m =
     (case cp_shopid p of
        None \<Rightarrow> m
      | Some sid \<Rightarrow>
          if cp_isOfficialShop p \<and> sid \<noteq> 0 then
            (case map_get sid m of
               Some existing \<Rightarrow>
                 map_set sid
                   (existing\<lparr> productCount := productCount existing + 1,
                              totalSold := js_plus (totalSold existing) (cp_historicalSold p),
                              totalRating := totalRating existing + cp_rating p,
                              ratingSum := ratingSum existing + 1 \<rparr>) m
             | None \<Rightarrow>
                 map_set sid
                   \<lparr> os_shopid = sid, os_shopName = cp_shopName p,
                     os_shopLocation = cp_shopLocation p, productCount = 1,
                     totalSold = cp_historicalSold p, totalRating = cp_rating p,
                     ratingSum = 1 \<rparr> m)
          else m)"

text \<open>The body of \<open>units.forEach\<close>: one unit updates the product list and the store map.\<close>

definition scan_unit ::
  "category_unit \<Rightarrow> category_product list \<times> (int, official_store) js_map \<Rightarrow>
   category_product list \<times> (int, official_store) js_map" where
  "scan_unit u acc =
     (case u_item u of
        None \<Rightarrow> acc
      | Some it \<Rightarrow>
          if u_data_type u \<noteq> Some ''item'' then acc
          else (let product = normalize_unit it
                in (fst acc @ [product], track_store product (snd acc))))"

definition scan_units ::
  "category_unit list \<Rightarrow> category_product list \<times> (int, official_store) js_map" where
  "scan_units units = fold scan_unit units ([], [])"

definition with_avgRating :: "official_store \<Rightarrow> official_store_out" where
  "with_avgRating store =
     \<lparr> os_shopid = os_shopid store, os_shopName = os_shopName store,
       os_shopLocation = os_shopLocation store, productCount = productCount store,
       totalSold = totalSold store, totalRating = totalRating store,
       ratingSum = ratingSum store,
       avgRating = (if ratingSum store > 0
                    then totalRating store / of_nat (ratingSum store) else 0) \<rparr>"

text \<open>
  \<open>sort((a, b) => b.productCount - a.productCount)\<close>: a stable sort, the larger count
  first.
\<close>

definition sort_by_productCount :: "official_store_out list \<Rightarrow> official_store_out list" where
  "sort_by_productCount stores = sort_key (\<lambda>s. - int (productCount s)) stores"

definition officialStores_of :: "(int, official_store) js_map \<Rightarrow> official_store_out list" where
  "officialStores_of m = sort_by_productCount (map with_avgRating (map_values m))"

definition category_result :: "category_unit list \<Rightarrow> num \<Rightarrow> num \<Rightarrow> category_cache" where
  "category_result units totalCount now =
     (let (prods, officialStoresMap) = scan_units units
      in \<lparr> cc_products = prods, cc_officialStores = officialStores_of officialStoresMap,
           cc_totalCount = totalCount, cc_timestamp = now \<rparr>)"

section \<open>Search extraction and product-detail normalization\<close>

text \<open>
  An element of a flat search list: its \<open>item_basic\<close> sub-object when it has one, and the
  element itself.  \<open>item.item_basic || item\<close> picks between the two; the elements are
  objects, so \<open>filter(Boolean)\<close> keeps each of them.
\<close>

datatype 'a search_entry = Entry (item_basic: "'a option") (self: 'a)

definition unwrap :: "'a search_entry \<Rightarrow> 'a" where
  "unwrap e = (case item_basic e of Some b \<Rightarrow> b | None \<Rightarrow> self e)"

record 'a search_body =
  sb_item_cards :: "'a list option"
  sb_data_items :: "'a search_entry list option"
  sb_items :: "'a search_entry list option"
  sb_data_total :: "num option"
  sb_data_total_count :: "num option"
  sb_total_count :: "num option"

definition or_length :: "num option \<Rightarrow> 'a list \<Rightarrow> num" where
  "or_length a xs = (if truthy_num a then num_or0 a else of_nat (length xs))"

definition search_extract :: "'a search_body \<Rightarrow> 'a list \<times> num" where
  "search_extract b =
     (case sb_item_cards b of
        Some cards \<Rightarrow> (cards, or_length (or_num (sb_data_total b) (sb_data_total_count b)) cards)
      | None \<Rightarrow>
          (case sb_data_items b of
             Some es \<Rightarrow>
               (map unwrap es,
                or_length (or_num (sb_data_total_count b) (sb_data_total b)) (map unwrap es))
           | None \<Rightarrow>
               (case sb_items b of
                  Some es \<Rightarrow> (map unwrap es, or_length (sb_total_count b) (map unwrap es))
                | None \<Rightarrow> ([], 0))))"

record products_body =
  pb_item_cards :: "raw_item list option"
  pb_data_items :: "raw_item list option"
  pb_items :: "raw_item list option"
  pb_data_total :: "num option"

definition products_extract :: "products_body \<Rightarrow> raw_item list \<times> num" where
  "products_extract b =
     (case pb_item_cards b of
        Some cards \<Rightarrow> (cards, num_or0 (pb_data_total b))
      | None \<Rightarrow>
          (case pb_data_items b of
             Some its \<Rightarrow> (its, num_or0 (pb_data_total b))
           | None \<Rightarrow> (case pb_items b of Some its \<Rightarrow> (its, 0) | None \<Rightarrow> ([], 0))))"

record category_body =
  cb_units :: "category_unit list option"
  cb_total :: "num option"

text \<open>\<open>x ? x / 100000 : 0\<close>, the conversion of every price of a product-detail payload.\<close>

definition pdp_scale :: "num option \<Rightarrow> num" where
  "pdp_scale x = (if truthy_num x then num_or0 x / 100000 else 0)"

definition or_int :: "int option \<Rightarrow> int option \<Rightarrow> int option" where
  "or_int a b = (if a \<noteq> None \<and> a \<noteq> Some 0 then a else b)"

definition normalize_model :: "pdp_model \<Rightarrow> model_info" where
  "normalize_model m =
     \<lparr> mi_modelid = or_int (m_model_id m) (m_modelid m),
       mi_name = str_or_empty (m_name m),
       mi_price = pdp_scale (m_price m),
       mi_price_before_discount = pdp_scale (m_price_before_discount m),
       mi_stock = num_or0 (or_num (m_stock m) (m_normal_stock m)),
       mi_sold = num_or0 (m_sold m) \<rparr>"

text \<open>\<open>pdpData.item || pdpData\<close>: the nested item, or the payload read as the item.\<close>

record pdp_data =
  pd_item :: "pdp_item option"
  pd_self :: pdp_item

definition pdp_item_of :: "pdp_data \<Rightarrow> pdp_item" where
  "pdp_item_of pdpData = (case pd_item pdpData of Some i \<Rightarrow> i | None \<Rightarrow> pd_self pdpData)"

definition normalize_pdp :: "pdp_data \<Rightarrow> product_info" where
  "normalize_pdp pdpData =
     (let item = pdp_item_of pdpData
      in \<lparr> pr_itemid = or_int (pdp_item_id item) (pdp_itemid item),
           pr_name = str_or_empty (or_str (pdp_title item) (pdp_name item)),
           pr_price = pdp_scale (pdp_price item),
           pr_price_min = pdp_scale (pdp_price_min item),
           pr_price_max = pdp_scale (pdp_price_max item),
           pr_price_before_discount = pdp_scale (pdp_price_before_discount item),
           pr_models = map normalize_model (case pdp_models item of None \<Rightarrow> [] | Some ms \<Rightarrow> ms) \<rparr>)"

section \<open>getResponseBody\<close>

text \<open>
  The parsed body together with the \<open>type\<close> argument: for each of the five types the
  caller passes, the parts of the JSON document the branch of that type reads.
\<close>

datatype ('s, 'a) body =
    ShopBody "'s option"
  | ProductsBody products_body
  | SearchBody "'a search_body"
  | CategoryBody category_body
  | PdpBody "pdp_data option"

definition send :: "nat \<Rightarrow> ('s, 'a) message \<Rightarrow> ('s, 'a) bg_state \<Rightarrow> ('s, 'a) bg_state" where
  "send tabId msg st = st\<lparr>sent := sent st @ [(tabId, msg)]\<rparr>"

definition handle_shop :: "nat \<Rightarrow> 's option \<Rightarrow> ('s, 'a) bg_state \<Rightarrow> ('s, 'a) bg_state" where
  "handle_shop tabId d st =
     (case d of
        None \<Rightarrow> st
      | Some info \<Rightarrow>
          notifyContentScript tabId
            (st\<lparr>shopDataByTab :=
                  (shopDataByTab st)(tabId \<mapsto> (tab_data tabId st)\<lparr>shopInfo := Some info\<rparr>)\<rparr>))"

definition handle_products ::
  "nat \<Rightarrow> products_body \<Rightarrow> ('s, 'a) bg_state \<Rightarrow> ('s, 'a) bg_state" where
  "handle_products tabId b st =
     (let (items, total) = products_extract b
      in if length items > 0
         then notifyContentScript tabId (processItems tabId items total st)
         else st)"

definition handle_search ::
  "nat \<Rightarrow> 'a search_body \<Rightarrow> num \<Rightarrow> ('s, 'a) bg_state \<Rightarrow> ('s, 'a) bg_state" where
  "handle_search tabId b now st =
     (let (items, totalCount) = search_extract b
      in if length items > 0
         then (let cache = \<lparr> sc_items = items, sc_totalCount = totalCount, sc_timestamp = now \<rparr>
               in send tabId (SHOPEE_SEARCH_UPDATE cache)
                    (st\<lparr>searchDataByTab := (searchDataByTab st)(tabId \<mapsto> cache)\<rparr>))
         else st)"

text \<open>\<open>data.data?.units || []\<close>.\<close>

definition category_units :: "category_body \<Rightarrow> category_unit list" where
  "category_units b = (case cb_units b of None \<Rightarrow> [] | Some us \<Rightarrow> us)"

definition handle_category ::
  "nat \<Rightarrow> category_body \<Rightarrow> num \<Rightarrow> ('s, 'a) bg_state \<Rightarrow> ('s, 'a) bg_state" where
  "handle_category tabId b now st =
     (let units = category_units b;
          totalCount = num_or0 (cb_total b)
      in if length units > 0
         then (let cache = category_result units totalCount now
               in send tabId (SHOPEE_CATEGORY_UPDATE cache)
                    (st\<lparr>categoryDataByTab := (categoryDataByTab st)(tabId \<mapsto> cache)\<rparr>))
         else st)"

text \<open>
  Before the record is sent the branch logs the variants, and for that it sorts
  \<open>productInfo.models\<close> in place with \<open>sort((a, b) => b.sold - a.sold)\<close>, a stable sort, the
  larger sold count first: the record of the message carries the variants in that order.
\<close>

definition sort_models :: "model_info list \<Rightarrow> model_info list" where
  "sort_models ms = sort_key (\<lambda>m. - mi_sold m) ms"

definition pdp_message :: "pdp_data \<Rightarrow> product_info" where
  "pdp_message pdpData =
     (let productInfo = normalize_pdp pdpData
      in if length (pr_models productInfo) > 0
         then productInfo\<lparr>pr_models := sort_models (pr_models productInfo)\<rparr>
         else productInfo)"

definition handle_pdp :: "nat \<Rightarrow> pdp_data option \<Rightarrow> ('s, 'a) bg_state \<Rightarrow> ('s, 'a) bg_state" where
  "handle_pdp tabId d st =
     (case d of
        None \<Rightarrow> st
      | Some pdpData \<Rightarrow> send tabId (SHOPEE_PDP_UPDATE (pdp_message pdpData)) st)"

text \<open>
  What the \<open>try\<close> block does once the body is parsed: the entry of the tab is created when
  it is missing, then the branch of the type runs.  \<open>now\<close> is \<open>Date.now()\<close>.
\<close>

definition handle_body ::
  "nat \<Rightarrow> ('s, 'a) body \<Rightarrow> num \<Rightarrow> ('s, 'a) bg_state \<Rightarrow> ('s, 'a) bg_state" where
  "handle_body tabId b now st =
     (let st1 = ensure_tab tabId st
      in case b of
           ShopBody d \<Rightarrow> handle_shop tabId d st1
         | ProductsBody pb \<Rightarrow> handle_products tabId pb st1
         | SearchBody sb \<Rightarrow> handle_search tabId sb now st1
         | CategoryBody cb \<Rightarrow> handle_category tabId cb now st1
         | PdpBody d \<Rightarrow> handle_pdp tabId d st1)"







section \<open>The response classifier\<close>

datatype kind = Shop | Pdp | Search | Category | Products

definition is_products_url :: "string \<Rightarrow> bool" where
  "is_products_url url =
     (str_includes url ''/api/v4/recommend/recommend'' \<or>
      str_includes url ''/api/v4/shop/rcmd_items'' \<or>
      str_includes url ''/api/v4/pdp/list_by_category'' \<or>
      str_includes url ''shop_page_category_tab'' \<or>
      str_includes url ''/api/v4/pages/get_homepage_category_list'')"

text \<open>
  The listener of \<open>chrome.debugger.onEvent\<close>: the types it calls \<open>getResponseBody\<close> with,
  in the order of the calls.  \<open>url\<close> is \<open>params.response?.url\<close>.
\<close>

definition onEvent :: "string \<Rightarrow> string option \<Rightarrow> kind list" where
  "onEvent method response_url =
     (if method = ''Network.responseReceived'' then
        (let url = str_or_empty response_url
         in (if str_includes url ''/api/v4/shop/get_shop_base'' then [Shop] else []) @
            (if str_includes url ''/api/v4/pdp/get_pc'' then [Pdp] else []) @
            (if str_includes url ''/api/v4/search/search_items'' then [Search]
             else if str_includes url ''/api/v4/recommend/recommend_v2'' then [Category]
             else if is_products_url url then [Products]
             else []))
      else [])"

section \<open>mergeProducts\<close>

text \<open>The callback of both loops, \<open>p => productMap.set(p.itemid, p)\<close>.\<close>

definition productMap_set :: "product \<Rightarrow> (int, product) js_map \<Rightarrow> (int, product) js_map" where
  "productMap_set p m = map_set (p_itemid p) p m"

definition mergeProducts :: "product list \<Rightarrow> product list \<Rightarrow> product list" where
  "mergeProducts existing newProducts =
     (let productMap = fold productMap_set existing [];
          productMap' = fold productMap_set newProducts productMap
      in map_values productMap')"

section \<open>Definitions used to state the properties\<close>

text \<open>The rescale rule in the words of the specification.\<close>

definition spec_rescale :: "num \<Rightarrow> num" where
  "spec_rescale v = (if v > 1000000 then v / 100000 else v)"

text \<open>The item ids a batch submits: the ids \<open>processItems\<close> reads off its items.\<close>

definition item_ids :: "raw_item list \<Rightarrow> int list" where
  "item_ids items = List.map_filter itemId_of items"

text \<open>A sequence of batches, each with the total the site reported, fed to one tab.\<close>

definition upsert_batches ::
  "nat \<Rightarrow> (raw_item list \<times> num) list \<Rightarrow> ('s, 'a) bg_state \<Rightarrow> ('s, 'a) bg_state" where
  "upsert_batches tabId batches st =
     fold (\<lambda>b s. processItems tabId (fst b) (snd b) s) batches st"

text \<open>The product map of a tab, empty when the tab has no entry.\<close>

definition tab_products :: "nat \<Rightarrow> ('s, 'a) bg_state \<Rightarrow> (int, product) js_map" where
  "tab_products tabId st = products (tab_data tabId st)"

text \<open>
  The official-store aggregate in the words of the specification.  The items of a unit
  list are the \<open>item\<close> objects of its units of type "item"; the official items of a shop
  are the products flagged official that carry its shop id; the summary of a shop counts
  them, adds up their sold counts and their ratings in the order of the list, takes name
  and location from the first, and has the average rating.
\<close>

definition unit_items :: "category_unit list \<Rightarrow> unit_item list" where
  "unit_items units =
     concat (map (\<lambda>u. if u_data_type u = Some ''item''
                       then (case u_item u of None \<Rightarrow> [] | Some it \<Rightarrow> [it]) else []) units)"

definition official_of :: "int \<Rightarrow> category_product list \<Rightarrow> category_product list" where
  "official_of sid ps = filter (\<lambda>p. cp_isOfficialShop p \<and> cp_shopid p = Some sid) ps"

definition store_summary :: "int \<Rightarrow> category_product list \<Rightarrow> official_store_out" where
  "store_summary sid ofs =
     \<lparr> os_shopid = sid, os_shopName = cp_shopName (hd ofs),
       os_shopLocation = cp_shopLocation (hd ofs), productCount = length ofs,
       totalSold = foldl js_plus (cp_historicalSold (hd ofs)) (map cp_historicalSold (tl ofs)),
       totalRating = sum_list (map cp_rating ofs), ratingSum = length ofs,
       avgRating = sum_list (map cp_rating ofs) / of_nat (length ofs) \<rparr>"

text \<open>
  The snapshot of an entry that holds nothing, and the snapshot of the last
  \<open>SHOPEE_DATA_UPDATE\<close> message sent to a tab, if there is one.
\<close>

definition empty_snapshot :: "'s snapshot" where
  "empty_snapshot =
     \<lparr> sn_shopInfo = None, sn_products = [], sn_totalProducts = 0, sn_totalExpected = 0 \<rparr>"

fun last_pushed :: "nat \<Rightarrow> (nat \<times> ('s, 'a) message) list \<Rightarrow> 's snapshot option" where
  "last_pushed tabId [] = None"
| "last_pushed tabId ((t, m) # ms) =
     (case last_pushed tabId ms of
        Some s \<Rightarrow> Some s
      | None \<Rightarrow>
          (case m of
             SHOPEE_DATA_UPDATE s \<Rightarrow> if t = tabId then Some s else None
           | SHOPEE_SEARCH_UPDATE _ \<Rightarrow> None
           | SHOPEE_CATEGORY_UPDATE _ \<Rightarrow> None
           | SHOPEE_PDP_UPDATE _ \<Rightarrow> None))"






text \<open>Every entry of a product map is filed under the item id of its record.\<close>

definition keyed_by_itemid :: "(int, product) js_map \<Rightarrow> bool" where
  "keyed_by_itemid m = list_all (\<lambda>e. p_itemid (snd e) = fst e) m"

text \<open>The item ids submitted by a sequence of batches.\<close>

definition batch_ids :: "(raw_item list \<times> num) list \<Rightarrow> int set" where
  "batch_ids batches = (\<Union>b\<in>set batches. set (item_ids (fst b)))"

text \<open>Objects with no property set, from which the concrete inputs below are built.\<close>

definition blank_price_info :: price_info where
  "blank_price_info =
     \<lparr> pi_price = None, pi_strikethrough_price = None, pi_discount = None \<rparr>"

definition blank_item :: raw_item where
  "blank_item =
     \<lparr> raw_itemid = None, raw_item_id = None, raw_shopid = None,
       raw_item_card_display_price = None, raw_price = None,
       raw_item_card_display_sold_count = None, raw_historical_sold = None,
       raw_item_rating = None, raw_item_card_displayed_asset = None, raw_name = None,
       raw_discount = None, raw_stock = None, raw_liked_count = None, raw_cmt_count = None,
       raw_image = None, raw_ctime = None, raw_catid = None,
       raw_global_brand_display_name = None, raw_brand = None \<rparr>"

definition blank_item_data :: item_data where
  "blank_item_data =
     \<lparr> id_itemid = None, id_shopid = None, id_shop_data = None,
       id_item_card_display_price = None, id_item_card_display_sold_count = None,
       id_item_rating = None, id_liked_count = None \<rparr>"

text \<open>
  A category unit of type "item": shop id, seller flag, sold-count text, rating star and
  display price as given, nothing else set.
\<close>

definition item_unit :: "int \<Rightarrow> string \<Rightarrow> string \<Rightarrow> num \<Rightarrow> num \<Rightarrow> category_unit" where
  "item_unit sid flag sold_text star price =
     \<lparr> u_data_type = Some ''item'',
       u_item = Some
         \<lparr> ui_item_data = Some (blank_item_data
              \<lparr> id_shopid := Some sid,
                id_item_card_display_price := Some (blank_price_info\<lparr>pi_price := Some price\<rparr>),
                id_item_card_display_sold_count := Some
                  \<lparr> si_historical_sold_count_text = Some sold_text,
                    si_monthly_sold_count_text = None \<rparr>,
                id_item_rating := Some \<lparr> ri_rating_star = Some star, ri_rating_count = None \<rparr> \<rparr>),
           ui_item_card_displayed_asset = Some
             \<lparr> da_name = None, da_image = None, da_seller_flag_name = Some flag \<rparr> \<rparr> \<rparr>"

definition blank_pdp_item :: pdp_item where
  "blank_pdp_item =
     \<lparr> pdp_item_id = None, pdp_itemid = None, pdp_title = None, pdp_name = None,
       pdp_price = None, pdp_price_min = None, pdp_price_max = None,
       pdp_price_before_discount = None, pdp_models = None \<rparr>"

definition blank_pdp_model :: pdp_model where
  "blank_pdp_model =
     \<lparr> m_model_id = None, m_modelid = None, m_name = None, m_price = None,
       m_price_before_discount = None, m_stock = None, m_normal_stock = None, m_sold = None \<rparr>"

section \<open>Properties of parseSoldText\<close>

lemma floor_numeral_div: "\<lfloor>(numeral a :: rat) / numeral b\<rfloor> = numeral a div numeral b"
  using floor_divide_of_int_eq[of "numeral a" "numeral b", where ?'a = rat] by simp

lemmas double_eval =
  round_to_double_def floor_log2_def round_half_even_def pow2_def bit_length.simps Let_def
  js_times_def js_plus_def floor_numeral_div

lemmas parse_eval =
  parseSoldText_def regex_match_def match_at_def match_fraction_def match_unit_def
  is_digit_def is_space_def is_sep_def toUpperCase_def toUpperCase_char_def is_unit_def
  parseFloat_def decimal_value_def digits_val_def digit_val_def Math_round_def
  apply_unit_def double_eval char_of_eq_iff

text \<open>
  The rounding at known values: 0.1 is the double 3602879701896397 / 2^55; 2^53 + 1 lies
  halfway between two doubles and goes to the even one, 2^53; 2^53 + 3 goes up to
  2^53 + 4.
\<close>

lemma round_to_double_examples:
  "round_to_double (1 / 10) = Finite (3602879701896397 / 36028797018963968)"
  "round_to_double 9007199254740993 = Finite 9007199254740992"
  "round_to_double 9007199254740995 = Finite 9007199254740996"
  "round_to_double (3 / 2) = Finite (3 / 2)"
  by (simp_all add: double_eval)


lemmas shape_eval =
  sold_text_shape_def starts_with_def starts_with_fraction_def starts_with_unit_def
  is_fraction_def spec_factor_def unit_product_def

lemma takeWhile_run:
  "list_all P xs \<Longrightarrow> \<not> starts_with P ys \<Longrightarrow> takeWhile P (xs @ ys) = xs"
  by (induction xs) (auto simp: starts_with_def split: list.splits)

lemma dropWhile_run:
  "list_all P xs \<Longrightarrow> \<not> starts_with P ys \<Longrightarrow> dropWhile P (xs @ ys) = ys"
  by (induction xs) (auto simp: starts_with_def split: list.splits)

lemma regex_match_no_digit:
  "list_all (\<lambda>c. \<not> is_digit c) text \<Longrightarrow> regex_match text = None"
proof -
  assume "list_all (\<lambda>c. \<not> is_digit c) text"
  then have "dropWhile (\<lambda>c. \<not> is_digit c) text = []"
    by (simp add: list_all_iff dropWhile_eq_Nil_conv)
  then show ?thesis by (simp only: regex_match_def list.case)
qed

lemma is_unit_length: "is_unit u \<Longrightarrow> \<exists>a b. u = [a, b]"
  by (cases u; cases "tl u"; cases "tl (tl u)") (auto simp: is_unit_def toUpperCase_def)

lemma match_unit_shape:
  assumes "if u = [] then \<not> starts_with_unit rest else is_unit u"
  shows "match_unit (u @ rest) = (if u = [] then None else Some u)"
proof (cases "u = []")
  case True
  with assms show ?thesis
    by (auto simp: match_unit_def starts_with_unit_def split: list.splits)
next
  case False
  with assms obtain a b where "u = [a, b]" "is_unit [a, b]"
    using is_unit_length by fastforce
  then show ?thesis by (simp add: match_unit_def)
qed

lemma match_fraction_none:
  "\<not> starts_with_fraction t \<Longrightarrow> match_fraction t = ([], t)"
  by (auto simp: match_fraction_def starts_with_fraction_def split: list.splits)

lemma match_fraction_some:
  "is_fraction fpart \<Longrightarrow> \<not> starts_with is_digit t \<Longrightarrow> match_fraction (fpart @ t) = (fpart, t)"
  apply (cases fpart; simp add: is_fraction_def)
  subgoal for c fp
    apply (cases fp; simp add: match_fraction_def)
    using takeWhile_run[of is_digit "tl fp" t] dropWhile_run[of is_digit "tl fp" t]
    by auto
  done

lemma regex_match_shape:
  assumes "sold_text_shape pre ip fpart ws u rest"
  shows "regex_match (pre @ ip @ fpart @ ws @ u @ rest) = Some (ip @ fpart, if u = [] then None else Some u)"
proof -
  let ?t = "ws @ u @ rest"
  from assms have pre: "list_all (\<lambda>c. \<not> is_digit c) pre" and ip: "ip \<noteq> []" "list_all is_digit ip"
    and fr: "if fpart = [] then \<not> starts_with_fraction ?t else is_fraction fpart"
    and nd: "\<not> starts_with is_digit ?t"
    and ws: "list_all is_space ws" "\<not> starts_with is_space (u @ rest)"
    and un: "if u = [] then \<not> starts_with_unit rest else is_unit u"
    by (auto simp: sold_text_shape_def)
  have nds: "\<not> starts_with is_digit (fpart @ ?t)"
    using fr nd by (cases fpart) (auto simp: is_fraction_def starts_with_def is_sep_def is_digit_def)
  have "\<not> starts_with (\<lambda>c. \<not> is_digit c) (ip @ fpart @ ?t)"
    using ip by (cases ip) (auto simp: starts_with_def)
  with pre have d: "dropWhile (\<lambda>c. \<not> is_digit c) (pre @ ip @ fpart @ ?t) = ip @ fpart @ ?t"
    by (rule dropWhile_run)
  have t: "takeWhile is_digit (ip @ fpart @ ?t) = ip" "dropWhile is_digit (ip @ fpart @ ?t) = fpart @ ?t"
    using ip(2) nds by (rule takeWhile_run, rule dropWhile_run)
  have m: "match_fraction (fpart @ ?t) = (fpart, ?t)"
    using fr nd by (cases "fpart = []") (simp_all add: match_fraction_none match_fraction_some)
  have s: "dropWhile is_space ?t = u @ rest"
    using ws by (rule dropWhile_run)
  have ne: "\<exists>c cs. ip @ fpart @ ?t = c # cs" using ip by (cases ip) auto
  have "match_at (ip @ fpart @ ?t) = (ip @ fpart, if u = [] then None else Some u)"
    by (simp add: match_at_def t m s match_unit_shape[OF un])
  with d ne show ?thesis
    by (auto simp: regex_match_def)
qed


lemma replace_comma_id: "CHR '','' \<notin> set s \<Longrightarrow> replace_comma s = s"
  by (induction s) auto

lemma replace_comma_append:
  "CHR '','' \<notin> set xs \<Longrightarrow> replace_comma (xs @ ys) = xs @ replace_comma ys"
  by (induction xs) auto

lemma digits_no_comma: "list_all is_digit ds \<Longrightarrow> CHR '','' \<notin> set ds"
  by (auto simp: list_all_iff is_digit_def)

lemma parseFloat_number:
  assumes "ip \<noteq> []" "list_all is_digit ip" "fpart = [] \<or> is_fraction fpart"
  shows "parseFloat (replace_comma (ip @ fpart)) = round_to_double (decimal_value ip (tl fpart))"
proof (cases fpart)
  case Nil
  have tw: "takeWhile is_digit ip = ip" and dw: "dropWhile is_digit ip = []"
    using assms(2) by (simp_all add: list_all_iff dropWhile_eq_Nil_conv)
  have r: "replace_comma (ip @ fpart) = ip"
    using Nil assms(2) by (simp add: replace_comma_id digits_no_comma)
  show ?thesis
    unfolding r parseFloat_def tw dw using Nil by simp
next
  case (Cons c fp)
  with assms have c: "is_sep c" and fp: "list_all is_digit fp" by (auto simp: is_fraction_def)
  have r: "replace_comma (ip @ fpart) = ip @ CHR ''.'' # fp"
    using c Cons assms(2) fp
    by (auto simp: replace_comma_append replace_comma_id digits_no_comma is_sep_def)
  have nd: "\<not> starts_with is_digit (CHR ''.'' # fp)"
    by (simp add: starts_with_def is_digit_def)
  have tf: "takeWhile is_digit fp = fp" using fp by (simp add: list_all_iff)
  show ?thesis
    unfolding r parseFloat_def takeWhile_run[OF assms(2) nd] dropWhile_run[OF assms(2) nd]
    using Cons by (simp add: tf del: takeWhile_eq_all_conv)
qed

lemma apply_unit_shape:
  assumes "if u = [] then True else is_unit u"
  shows "apply_unit (if u = [] then None else Some u) (round_to_double (decimal_value ip fp)) =
           unit_product ip fp u"
  using assms
  by (auto simp: apply_unit_def unit_product_def spec_factor_def is_unit_def toUpperCase_def)

lemma parseSoldText_shape:
  assumes "sold_text_shape pre ip fpart ws u rest"
  shows "parseSoldText (pre @ ip @ fpart @ ws @ u @ rest) =
           Math_round (unit_product ip (tl fpart) u)"
proof -
  have "ip \<noteq> []"
    using assms by (simp add: sold_text_shape_def)
  then have ne: "pre @ ip @ fpart @ ws @ u @ rest \<noteq> []"
    by simp
  have pf: "parseFloat (replace_comma (ip @ fpart)) = round_to_double (decimal_value ip (tl fpart))"
    using assms by (intro parseFloat_number) (auto simp: sold_text_shape_def split: if_splits)
  have uf: "apply_unit (if u = [] then None else Some u)
              (round_to_double (decimal_value ip (tl fpart))) = unit_product ip (tl fpart) u"
    using assms by (intro apply_unit_shape) (auto simp: sold_text_shape_def split: if_splits)
  show ?thesis
    unfolding parseSoldText_def regex_match_shape[OF assms] using ne
    by (simp add: pf uf del: append_is_Nil_conv)
qed

text \<open>A one followed by 309 zeros is beyond the largest double.\<close>

lemma bit_length_numeral:
  "bit_length (numeral (Num.Bit0 n)) = Suc (bit_length (numeral n))"
  "bit_length (numeral (Num.Bit1 n)) = Suc (bit_length (numeral n))"
  "bit_length (Suc 0) = 1"
  by (subst bit_length.simps, simp add: numeral_Bit0_div_2 numeral_Bit1_div_2)+

lemma round_to_double_overflow: "round_to_double (10 ^ 309) = Infinity"
  by (simp add: round_to_double_def floor_log2_def round_half_even_def pow2_def
      bit_length_numeral Let_def floor_numeral_div)

lemma digits_val_snoc_zero: "digits_val (xs @ [CHR ''0'']) = digits_val xs * 10"
  by (simp add: digits_val_def digit_val_def)

lemma digits_val_power: "digits_val (CHR ''1'' # replicate n CHR ''0'') = 10 ^ n"
proof (induction n)
  case 0
  show ?case by (simp add: digits_val_def digit_val_def)
next
  case (Suc n)
  have "CHR ''1'' # replicate (Suc n) CHR ''0'' = (CHR ''1'' # replicate n CHR ''0'') @ [CHR ''0'']"
    by (simp add: replicate_append_same)
  then show ?case using Suc by (simp only: digits_val_snoc_zero) simp
qed

lemma parseSoldText_overflow: "parseSoldText (CHR ''1'' # replicate 309 CHR ''0'') = Infinity"
proof -
  let ?ip = "CHR ''1'' # replicate 309 CHR ''0''"
  have d: "list_all is_digit ?ip"
    by (simp add: list_all_iff is_digit_def)
  have s: "sold_text_shape [] ?ip [] [] [] []"
    using d by (simp add: sold_text_shape_def starts_with_def starts_with_fraction_def
        starts_with_unit_def)
  have dv: "decimal_value ?ip [] = 10 ^ 309"
    unfolding decimal_value_def digits_val_power by (simp add: digits_val_def)
  have u: "unit_product ?ip [] [] = Infinity"
    unfolding unit_product_def dv by (simp only: simp_thms if_True round_to_double_overflow)
  have e: "[] @ ?ip @ [] @ [] @ [] @ [] = ?ip" "tl ([] :: string) = []"
    by simp_all
  have "parseSoldText ?ip = Math_round (unit_product ?ip [] [])"
    using parseSoldText_shape[OF s] unfolding e .
  then show ?thesis
    unfolding u by (simp add: Math_round_def)
qed

text \<open>\<open>Math.round\<close> without its definition: the integer within a half of the number.\<close>

lemma Math_round_nearest:
  "case x of
     Infinity \<Rightarrow> Math_round x = Infinity
   | Finite q \<Rightarrow> \<exists>n. Math_round x = Finite (of_int n) \<and> of_int n \<le> q + 1 / 2 \<and> q + 1 / 2 < of_int n + 1"
proof (cases x)
  case Infinity
  then show ?thesis by (simp add: Math_round_def)
next
  case (Finite q)
  have "rat_of_int \<lfloor>q + 1 / 2\<rfloor> \<le> q + 1 / 2 \<and> q + 1 / 2 < rat_of_int \<lfloor>q + 1 / 2\<rfloor> + 1"
    using floor_correct[of "q + 1 / 2"] by simp
  then show ?thesis
    using Finite by (auto simp: Math_round_def)
qed

lemma dropWhile_stops: "\<not> starts_with P (dropWhile P xs)"
  by (induction xs) (auto simp: starts_with_def)

lemma shape_exists:
  assumes "\<not> list_all (\<lambda>c. \<not> is_digit c) text"
  shows "\<exists>pre ip fpart ws u rest. text = pre @ ip @ fpart @ ws @ u @ rest \<and> sold_text_shape pre ip fpart ws u rest"
proof -
  define pre where "pre = takeWhile (\<lambda>c. \<not> is_digit c) text"
  define s where "s = dropWhile (\<lambda>c. \<not> is_digit c) text"
  define ip where "ip = takeWhile is_digit s"
  define r1 where "r1 = dropWhile is_digit s"
  define fpart where "fpart = fst (match_fraction r1)"
  define r2 where "r2 = snd (match_fraction r1)"
  define ws where "ws = takeWhile is_space r2"
  define r3 where "r3 = dropWhile is_space r2"
  define u where "u = (case match_unit r3 of None \<Rightarrow> [] | Some v \<Rightarrow> v)"
  define rest where "rest = drop (length u) r3"
  have t1: "text = pre @ s" by (simp add: pre_def s_def)
  have s1: "s = ip @ r1" by (simp add: ip_def r1_def)
  have sne: "s \<noteq> []" using assms by (simp add: s_def list_all_iff dropWhile_eq_Nil_conv)
  then have hd: "is_digit (hd s)" unfolding s_def using hd_dropWhile[of "\<lambda>c. \<not> is_digit c" "text"] by auto
  have ipne: "ip \<noteq> []" using sne hd by (cases s) (auto simp: ip_def)
  have r1nd: "\<not> starts_with is_digit r1"
    unfolding r1_def by (rule dropWhile_stops)
  have fr: "r1 = fpart @ r2" 
    by (auto simp: fpart_def r2_def match_fraction_def split: list.splits)
  have frs: "if fpart = [] then \<not> starts_with_fraction r2 else is_fraction fpart"
    by (auto simp: fpart_def r2_def match_fraction_def starts_with_fraction_def is_fraction_def list_all_iff
        split: list.splits dest: set_takeWhileD)
  have r2nd: "\<not> starts_with is_digit r2"
    using r1nd dropWhile_stops[of is_digit]
    by (auto simp: fpart_def r2_def match_fraction_def split: list.splits if_splits)
  have w: "r2 = ws @ r3" by (simp add: ws_def r3_def)
  have wss: "list_all is_space ws" by (auto simp: ws_def list_all_iff dest: set_takeWhileD)
  have r3ns: "\<not> starts_with is_space r3"
    unfolding r3_def by (rule dropWhile_stops)
  have ur: "r3 = u @ rest"
    by (auto simp: u_def rest_def match_unit_def split: list.splits option.splits if_splits)
  have us: "if u = [] then \<not> starts_with_unit rest else is_unit u"
    by (auto simp: u_def rest_def match_unit_def starts_with_unit_def split: list.splits option.splits if_splits)
  have "text = pre @ ip @ fpart @ ws @ u @ rest"
    using t1 s1 fr w ur by simp
  moreover have "sold_text_shape pre ip fpart ws u rest"
    unfolding sold_text_shape_def
    using ipne frs r2nd wss r3ns us
    by (auto simp: pre_def ip_def list_all_iff w ur dest: set_takeWhileD)
  ultimately show ?thesis by blast
qed

text \<open>
  Claim C2, as the code has it.  The text "0,07049999999999999RB" holds the number
  0.07049999999999999 and the unit RB; a thousand times the number is
  70.49999999999999, within a half of 70 and of no other integer, and the script returns
  71: the number is rounded to a double, the product is rounded to a double, 70.5, and
  \<open>Math.round\<close> takes the tie up.  And a one followed by 309 zeros gives \<open>Infinity\<close>, which
  is no integer.
\<close>

theorem parseSoldText_exact_counterexample:
  "parseSoldText ''0,07049999999999999RB'' = Finite 71 \<and>
   \<bar>decimal_value ''0'' ''07049999999999999'' * 1000 - 70\<bar> < 1 / 2 \<and>
   parseSoldText (CHR ''1'' # replicate 309 CHR ''0'') = Infinity"
proof -
  have a: "parseSoldText ''0,07049999999999999RB'' = Finite 71"
    by (simp add: parse_eval)
  have b: "\<bar>decimal_value ''0'' ''07049999999999999'' * 1000 - 70\<bar> < 1 / 2"
    by (simp add: parse_eval)
  show ?thesis by (intro conjI a b parseSoldText_overflow)
qed

text \<open>
  Claim C2, amended.  \<open>parseSoldText\<close> maps "10RB+ terjual" to 10000, "1,5JT terjual" to
  1500000, the empty string to 0 and "terjual" to 0; it maps "1,5 terjual" to 2,
  "2,5 terjual" to 3, "2,4 terjual" to 2, "0,5005RB" to 500 and a one followed by 309
  zeros to \<open>Infinity\<close>.  A text without a digit
  gives 0.  A text that reads as a prefix without a digit, the first decimal number
  (integer digits and an optional fraction behind a point or a comma), white space and an
  optional unit RB or JT in either case gives the integer within a half of the product
  computed in doubles, a tie going up: the number as a double, times 1000 or 1000000 as a
  double when there is a unit; it gives \<open>Infinity\<close> when that product is \<open>Infinity\<close>.  Every
  text with a digit reads in that way.  The function is total: it has no failing branch.
\<close>

theorem parseSoldText_contract:
  "parseSoldText ''10RB+ terjual'' = Finite 10000 \<and>
   parseSoldText ''1,5JT terjual'' = Finite 1500000 \<and>
   parseSoldText [] = Finite 0 \<and>
   parseSoldText ''terjual'' = Finite 0 \<and>
   parseSoldText ''1,5 terjual'' = Finite 2 \<and>
   parseSoldText ''2,5 terjual'' = Finite 3 \<and>
   parseSoldText ''2,4 terjual'' = Finite 2 \<and>
   parseSoldText ''0,5005RB'' = Finite 500 \<and>
   parseSoldText (CHR ''1'' # replicate 309 CHR ''0'') = Infinity \<and>
   (\<forall>text. list_all (\<lambda>c. \<not> is_digit c) text \<longrightarrow> parseSoldText text = Finite 0) \<and>
   (\<forall>pre ip fpart ws u rest.
      sold_text_shape pre ip fpart ws u rest \<longrightarrow>
      (case unit_product ip (tl fpart) u of
         Infinity \<Rightarrow> parseSoldText (pre @ ip @ fpart @ ws @ u @ rest) = Infinity
       | Finite q \<Rightarrow>
           (\<exists>n. parseSoldText (pre @ ip @ fpart @ ws @ u @ rest) = Finite (of_int n) \<and>
                of_int n \<le> q + 1 / 2 \<and> q + 1 / 2 < of_int n + 1))) \<and>
   (\<forall>text. \<not> list_all (\<lambda>c. \<not> is_digit c) text \<longrightarrow>
      (\<exists>pre ip fpart ws u rest.
         text = pre @ ip @ fpart @ ws @ u @ rest \<and> sold_text_shape pre ip fpart ws u rest))"
proof -
  have e1: "parseSoldText ''10RB+ terjual'' = Finite 10000" by (simp add: parse_eval)
  have e2: "parseSoldText ''1,5JT terjual'' = Finite 1500000" by (simp add: parse_eval)
  have e3: "parseSoldText [] = Finite 0" by (simp add: parseSoldText_def)
  have e4: "parseSoldText ''terjual'' = Finite 0" by (simp add: parse_eval)
  have e5: "parseSoldText ''1,5 terjual'' = Finite 2" by (simp add: parse_eval)
  have e6: "parseSoldText ''2,5 terjual'' = Finite 3" by (simp add: parse_eval)
  have e7: "parseSoldText ''2,4 terjual'' = Finite 2" by (simp add: parse_eval)
  have e8: "parseSoldText ''0,5005RB'' = Finite 500" by (simp add: parse_eval)
  have g1: "\<forall>text. list_all (\<lambda>c. \<not> is_digit c) text \<longrightarrow> parseSoldText text = Finite 0"
    by (simp add: parseSoldText_def regex_match_no_digit)
  have g2: "\<forall>pre ip fpart ws u rest.
      sold_text_shape pre ip fpart ws u rest \<longrightarrow>
      (case unit_product ip (tl fpart) u of
         Infinity \<Rightarrow> parseSoldText (pre @ ip @ fpart @ ws @ u @ rest) = Infinity
       | Finite q \<Rightarrow>
           (\<exists>n. parseSoldText (pre @ ip @ fpart @ ws @ u @ rest) = Finite (of_int n) \<and>
                of_int n \<le> q + 1 / 2 \<and> q + 1 / 2 < of_int n + 1))"
  proof (intro allI impI)
    fix pre ip fpart ws u rest
    assume h: "sold_text_shape pre ip fpart ws u rest"
    show "case unit_product ip (tl fpart) u of
         Infinity \<Rightarrow> parseSoldText (pre @ ip @ fpart @ ws @ u @ rest) = Infinity
       | Finite q \<Rightarrow>
           (\<exists>n. parseSoldText (pre @ ip @ fpart @ ws @ u @ rest) = Finite (of_int n) \<and>
                of_int n \<le> q + 1 / 2 \<and> q + 1 / 2 < of_int n + 1)"
      unfolding parseSoldText_shape[OF h]
      by (rule Math_round_nearest)
  qed
  have g3: "\<forall>text. \<not> list_all (\<lambda>c. \<not> is_digit c) text \<longrightarrow>
      (\<exists>pre ip fpart ws u rest.
         text = pre @ ip @ fpart @ ws @ u @ rest \<and> sold_text_shape pre ip fpart ws u rest)"
    using shape_exists by blast
  show ?thesis by (intro conjI e1 e2 e3 e4 e5 e6 e7 e8 parseSoldText_overflow g1 g2 g3)
qed

theorem parseSoldText_contract_witness:
  "list_all (\<lambda>c. \<not> is_digit c) ''stok habis'' \<and> parseSoldText ''stok habis'' = Finite 0 \<and>
   sold_text_shape ''Terjual '' ''12'' '',5'' '' '' ''rb'' ''+ lebih'' \<and>
   parseSoldText ''Terjual 12,5 rb+ lebih'' = Finite 12500 \<and>
   sold_text_shape ''sisa '' ''7'' '',5'' '' '' [] ''buah'' \<and>
   parseSoldText ''sisa 7,5 buah'' = Finite 8 \<and>
   \<not> list_all (\<lambda>c. \<not> is_digit c) ''3 terjual'' \<and>
   (\<exists>pre ip fpart ws u rest.
      ''3 terjual'' = pre @ ip @ fpart @ ws @ u @ rest \<and> sold_text_shape pre ip fpart ws u rest)"
proof -
  note c = parseSoldText_contract
  note g1 = c[THEN conjunct2, THEN conjunct2, THEN conjunct2, THEN conjunct2, THEN conjunct2,
      THEN conjunct2, THEN conjunct2, THEN conjunct2, THEN conjunct2, THEN conjunct1]
  note g2 = c[THEN conjunct2, THEN conjunct2, THEN conjunct2, THEN conjunct2, THEN conjunct2,
      THEN conjunct2, THEN conjunct2, THEN conjunct2, THEN conjunct2, THEN conjunct2,
      THEN conjunct1]
  note g3 = c[THEN conjunct2, THEN conjunct2, THEN conjunct2, THEN conjunct2, THEN conjunct2,
      THEN conjunct2, THEN conjunct2, THEN conjunct2, THEN conjunct2, THEN conjunct2,
      THEN conjunct2]
  have h1: "list_all (\<lambda>c. \<not> is_digit c) ''stok habis''"
    by (simp add: is_digit_def)
  have h2: "sold_text_shape ''Terjual '' ''12'' '',5'' '' '' ''rb'' ''+ lebih''"
    by (simp add: shape_eval parse_eval)
  have h2': "sold_text_shape ''sisa '' ''7'' '',5'' '' '' [] ''buah''"
    by (simp add: shape_eval parse_eval)
  have v: "unit_product ''12'' (tl '',5'') ''rb'' = Finite 12500"
    by (simp add: shape_eval parse_eval)
  have v': "unit_product ''7'' (tl '',5'') [] = Finite (15 / 2)"
    by (simp add: shape_eval parse_eval)
  have h3: "\<not> list_all (\<lambda>c. \<not> is_digit c) ''3 terjual''"
    by (simp add: is_digit_def)
  have r1: "parseSoldText ''stok habis'' = Finite 0"
    by (rule g1[THEN spec, THEN mp, OF h1])
  from g2[rule_format, OF h2] obtain n where
    n: "parseSoldText (''Terjual '' @ ''12'' @ '',5'' @ '' '' @ ''rb'' @ ''+ lebih'') = Finite (of_int n)"
      "of_int n \<le> (12500 :: rat) + 1 / 2" "(12500 :: rat) + 1 / 2 < of_int n + 1"
    unfolding v by auto
  have "\<lfloor>(12500 :: rat) + 1 / 2\<rfloor> = n" using n(2,3) by (rule floor_unique)
  then have "n = 12500" by (simp add: floor_numeral_div)
  with n(1) have r2: "parseSoldText ''Terjual 12,5 rb+ lebih'' = Finite 12500" by simp
  from g2[rule_format, OF h2'] obtain k where
    k: "parseSoldText (''sisa '' @ ''7'' @ '',5'' @ '' '' @ [] @ ''buah'') = Finite (of_int k)"
      "of_int k \<le> (15 / 2 :: rat) + 1 / 2" "(15 / 2 :: rat) + 1 / 2 < of_int k + 1"
    unfolding v' by auto
  have "\<lfloor>(15 / 2 :: rat) + 1 / 2\<rfloor> = k" using k(2,3) by (rule floor_unique)
  then have "k = 8" by simp
  with k(1) have r2': "parseSoldText ''sisa 7,5 buah'' = Finite 8" by simp
  have r3: "\<exists>pre ip fpart ws u rest.
      ''3 terjual'' = pre @ ip @ fpart @ ws @ u @ rest \<and> sold_text_shape pre ip fpart ws u rest"
    by (rule g3[THEN spec, THEN mp, OF h3])
  show ?thesis by (intro conjI h1 r1 h2 r2 h2' r2' h3 r3)
qed

section \<open>Prices\<close>

lemma map_get_map_set_same: "map_get k (map_set k v m) = Some v"
  by (induction m) (auto simp: map_get_def)

lemma rescale_pair_fst: "fst (rescale_pair price other) = spec_rescale price"
  by (simp add: rescale_pair_def spec_rescale_def)

lemma rescale_pair_snd:
  "snd (rescale_pair price other) = (if price > 1000000 then other / 100000 else other)"
  by (simp add: rescale_pair_def)

lemma normalize_item_price:
  "p_price (normalize_item itemId item) = spec_rescale (item_input_price item)"
  by (simp add: normalize_item_def Let_def split_beta rescale_pair_fst)

lemma normalize_item_original_price:
  "p_original_price (normalize_item itemId item) =
     (if snd (rescale_pair (item_input_price item) (item_input_strikethrough item)) \<noteq> 0
      then snd (rescale_pair (item_input_price item) (item_input_strikethrough item))
      else p_price (normalize_item itemId item))"
  by (simp add: normalize_item_def Let_def split_beta)

lemma normalize_unit_price:
  "cp_price (normalize_unit it) = spec_rescale (unit_input_price it)"
  by (simp add: normalize_unit_def Let_def split_beta rescale_pair_fst)

lemma normalize_unit_originalPrice:
  "cp_originalPrice (normalize_unit it) =
     (if unit_input_price it > 1000000 then unit_input_originalPrice it / 100000
      else unit_input_originalPrice it)"
  by (simp add: normalize_unit_def Let_def split_beta rescale_pair_snd)

lemma process_item_stored:
  "itemId_of item = Some itemId \<Longrightarrow>
   map_get itemId (process_item item m) = Some (normalize_item itemId item)"
  by (simp add: process_item_def map_get_map_set_same)

lemma scan_unit_item:
  "u_data_type u = Some ''item'' \<Longrightarrow> u_item u = Some it \<Longrightarrow>
   fst (scan_unit u acc) = fst acc @ [normalize_unit it]"
  by (simp add: scan_unit_def Let_def)

lemmas js_eval = truthy_num_def or_num_def num_or0_def truthy_str_def or_str_def str_or_empty_def
  sub_field_def

lemmas price_fixture_eval = itemId_of_def item_input_price_def item_input_strikethrough_def
  unit_input_price_def unit_input_originalPrice_def blank_item_def blank_price_info_def
  blank_item_data_def Let_def js_eval

text \<open>
  Claim C1, as the code has it.  The rule is not applied to every input price value: the
  strikethrough price follows the main price.  A product-list item with price 2,500,000
  and strikethrough price 900,000 is stored with original price 9, so an input price value
  of at most 1,000,000 is divided; an item with price 50,000 and strikethrough price
  3,000,000 is stored with original price 3,000,000, so an input price value above
  1,000,000 is kept.  A category item with price 2,500,000 and strikethrough price 900,000
  comes out with original price 9.
\<close>

theorem price_rescale_counterexample:
  "map_option p_original_price
     (map_get 7 (process_item (blank_item\<lparr>raw_itemid := Some 7, raw_item_card_display_price :=
        Some (blank_price_info\<lparr>pi_price := Some 2500000, pi_strikethrough_price := Some 900000\<rparr>)\<rparr>) []))
     = Some 9 \<and>
   map_option p_original_price
     (map_get 7 (process_item (blank_item\<lparr>raw_itemid := Some 7, raw_item_card_display_price :=
        Some (blank_price_info\<lparr>pi_price := Some 50000, pi_strikethrough_price := Some 3000000\<rparr>)\<rparr>) []))
     = Some 3000000 \<and>
   map cp_originalPrice
     (fst (scan_unit \<lparr> u_data_type = Some ''item'',
                        u_item = Some \<lparr> ui_item_data = Some (blank_item_data
                          \<lparr>id_item_card_display_price := Some (blank_price_info
                             \<lparr>pi_price := Some 2500000, pi_strikethrough_price := Some 900000\<rparr>)\<rparr>),
                          ui_item_card_displayed_asset = None \<rparr> \<rparr> ([], [])))
     = [9]"
proof -
  let ?a = "blank_item\<lparr>raw_itemid := Some 7, raw_item_card_display_price :=
        Some (blank_price_info\<lparr>pi_price := Some 2500000, pi_strikethrough_price := Some 900000\<rparr>)\<rparr>"
  let ?b = "blank_item\<lparr>raw_itemid := Some 7, raw_item_card_display_price :=
        Some (blank_price_info\<lparr>pi_price := Some 50000, pi_strikethrough_price := Some 3000000\<rparr>)\<rparr>"
  let ?it = "\<lparr> ui_item_data = Some (blank_item_data
                          \<lparr>id_item_card_display_price := Some (blank_price_info
                             \<lparr>pi_price := Some 2500000, pi_strikethrough_price := Some 900000\<rparr>)\<rparr>),
                          ui_item_card_displayed_asset = None \<rparr>"
  have ia: "itemId_of ?a = Some 7" "item_input_price ?a = 2500000"
      "item_input_strikethrough ?a = 900000"
    by (simp_all add: price_fixture_eval)
  have ib: "itemId_of ?b = Some 7" "item_input_price ?b = 50000"
      "item_input_strikethrough ?b = 3000000"
    by (simp_all add: price_fixture_eval)
  have iu: "unit_input_price ?it = 2500000" "unit_input_originalPrice ?it = 900000"
    by (simp_all add: price_fixture_eval)
  have ra: "map_option p_original_price (map_get 7 (process_item ?a [])) = Some 9"
    by (simp add: process_item_stored[OF ia(1)] normalize_item_original_price rescale_pair_snd ia)
  have rb: "map_option p_original_price (map_get 7 (process_item ?b [])) = Some 3000000"
    by (simp add: process_item_stored[OF ib(1)] normalize_item_original_price rescale_pair_snd ib)
  have ru: "map cp_originalPrice
      (fst (scan_unit \<lparr> u_data_type = Some ''item'', u_item = Some ?it \<rparr> ([], []))) = [9]"
    by (simp add: scan_unit_item normalize_unit_originalPrice iu)
  show ?thesis by (intro conjI ra rb ru)
qed

text \<open>
  Claim C1, amended.  In the product-list and in the category normalization the rescale
  is decided by the main price of the item alone, the value the script selects
  (\<open>priceInfo.price || item.price || 0\<close>, and \<open>priceInfo.price || 0\<close> for a category item):
  a main price above 1,000,000 is divided by 100,000 and a main price of at most 1,000,000
  is kept, so 2,500,000 gives 25 and 50,000 gives 50,000.  The second price of the item is
  divided by 100,000 exactly when the main price exceeds 1,000,000, whatever its own
  value: in the product list the strikethrough price (\<open>priceInfo.strikethrough_price || 0\<close>),
  the stored original price being the price when the strikethrough price is zero; in a
  category the original price (\<open>priceInfo.strikethrough_price || price\<close>).
\<close>

theorem price_rescale:
  "(\<forall>item itemId m. itemId_of item = Some itemId \<longrightarrow>
      (\<exists>p. map_get itemId (process_item item m) = Some p \<and>
           p_price p = (if item_input_price item > 1000000
                        then item_input_price item / 100000 else item_input_price item) \<and>
           p_original_price p =
             (if item_input_strikethrough item = 0 then p_price p
              else if item_input_price item > 1000000
                   then item_input_strikethrough item / 100000
                   else item_input_strikethrough item))) \<and>
   (\<forall>u it acc. u_data_type u = Some ''item'' \<and> u_item u = Some it \<longrightarrow>
      (\<exists>p. fst (scan_unit u acc) = fst acc @ [p] \<and>
           cp_price p = (if unit_input_price it > 1000000
                         then unit_input_price it / 100000 else unit_input_price it) \<and>
           cp_originalPrice p = (if unit_input_price it > 1000000
                                 then unit_input_originalPrice it / 100000
                                 else unit_input_originalPrice it))) \<and>
   (\<forall>item itemId. item_input_price item = 2500000 \<longrightarrow> p_price (normalize_item itemId item) = 25) \<and>
   (\<forall>item itemId. item_input_price item = 50000 \<longrightarrow> p_price (normalize_item itemId item) = 50000) \<and>
   (\<forall>it. unit_input_price it = 2500000 \<longrightarrow> cp_price (normalize_unit it) = 25) \<and>
   (\<forall>it. unit_input_price it = 50000 \<longrightarrow> cp_price (normalize_unit it) = 50000)"
proof -
  have a: "\<exists>p. map_get itemId (process_item item m) = Some p \<and>
           p_price p = (if item_input_price item > 1000000
                        then item_input_price item / 100000 else item_input_price item) \<and>
           p_original_price p =
             (if item_input_strikethrough item = 0 then p_price p
              else if item_input_price item > 1000000
                   then item_input_strikethrough item / 100000
                   else item_input_strikethrough item)"
    if "itemId_of item = Some itemId" for item itemId and m :: "(int, product) js_map"
    unfolding process_item_stored[OF that]
    by (simp add: normalize_item_price normalize_item_original_price rescale_pair_snd
        spec_rescale_def)
  have b: "\<exists>p. fst (scan_unit u acc) = fst acc @ [p] \<and>
           cp_price p = (if unit_input_price it > 1000000
                         then unit_input_price it / 100000 else unit_input_price it) \<and>
           cp_originalPrice p = (if unit_input_price it > 1000000
                                 then unit_input_originalPrice it / 100000
                                 else unit_input_originalPrice it)"
    if "u_data_type u = Some ''item'' \<and> u_item u = Some it" for u it acc
    using that
    by (simp add: scan_unit_item normalize_unit_price normalize_unit_originalPrice
        spec_rescale_def)
  have c: "p_price (normalize_item itemId item) = 25" if "item_input_price item = 2500000"
    for item itemId
    using that by (simp add: normalize_item_price spec_rescale_def)
  have d: "p_price (normalize_item itemId item) = 50000" if "item_input_price item = 50000"
    for item itemId
    using that by (simp add: normalize_item_price spec_rescale_def)
  have e: "cp_price (normalize_unit it) = 25" if "unit_input_price it = 2500000" for it
    using that by (simp add: normalize_unit_price spec_rescale_def)
  have f: "cp_price (normalize_unit it) = 50000" if "unit_input_price it = 50000" for it
    using that by (simp add: normalize_unit_price spec_rescale_def)
  show ?thesis using a b c d e f by blast
qed

theorem price_rescale_witness:
  "itemId_of (blank_item\<lparr>raw_itemid := Some 7, raw_item_card_display_price :=
      Some (blank_price_info\<lparr>pi_price := Some 2500000, pi_strikethrough_price := Some 3000000\<rparr>)\<rparr>)
     = Some 7 \<and>
   (\<exists>p. map_get 7 (process_item (blank_item\<lparr>raw_itemid := Some 7, raw_item_card_display_price :=
          Some (blank_price_info\<lparr>pi_price := Some 2500000, pi_strikethrough_price := Some 3000000\<rparr>)\<rparr>) [])
          = Some p \<and> p_price p = 25 \<and> p_original_price p = 30) \<and>
   item_input_price (blank_item\<lparr>raw_price := Some 50000\<rparr>) = 50000 \<and>
   p_price (normalize_item 8 (blank_item\<lparr>raw_price := Some 50000\<rparr>)) = 50000 \<and>
   (\<exists>p. fst (scan_unit (item_unit 5 ''OFFICIAL_SHOP'' ''10 terjual'' 4 2500000) ([], [])) = [p] \<and>
        cp_price p = 25 \<and> cp_originalPrice p = 25) \<and>
   item_input_price (blank_item\<lparr>raw_price := Some 2500000\<rparr>) = 2500000 \<and>
   p_price (normalize_item 8 (blank_item\<lparr>raw_price := Some 2500000\<rparr>)) = 25 \<and>
   unit_input_price \<lparr> ui_item_data = Some (blank_item_data\<lparr>id_item_card_display_price :=
       Some (blank_price_info\<lparr>pi_price := Some 2500000\<rparr>)\<rparr>),
     ui_item_card_displayed_asset = None \<rparr> = 2500000 \<and>
   cp_price (normalize_unit \<lparr> ui_item_data = Some (blank_item_data\<lparr>id_item_card_display_price :=
       Some (blank_price_info\<lparr>pi_price := Some 2500000\<rparr>)\<rparr>),
     ui_item_card_displayed_asset = None \<rparr>) = 25 \<and>
   unit_input_price \<lparr> ui_item_data = Some (blank_item_data\<lparr>id_item_card_display_price :=
       Some (blank_price_info\<lparr>pi_price := Some 50000\<rparr>)\<rparr>),
     ui_item_card_displayed_asset = None \<rparr> = 50000 \<and>
   cp_price (normalize_unit \<lparr> ui_item_data = Some (blank_item_data\<lparr>id_item_card_display_price :=
       Some (blank_price_info\<lparr>pi_price := Some 50000\<rparr>)\<rparr>),
     ui_item_card_displayed_asset = None \<rparr>) = 50000"
proof -
  let ?c = "blank_item\<lparr>raw_price := Some 2500000\<rparr>"
  let ?v = "\<lparr> ui_item_data = Some (blank_item_data\<lparr>id_item_card_display_price :=
       Some (blank_price_info\<lparr>pi_price := Some 2500000\<rparr>)\<rparr>),
     ui_item_card_displayed_asset = None \<rparr>"
  let ?w = "\<lparr> ui_item_data = Some (blank_item_data\<lparr>id_item_card_display_price :=
       Some (blank_price_info\<lparr>pi_price := Some 50000\<rparr>)\<rparr>),
     ui_item_card_displayed_asset = None \<rparr>"
  have h5: "item_input_price ?c = 2500000" by (simp add: price_fixture_eval)
  have h6: "unit_input_price ?v = 2500000" by (simp add: price_fixture_eval)
  have h7: "unit_input_price ?w = 50000" by (simp add: price_fixture_eval)
  let ?a = "blank_item\<lparr>raw_itemid := Some 7, raw_item_card_display_price :=
      Some (blank_price_info\<lparr>pi_price := Some 2500000, pi_strikethrough_price := Some 3000000\<rparr>)\<rparr>"
  let ?b = "blank_item\<lparr>raw_price := Some 50000\<rparr>"
  let ?u = "item_unit 5 ''OFFICIAL_SHOP'' ''10 terjual'' 4 2500000"
  have h1: "itemId_of ?a = Some 7" by (simp add: price_fixture_eval)
  have p1: "item_input_price ?a = 2500000" "item_input_strikethrough ?a = 3000000"
    by (simp_all add: price_fixture_eval)
  have h2: "item_input_price ?b = 50000"
    by (simp add: price_fixture_eval)
  obtain it where h3: "u_data_type ?u = Some ''item'' \<and> u_item ?u = Some it"
    and p3: "unit_input_price it = 2500000" "unit_input_originalPrice it = 2500000"
    by (simp add: item_unit_def price_fixture_eval)
  note c1 = price_rescale[THEN conjunct1]
  note c2 = price_rescale[THEN conjunct2, THEN conjunct1]
  note c3 = price_rescale[THEN conjunct2, THEN conjunct2, THEN conjunct1]
  note c4 = price_rescale[THEN conjunct2, THEN conjunct2, THEN conjunct2, THEN conjunct1]
  note c5 = price_rescale[THEN conjunct2, THEN conjunct2, THEN conjunct2, THEN conjunct2,
      THEN conjunct1]
  note c6 = price_rescale[THEN conjunct2, THEN conjunct2, THEN conjunct2, THEN conjunct2,
      THEN conjunct2]
  have r5: "p_price (normalize_item 8 ?c) = 25"
    by (rule c3[rule_format, OF h5])
  have r6: "cp_price (normalize_unit ?v) = 25"
    by (rule c5[rule_format, OF h6])
  have r7: "cp_price (normalize_unit ?w) = 50000"
    by (rule c6[rule_format, OF h7])
  from c1[rule_format, OF h1, of "[]"] obtain p where
    "map_get 7 (process_item ?a []) = Some p"
    "p_price p = (if item_input_price ?a > 1000000 then item_input_price ?a / 100000
                  else item_input_price ?a)"
    "p_original_price p =
             (if item_input_strikethrough ?a = 0 then p_price p
              else if item_input_price ?a > 1000000
                   then item_input_strikethrough ?a / 100000
                   else item_input_strikethrough ?a)"
    by auto
  then have r1: "\<exists>p. map_get 7 (process_item ?a []) = Some p \<and> p_price p = 25 \<and>
      p_original_price p = 30"
    by (auto simp add: p1)
  have r2: "p_price (normalize_item 8 ?b) = 50000"
    by (rule c4[rule_format, OF h2])
  from c2[rule_format, OF h3, of "([], [])"] obtain q where
    "fst (scan_unit ?u ([], [])) = [] @ [q]"
    "cp_price q = (if unit_input_price it > 1000000 then unit_input_price it / 100000
                   else unit_input_price it)"
    "cp_originalPrice q = (if unit_input_price it > 1000000
                           then unit_input_originalPrice it / 100000
                           else unit_input_originalPrice it)"
    by auto
  then have r3: "\<exists>p. fst (scan_unit ?u ([], [])) = [p] \<and> cp_price p = 25 \<and> cp_originalPrice p = 25"
    by (auto simp add: p3)
  show ?thesis by (intro conjI h1 r1 h2 r2 r3 h5 r5 h6 r6 h7 r7)
qed

text \<open>
  Claim C9.  In the product-list normalization the strikethrough price is divided by
  100,000 exactly when the main price exceeds 1,000,000; its own magnitude plays no part.
  The emitted \<open>original_price\<close> is the rescaled strikethrough price when that is not zero
  and the rescaled current price otherwise, so \<open>original_price\<close> is not zero whenever
  \<open>price\<close> is not zero.
\<close>

theorem strikethrough_coupled_to_price:
  "p_original_price (normalize_item itemId item) =
     (if (if item_input_price item > 1000000 then item_input_strikethrough item / 100000
          else item_input_strikethrough item) \<noteq> 0
      then (if item_input_price item > 1000000 then item_input_strikethrough item / 100000
            else item_input_strikethrough item)
      else p_price (normalize_item itemId item)) \<and>
   (p_price (normalize_item itemId item) \<noteq> 0 \<longrightarrow>
      p_original_price (normalize_item itemId item) \<noteq> 0)"
  unfolding normalize_item_original_price rescale_pair_snd by simp

theorem strikethrough_coupled_to_price_witness:
  "p_price (normalize_item 7 (blank_item\<lparr>raw_item_card_display_price :=
      Some (blank_price_info\<lparr>pi_price := Some 2500000, pi_strikethrough_price := Some 3000000\<rparr>)\<rparr>)) = 25 \<and>
   p_original_price (normalize_item 7 (blank_item\<lparr>raw_item_card_display_price :=
      Some (blank_price_info\<lparr>pi_price := Some 2500000, pi_strikethrough_price := Some 3000000\<rparr>)\<rparr>)) = 30 \<and>
   p_original_price (normalize_item 7 (blank_item\<lparr>raw_item_card_display_price :=
      Some (blank_price_info\<lparr>pi_price := Some 50000, pi_strikethrough_price := Some 3000000\<rparr>)\<rparr>)) = 3000000 \<and>
   p_original_price (normalize_item 7 (blank_item\<lparr>raw_item_card_display_price :=
      Some (blank_price_info\<lparr>pi_price := Some 50000\<rparr>)\<rparr>)) = 50000"
proof -
  let ?a = "blank_item\<lparr>raw_item_card_display_price :=
      Some (blank_price_info\<lparr>pi_price := Some 2500000, pi_strikethrough_price := Some 3000000\<rparr>)\<rparr>"
  let ?b = "blank_item\<lparr>raw_item_card_display_price :=
      Some (blank_price_info\<lparr>pi_price := Some 50000, pi_strikethrough_price := Some 3000000\<rparr>)\<rparr>"
  let ?c = "blank_item\<lparr>raw_item_card_display_price :=
      Some (blank_price_info\<lparr>pi_price := Some 50000\<rparr>)\<rparr>"
  have ia: "item_input_price ?a = 2500000" "item_input_strikethrough ?a = 3000000"
    by (simp_all add: item_input_price_def item_input_strikethrough_def blank_item_def
        blank_price_info_def js_eval)
  have ib: "item_input_price ?b = 50000" "item_input_strikethrough ?b = 3000000"
    by (simp_all add: item_input_price_def item_input_strikethrough_def blank_item_def
        blank_price_info_def js_eval)
  have ic: "item_input_price ?c = 50000" "item_input_strikethrough ?c = 0"
    by (simp_all add: item_input_price_def item_input_strikethrough_def blank_item_def
        blank_price_info_def js_eval)
  have pa: "p_price (normalize_item 7 ?a) = 25" and pc: "p_price (normalize_item 7 ?c) = 50000"
    by (simp_all add: normalize_item_price spec_rescale_def ia ic)
  have ra: "p_original_price (normalize_item 7 ?a) = 30"
    using strikethrough_coupled_to_price[of 7 ?a] by (simp add: ia)
  have rb: "p_original_price (normalize_item 7 ?b) = 3000000"
    using strikethrough_coupled_to_price[of 7 ?b] by (simp add: ib)
  have rc: "p_original_price (normalize_item 7 ?c) = 50000"
    using strikethrough_coupled_to_price[of 7 ?c] by (simp add: ic pc)
  show ?thesis using pa ra rb rc by simp
qed

lemma pdp_scale_divides: "pdp_scale x = num_or0 x / 100000"
  by (simp add: pdp_scale_def js_eval split: option.splits)

lemma pdp_message_models:
  "pr_models (pdp_message d) = sort_models (pr_models (normalize_pdp d))"
  by (cases "pr_models (normalize_pdp d)") (simp_all add: pdp_message_def Let_def sort_models_def)

lemma pdp_message_scalars:
  "pr_price (pdp_message d) = pr_price (normalize_pdp d)"
  "pr_price_min (pdp_message d) = pr_price_min (normalize_pdp d)"
  "pr_price_max (pdp_message d) = pr_price_max (normalize_pdp d)"
  "pr_price_before_discount (pdp_message d) = pr_price_before_discount (normalize_pdp d)"
  by (simp_all add: pdp_message_def Let_def)

lemma sort_models_sorted: "sorted_wrt (\<lambda>a b. mi_sold a \<ge> mi_sold b) (sort_models ms)"
proof -
  have "sorted (map (\<lambda>m. - mi_sold m) (sort_models ms))"
    unfolding sort_models_def by (rule sorted_sort_key)
  then show ?thesis
    by (simp add: sorted_wrt_map)
qed

text \<open>
  Claim C7, as the code has it.  The product-detail normalization does not apply the
  threshold rule: a price of 50,000 comes out as 0.5, in the item and in a variant.  The
  payload has price 50,000 and two variants, the first with price 50,000 and 3 sold, the
  second with price 2,500,000 and 10 sold; the message sent carries the variants with the
  larger sold count first.
\<close>

theorem pdp_small_price_counterexample:
  "pr_price (pdp_message \<lparr> pd_item = Some (blank_pdp_item\<lparr>pdp_price := Some 50000,
       pdp_models := Some [blank_pdp_model\<lparr>m_price := Some 50000, m_sold := Some 3\<rparr>,
                           blank_pdp_model\<lparr>m_price := Some 2500000, m_sold := Some 10\<rparr>]\<rparr>),
       pd_self = blank_pdp_item \<rparr>) = 1 / 2 \<and>
   map (\<lambda>m. (mi_sold m, mi_price m))
     (pr_models (pdp_message \<lparr> pd_item = Some (blank_pdp_item\<lparr>pdp_price := Some 50000,
       pdp_models := Some [blank_pdp_model\<lparr>m_price := Some 50000, m_sold := Some 3\<rparr>,
                           blank_pdp_model\<lparr>m_price := Some 2500000, m_sold := Some 10\<rparr>]\<rparr>),
       pd_self = blank_pdp_item \<rparr>)) = [(10, 25), (3, 1 / 2)] \<and>
   (1 / 2 :: rat) \<noteq> 50000"
  by (simp add: pdp_message_def sort_models_def normalize_pdp_def normalize_model_def
      pdp_item_of_def pdp_scale_def blank_pdp_item_def blank_pdp_model_def Let_def js_eval)

text \<open>
  Claim C7, amended.  In the product-detail message the script sends, price, price_min,
  price_max and price_before_discount are the values of the payload divided by 100,000
  whatever their magnitude, an absent or zero value giving 0.  The variants of the message
  are the normalized variants of the payload, each once, ordered by sold count with the
  largest first; the price and the price_before_discount of a normalized variant are those
  of the variant divided by 100,000, an absent or zero value giving 0.  So a value above
  1,000,000 is divided by 100,000, and so is a value of at most 1,000,000.  The message is
  the one \<open>getResponseBody\<close> hands to \<open>chrome.tabs.sendMessage\<close>.
\<close>

theorem pdp_prices_always_divided:
  "pr_price (pdp_message d) = num_or0 (pdp_price (pdp_item_of d)) / 100000 \<and>
   pr_price_min (pdp_message d) = num_or0 (pdp_price_min (pdp_item_of d)) / 100000 \<and>
   pr_price_max (pdp_message d) = num_or0 (pdp_price_max (pdp_item_of d)) / 100000 \<and>
   pr_price_before_discount (pdp_message d) =
     num_or0 (pdp_price_before_discount (pdp_item_of d)) / 100000 \<and>
   mset (pr_models (pdp_message d)) =
     mset (map normalize_model (case pdp_models (pdp_item_of d) of None \<Rightarrow> [] | Some ms \<Rightarrow> ms)) \<and>
   sorted_wrt (\<lambda>a b. mi_sold a \<ge> mi_sold b) (pr_models (pdp_message d)) \<and>
   (\<forall>m. mi_price (normalize_model m) = num_or0 (m_price m) / 100000 \<and>
        mi_price_before_discount (normalize_model m) =
          num_or0 (m_price_before_discount m) / 100000 \<and>
        mi_sold (normalize_model m) = num_or0 (m_sold m)) \<and>
   sent (handle_body tabId (PdpBody (Some d)) now st) =
     sent st @ [(tabId, SHOPEE_PDP_UPDATE (pdp_message d))]"
proof -
  have s: "pr_price (pdp_message d) = num_or0 (pdp_price (pdp_item_of d)) / 100000"
    "pr_price_min (pdp_message d) = num_or0 (pdp_price_min (pdp_item_of d)) / 100000"
    "pr_price_max (pdp_message d) = num_or0 (pdp_price_max (pdp_item_of d)) / 100000"
    "pr_price_before_discount (pdp_message d) =
       num_or0 (pdp_price_before_discount (pdp_item_of d)) / 100000"
    unfolding pdp_message_scalars
    by (simp_all add: normalize_pdp_def Let_def pdp_scale_divides)
  have m: "mset (pr_models (pdp_message d)) =
     mset (map normalize_model (case pdp_models (pdp_item_of d) of None \<Rightarrow> [] | Some ms \<Rightarrow> ms))"
    unfolding pdp_message_models sort_models_def
    by (simp add: normalize_pdp_def Let_def)
  have o: "sorted_wrt (\<lambda>a b. mi_sold a \<ge> mi_sold b) (pr_models (pdp_message d))"
    unfolding pdp_message_models by (rule sort_models_sorted)
  have v: "\<forall>m. mi_price (normalize_model m) = num_or0 (m_price m) / 100000 \<and>
        mi_price_before_discount (normalize_model m) =
          num_or0 (m_price_before_discount m) / 100000 \<and>
        mi_sold (normalize_model m) = num_or0 (m_sold m)"
    by (simp add: normalize_model_def pdp_scale_divides)
  have h: "sent (handle_body tabId (PdpBody (Some d)) now st) =
     sent st @ [(tabId, SHOPEE_PDP_UPDATE (pdp_message d))]"
    by (simp add: handle_body_def handle_pdp_def send_def ensure_tab_def Let_def
        split: option.splits)
  show ?thesis by (intro conjI s m o v h)
qed

theorem pdp_prices_always_divided_witness:
  "pr_price_max (pdp_message \<lparr> pd_item = None, pd_self = blank_pdp_item\<lparr>pdp_price_max := Some 2500000,
       pdp_models := Some [blank_pdp_model\<lparr>m_price := Some 50000, m_sold := Some 3\<rparr>,
                           blank_pdp_model\<lparr>m_price := Some 2500000, m_sold := Some 10\<rparr>]\<rparr> \<rparr>) = 25 \<and>
   image_mset (\<lambda>m. (mi_sold m, mi_price m))
     (mset (pr_models (pdp_message \<lparr> pd_item = None, pd_self = blank_pdp_item\<lparr>pdp_price_max := Some 2500000,
       pdp_models := Some [blank_pdp_model\<lparr>m_price := Some 50000, m_sold := Some 3\<rparr>,
                           blank_pdp_model\<lparr>m_price := Some 2500000, m_sold := Some 10\<rparr>]\<rparr> \<rparr>))) =
     {#(3, 1 / 2), (10, 25)#} \<and>
   sent (handle_body 5 (PdpBody (Some \<lparr> pd_item = None, pd_self = blank_pdp_item\<lparr>pdp_price_max := Some 2500000,
       pdp_models := Some [blank_pdp_model\<lparr>m_price := Some 50000, m_sold := Some 3\<rparr>,
                           blank_pdp_model\<lparr>m_price := Some 2500000, m_sold := Some 10\<rparr>]\<rparr> \<rparr>)) 0
         (initial_state :: (unit, unit) bg_state)) =
     [(5, SHOPEE_PDP_UPDATE (pdp_message \<lparr> pd_item = None, pd_self = blank_pdp_item\<lparr>pdp_price_max := Some 2500000,
       pdp_models := Some [blank_pdp_model\<lparr>m_price := Some 50000, m_sold := Some 3\<rparr>,
                           blank_pdp_model\<lparr>m_price := Some 2500000, m_sold := Some 10\<rparr>]\<rparr> \<rparr>))]"
proof -
  let ?d = "\<lparr> pd_item = None, pd_self = blank_pdp_item\<lparr>pdp_price_max := Some 2500000,
       pdp_models := Some [blank_pdp_model\<lparr>m_price := Some 50000, m_sold := Some 3\<rparr>,
                           blank_pdp_model\<lparr>m_price := Some 2500000, m_sold := Some 10\<rparr>]\<rparr> \<rparr>"
  note t = pdp_prices_always_divided[where d = ?d and tabId = 5 and now = 0
      and st = "initial_state :: (unit, unit) bg_state"]
  have a: "pr_price_max (pdp_message ?d) = 25"
    using t[THEN conjunct2, THEN conjunct2, THEN conjunct1]
    by (simp add: pdp_item_of_def blank_pdp_item_def js_eval)
  have "mset (pr_models (pdp_message ?d)) =
      mset (map normalize_model (case pdp_models (pdp_item_of ?d) of None \<Rightarrow> [] | Some ms \<Rightarrow> ms))"
    by (rule t[THEN conjunct2, THEN conjunct2, THEN conjunct2, THEN conjunct2, THEN conjunct1])
  then have b: "image_mset (\<lambda>m. (mi_sold m, mi_price m)) (mset (pr_models (pdp_message ?d))) =
      {#(3, 1 / 2), (10, 25)#}"
    by (simp add: pdp_item_of_def blank_pdp_item_def blank_pdp_model_def normalize_model_def
        pdp_scale_def js_eval)
  have c: "sent (handle_body 5 (PdpBody (Some ?d)) 0 (initial_state :: (unit, unit) bg_state)) =
      [(5, SHOPEE_PDP_UPDATE (pdp_message ?d))]"
    using t[THEN conjunct2, THEN conjunct2, THEN conjunct2, THEN conjunct2, THEN conjunct2,
        THEN conjunct2, THEN conjunct2]
    by (simp add: initial_state_def)
  show ?thesis by (intro conjI a b c)
qed

section \<open>The classifier\<close>

lemma str_includes_sublist: "str_includes s pat = sublist pat s"
  by (induction s) (simp_all add: sublist_Cons_right)

lemma str_includes_shorter: "str_includes s (a @ b) \<Longrightarrow> str_includes s a"
  unfolding str_includes_sublist sublist_def by (metis append.assoc)

lemma category_url_has_products_substring:
  "str_includes url ''/api/v4/recommend/recommend_v2'' \<Longrightarrow>
   str_includes url ''/api/v4/recommend/recommend''"
  using str_includes_shorter[of url "''/api/v4/recommend/recommend''" "''_v2''"] by simp

text \<open>
  Claim C6, as the code has it.  The checks for the shop and the product-detail endpoints
  do not end the listener, and the search check comes before the category check: a URL
  that contains the search substring and the product-detail substring is fetched as
  product detail and as search, and a URL that contains the category substring and the
  search substring is fetched as search only, not as category.
\<close>

theorem classifier_not_single_counterexample:
  "onEvent ''Network.responseReceived''
     (Some ''https://shopee.co.id/api/v4/search/search_items?by=relevancy&ref=/api/v4/pdp/get_pc'')
     = [Pdp, Search] \<and>
   onEvent ''Network.responseReceived''
     (Some ''https://shopee.co.id/api/v4/recommend/recommend_v2?from=/api/v4/search/search_items'')
     = [Search]"
  by (simp add: onEvent_def is_products_url_def str_or_empty_def)

text \<open>
  Claim C6, amended.  Of the three types search, category and product-list the listener
  fetches at most one for a URL: search when the URL contains the search substring;
  category when it contains the category substring and not the search substring, although
  it then contains the product-list substring /api/v4/recommend/recommend; a shop or
  product-detail fetch comes in addition exactly when the URL contains those substrings.
  A URL matching none of the known substrings triggers no fetch, nor does an event
  other than \<open>Network.responseReceived\<close>.  The listener is a total function: it has no
  failing branch.
\<close>

theorem classifier_exclusive:
  "(str_includes url ''/api/v4/search/search_items'' \<longrightarrow>
      filter (\<lambda>k. k \<noteq> Shop \<and> k \<noteq> Pdp) (onEvent ''Network.responseReceived'' (Some url)) = [Search]) \<and>
   (str_includes url ''/api/v4/recommend/recommend_v2'' \<and>
    \<not> str_includes url ''/api/v4/search/search_items'' \<longrightarrow>
      str_includes url ''/api/v4/recommend/recommend'' \<and>
      filter (\<lambda>k. k \<noteq> Shop \<and> k \<noteq> Pdp) (onEvent ''Network.responseReceived'' (Some url)) = [Category]) \<and>
   (\<not> str_includes url ''/api/v4/shop/get_shop_base'' \<and>
    \<not> str_includes url ''/api/v4/pdp/get_pc'' \<longrightarrow>
      onEvent ''Network.responseReceived'' (Some url) =
        (if str_includes url ''/api/v4/search/search_items'' then [Search]
         else if str_includes url ''/api/v4/recommend/recommend_v2'' then [Category]
         else if is_products_url url then [Products] else [])) \<and>
   (\<not> str_includes url ''/api/v4/shop/get_shop_base'' \<and>
    \<not> str_includes url ''/api/v4/pdp/get_pc'' \<and>
    \<not> str_includes url ''/api/v4/search/search_items'' \<and>
    \<not> str_includes url ''/api/v4/recommend/recommend_v2'' \<and>
    \<not> is_products_url url \<longrightarrow>
      onEvent ''Network.responseReceived'' (Some url) = []) \<and>
   (event_method \<noteq> ''Network.responseReceived'' \<longrightarrow> onEvent event_method (Some url) = []) \<and>
   (Shop \<in> set (onEvent ''Network.responseReceived'' (Some url)) \<longleftrightarrow>
      str_includes url ''/api/v4/shop/get_shop_base'') \<and>
   (Pdp \<in> set (onEvent ''Network.responseReceived'' (Some url)) \<longleftrightarrow>
      str_includes url ''/api/v4/pdp/get_pc'') \<and>
   length (filter (\<lambda>k. k \<noteq> Shop \<and> k \<noteq> Pdp) (onEvent event_method response_url)) \<le> 1"
  using category_url_has_products_substring[of url]
  by (simp add: onEvent_def str_or_empty_def Let_def)

theorem classifier_exclusive_witness:
  "str_includes ''https://shopee.co.id/api/v4/search/search_items?ref=/api/v4/pdp/get_pc''
     ''/api/v4/search/search_items'' \<and>
   filter (\<lambda>k. k \<noteq> Shop \<and> k \<noteq> Pdp)
     (onEvent ''Network.responseReceived''
        (Some ''https://shopee.co.id/api/v4/search/search_items?ref=/api/v4/pdp/get_pc'')) = [Search] \<and>
   str_includes ''https://shopee.co.id/api/v4/recommend/recommend_v2?limit=60''
     ''/api/v4/recommend/recommend'' \<and>
   onEvent ''Network.responseReceived''
     (Some ''https://shopee.co.id/api/v4/recommend/recommend_v2?limit=60'') = [Category] \<and>
   onEvent ''Network.responseReceived'' (Some ''https://shopee.co.id/api/v4/account/basic'') = [] \<and>
   onEvent ''Network.requestWillBeSent''
     (Some ''https://shopee.co.id/api/v4/search/search_items?keyword=a'') = []"
proof -
  let ?s = "''https://shopee.co.id/api/v4/search/search_items?ref=/api/v4/pdp/get_pc''"
  let ?c = "''https://shopee.co.id/api/v4/recommend/recommend_v2?limit=60''"
  let ?n = "''https://shopee.co.id/api/v4/account/basic''"
  let ?q = "''https://shopee.co.id/api/v4/search/search_items?keyword=a''"
  have hs: "str_includes ?s ''/api/v4/search/search_items''" by simp
  have hc: "str_includes ?c ''/api/v4/recommend/recommend_v2'' \<and>
            \<not> str_includes ?c ''/api/v4/search/search_items''" by simp
  have hc2: "\<not> str_includes ?c ''/api/v4/shop/get_shop_base'' \<and>
             \<not> str_includes ?c ''/api/v4/pdp/get_pc''" by simp
  have hn: "\<not> str_includes ?n ''/api/v4/shop/get_shop_base'' \<and>
            \<not> str_includes ?n ''/api/v4/pdp/get_pc'' \<and>
            \<not> str_includes ?n ''/api/v4/search/search_items'' \<and>
            \<not> str_includes ?n ''/api/v4/recommend/recommend_v2'' \<and>
            \<not> is_products_url ?n" by (simp add: is_products_url_def)
  have hm: "''Network.requestWillBeSent'' \<noteq> ''Network.responseReceived''" by simp
  note c = classifier_exclusive[where url = ?s]
  have r1: "filter (\<lambda>k. k \<noteq> Shop \<and> k \<noteq> Pdp) (onEvent ''Network.responseReceived'' (Some ?s)) = [Search]"
    by (rule c[THEN conjunct1, THEN mp, OF hs])
  note c = classifier_exclusive[where url = ?c]
  have r2: "str_includes ?c ''/api/v4/recommend/recommend''"
    by (rule c[THEN conjunct2, THEN conjunct1, THEN mp, OF hc, THEN conjunct1])
  have "onEvent ''Network.responseReceived'' (Some ?c) =
        (if str_includes ?c ''/api/v4/search/search_items'' then [Search]
         else if str_includes ?c ''/api/v4/recommend/recommend_v2'' then [Category]
         else if is_products_url ?c then [Products] else [])"
    by (rule c[THEN conjunct2, THEN conjunct2, THEN conjunct1, THEN mp, OF hc2])
  then have r3: "onEvent ''Network.responseReceived'' (Some ?c) = [Category]"
    using hc by (simp only: if_True if_False)
  note c = classifier_exclusive[where url = ?n]
  have r4: "onEvent ''Network.responseReceived'' (Some ?n) = []"
    by (rule c[THEN conjunct2, THEN conjunct2, THEN conjunct2, THEN conjunct1, THEN mp, OF hn])
  note c = classifier_exclusive[where url = ?q and event_method = "''Network.requestWillBeSent''"]
  have r5: "onEvent ''Network.requestWillBeSent'' (Some ?q) = []"
    by (rule c[THEN conjunct2, THEN conjunct2, THEN conjunct2, THEN conjunct2, THEN conjunct1, THEN mp, OF hm])
  show ?thesis by (intro conjI hs r1 r2 r3 r4 r5)
qed

section \<open>The product map\<close>

lemma map_set_keys:
  "map fst (map_set k v m) = (if k \<in> fst ` set m then map fst m else map fst m @ [k])"
  by (induction m) auto

lemma map_set_distinct: "distinct (map fst m) \<Longrightarrow> distinct (map fst (map_set k v m))"
  by (simp add: map_set_keys)

lemma map_set_length:
  "length (map_set k v m) = (if k \<in> fst ` set m then length m else Suc (length m))"
  by (induction m) auto

lemma map_set_key_set: "fst ` set (map_set k v m) = insert k (fst ` set m)"
  using arg_cong[OF map_set_keys[of k v m], of set] by (auto split: if_splits)

lemma item_ids_single:
  "set (item_ids [item]) = (case itemId_of item of None \<Rightarrow> {} | Some i \<Rightarrow> {i})"
  by (simp add: item_ids_def List.map_filter_simps split: option.splits)

lemma item_ids_Cons: "set (item_ids (x # xs)) = set (item_ids [x]) \<union> set (item_ids xs)"
  by (auto simp: item_ids_def List.map_filter_simps split: option.splits)

lemma process_item_distinct:
  "distinct (map fst m) \<Longrightarrow> distinct (map fst (process_item item m))"
  by (simp add: process_item_def map_set_distinct split: option.splits)

lemma process_item_key_set:
  "fst ` set (process_item item m) = fst ` set m \<union> set (item_ids [item])"
  by (simp add: process_item_def map_set_key_set item_ids_single split: option.splits)

lemma card_single_diff: "card ({x} - K) = (if x \<in> K then 0 else 1)"
proof (cases "x \<in> K")
  case True
  then have "{x} - K = {}" by auto
  with True show ?thesis by simp
next
  case False
  then have "{x} - K = {x}" by auto
  with False show ?thesis by simp
qed

lemma process_item_length:
  "length (process_item item m) = length m + card (set (item_ids [item]) - fst ` set m)"
  by (simp add: process_item_def map_set_length item_ids_single card_single_diff
      split: option.splits)

lemma fold_process_item_distinct:
  "distinct (map fst m) \<Longrightarrow> distinct (map fst (fold process_item items m))"
  by (induction items arbitrary: m) (simp_all add: process_item_distinct)

lemma fold_process_item_key_set:
  "fst ` set (fold process_item items m) = fst ` set m \<union> set (item_ids items)"
proof (induction items arbitrary: m)
  case Nil
  show ?case by (simp add: item_ids_def List.map_filter_simps)
next
  case (Cons x xs)
  have "fst ` set (fold process_item (x # xs) m) =
          (fst ` set m \<union> set (item_ids [x])) \<union> set (item_ids xs)"
    by (simp only: fold_simps Cons.IH process_item_key_set)
  then show ?case
    unfolding item_ids_Cons[of x xs] by (simp only: Un_assoc)
qed

lemma fold_process_item_length:
  "length (fold process_item items m) = length m + card (set (item_ids items) - fst ` set m)"
proof (induction items arbitrary: m)
  case Nil
  show ?case by (simp add: item_ids_def List.map_filter_simps)
next
  case (Cons x xs)
  let ?K = "fst ` set m" and ?A = "set (item_ids [x])" and ?B = "set (item_ids xs)"
  have fin: "finite (?A - ?K)" "finite (?B - (?K \<union> ?A))" by simp_all
  have disj: "(?A - ?K) \<inter> (?B - (?K \<union> ?A)) = {}" by auto
  have un: "(?A \<union> ?B) - ?K = (?A - ?K) \<union> (?B - (?K \<union> ?A))" by auto
  have "length (fold process_item (x # xs) m) =
          length m + card (?A - ?K) + card (?B - (?K \<union> ?A))"
    by (simp only: fold_simps Cons.IH process_item_length process_item_key_set)
  also have "\<dots> = length m + card ((?A \<union> ?B) - ?K)"
    unfolding un using card_Un_disjoint[OF fin disj] by simp
  finally show ?case unfolding item_ids_Cons[of x xs] .
qed

lemma keyed_values: "keyed_by_itemid m \<Longrightarrow> map p_itemid (map snd m) = map fst m"
  by (induction m) (simp_all add: keyed_by_itemid_def)

lemma map_set_keyed:
  "keyed_by_itemid m \<Longrightarrow> p_itemid v = k \<Longrightarrow> keyed_by_itemid (map_set k v m)"
  by (induction m) (simp_all add: keyed_by_itemid_def)

lemma normalize_item_itemid: "p_itemid (normalize_item itemId item) = itemId"
  by (simp add: normalize_item_def Let_def split_beta)

lemma process_item_keyed: "keyed_by_itemid m \<Longrightarrow> keyed_by_itemid (process_item item m)"
  by (simp add: process_item_def map_set_keyed normalize_item_itemid split: option.splits)

lemma fold_process_item_keyed:
  "keyed_by_itemid m \<Longrightarrow> keyed_by_itemid (fold process_item items m)"
  by (induction items arbitrary: m) (simp_all add: process_item_keyed)

lemma tab_data_ensure_tab: "tab_data tabId (ensure_tab tabId st) = tab_data tabId st"
  by (simp add: tab_data_def ensure_tab_def split: option.splits)

lemma tab_data_processItems:
  "tab_data tabId (processItems tabId items tot st) =
     processItems_data items tot (tab_data tabId st)"
  by (simp add: processItems_def Let_def tab_data_ensure_tab) (simp add: tab_data_def)

lemma tab_products_processItems:
  "tab_products tabId (processItems tabId items tot st) =
     fold process_item items (tab_products tabId st)"
  by (simp add: tab_products_def tab_data_processItems processItems_data_def Let_def)

lemma totalCaptured_processItems:
  "totalCaptured (tab_data tabId (processItems tabId items tot st)) =
     map_size (tab_products tabId (processItems tabId items tot st))"
  by (simp add: tab_products_def tab_data_processItems processItems_data_def Let_def)

lemma tab_data_reset_tab: "tab_data tabId (reset_tab tabId st) = empty_ShopData"
  by (simp add: tab_data_def reset_tab_def)

lemma upsert_batches_products:
  "distinct (map fst (tab_products tabId st)) \<Longrightarrow>
   keyed_by_itemid (tab_products tabId st) \<Longrightarrow>
   distinct (map fst (tab_products tabId (upsert_batches tabId batches st))) \<and>
   keyed_by_itemid (tab_products tabId (upsert_batches tabId batches st)) \<and>
   fst ` set (tab_products tabId (upsert_batches tabId batches st)) =
     fst ` set (tab_products tabId st) \<union> batch_ids batches"
proof (induction batches arbitrary: st)
  case Nil
  then show ?case by (simp add: upsert_batches_def batch_ids_def)
next
  case (Cons b bs)
  let ?st = "processItems tabId (fst b) (snd b) st"
  have d: "distinct (map fst (tab_products tabId ?st))"
    using Cons.prems(1) by (simp add: tab_products_processItems fold_process_item_distinct)
  have i: "keyed_by_itemid (tab_products tabId ?st)"
    using Cons.prems(2) by (simp add: tab_products_processItems fold_process_item_keyed)
  have k: "fst ` set (tab_products tabId ?st) =
             fst ` set (tab_products tabId st) \<union> set (item_ids (fst b))"
    by (simp add: tab_products_processItems fold_process_item_key_set)
  have u: "upsert_batches tabId (b # bs) st = upsert_batches tabId bs ?st"
    by (simp add: upsert_batches_def)
  show ?case
    unfolding u using Cons.IH[OF d i] k by (auto simp: batch_ids_def)
qed

lemma upsert_batches_totalCaptured:
  "totalCaptured (tab_data tabId st) = map_size (tab_products tabId st) \<Longrightarrow>
   totalCaptured (tab_data tabId (upsert_batches tabId batches st)) =
     map_size (tab_products tabId (upsert_batches tabId batches st))"
proof (induction batches arbitrary: st)
  case Nil
  then show ?case by (simp add: upsert_batches_def)
next
  case (Cons b bs)
  have u: "upsert_batches tabId (b # bs) st =
             upsert_batches tabId bs (processItems tabId (fst b) (snd b) st)"
    by (simp add: upsert_batches_def)
  show ?case unfolding u by (rule Cons.IH) (rule totalCaptured_processItems)
qed

lemma productMap_set_fold:
  "distinct (map fst m) \<Longrightarrow> keyed_by_itemid m \<Longrightarrow>
   distinct (map fst (fold productMap_set ps m)) \<and>
   keyed_by_itemid (fold productMap_set ps m) \<and>
   fst ` set (fold productMap_set ps m) = fst ` set m \<union> p_itemid ` set ps"
proof (induction ps arbitrary: m)
  case Nil
  then show ?case by simp
next
  case (Cons p ps)
  have d: "distinct (map fst (productMap_set p m))"
    using Cons.prems(1) by (simp add: productMap_set_def map_set_distinct)
  have i: "keyed_by_itemid (productMap_set p m)"
    using Cons.prems(2) by (simp add: productMap_set_def map_set_keyed)
  have k: "fst ` set (productMap_set p m) = insert (p_itemid p) (fst ` set m)"
    by (simp add: productMap_set_def map_set_key_set)
  show ?case using Cons.IH[OF d i] k by auto
qed

lemma mergeProducts_ids:
  "distinct (map p_itemid (mergeProducts existing newProducts)) \<and>
   set (map p_itemid (mergeProducts existing newProducts)) =
     p_itemid ` set existing \<union> p_itemid ` set newProducts"
proof -
  let ?m = "fold productMap_set existing []"
  have a: "distinct (map fst ?m) \<and> keyed_by_itemid ?m \<and>
           fst ` set ?m = p_itemid ` set existing"
    using productMap_set_fold[of "[]" existing] by (simp add: keyed_by_itemid_def)
  let ?n = "fold productMap_set newProducts ?m"
  have b: "distinct (map fst ?n) \<and> keyed_by_itemid ?n \<and>
           fst ` set ?n = fst ` set ?m \<union> p_itemid ` set newProducts"
    using a by (intro productMap_set_fold) simp_all
  have kn: "keyed_by_itemid ?n" using b by blast
  have v: "map p_itemid (mergeProducts existing newProducts) = map fst ?n"
    unfolding mergeProducts_def map_values_def Let_def by (rule keyed_values[OF kn])
  have "set (map fst ?n) = p_itemid ` set existing \<union> p_itemid ` set newProducts"
    using a b by simp
  then show ?thesis unfolding v using b by simp
qed

lemma mergeProducts_length:
  "length (mergeProducts existing newProducts) =
     card (p_itemid ` set existing \<union> p_itemid ` set newProducts)"
proof -
  let ?xs = "map p_itemid (mergeProducts existing newProducts)"
  have d: "distinct ?xs"
    and s: "set ?xs = p_itemid ` set existing \<union> p_itemid ` set newProducts"
    using mergeProducts_ids[of existing newProducts] by blast+
  have "card (set ?xs) = length ?xs" by (rule distinct_card[OF d])
  then have "card (p_itemid ` set existing \<union> p_itemid ` set newProducts) = length ?xs"
    by (simp only: s)
  then show ?thesis by simp
qed

lemma tab_products_reset_tab: "tab_products tabId (reset_tab tabId st) = []"
  by (simp add: tab_products_def tab_data_reset_tab empty_ShopData_def)

lemma card_union_diff:
  "finite A \<Longrightarrow> finite B \<Longrightarrow> card (A \<union> B) = card A + card (B - A)"
  using card_Un_disjoint[of A "B - A"] by (simp add: Un_Diff_cancel)

text \<open>
  Claim C3.  Whatever sequence of batches is fed to \<open>processItems\<close> for a tab, starting from
  the empty entry of a reset, the product map has no key twice, no two of its records share
  an item id, its keys are the item ids submitted (so its size does not exceed their
  number), and \<open>totalCaptured\<close> is the size of the map.  One call of \<open>processItems\<close> on any
  state adds to the size of the map the number of ids of the batch that the map does not
  hold yet, sets \<open>totalCaptured\<close> to the new size and keeps the keys distinct.  An item
  whose \<open>itemid\<close> and \<open>item_id\<close> are both absent or 0 submits no id.  \<open>mergeProducts\<close>
  returns records with distinct item ids, one per id of the two lists, and merging into
  a list of distinct ids of length |A| a batch with k ids not among them gives |A| + k
  records.
\<close>

theorem upsert_correct:
  "(let st' = upsert_batches tabId batches (reset_tab tabId st); m = tab_products tabId st'
    in distinct (map_keys m) \<and> distinct (map p_itemid (map_values m)) \<and>
       set (map_keys m) = batch_ids batches \<and>
       map_size m \<le> card (batch_ids batches) \<and>
       totalCaptured (tab_data tabId st') = map_size m) \<and>
   map_size (tab_products tabId (processItems tabId items tot st)) =
     map_size (tab_products tabId st) +
     card (set (item_ids items) - set (map_keys (tab_products tabId st))) \<and>
   totalCaptured (tab_data tabId (processItems tabId items tot st)) =
     map_size (tab_products tabId (processItems tabId items tot st)) \<and>
   (distinct (map_keys (tab_products tabId st)) \<longrightarrow>
      distinct (map_keys (tab_products tabId (processItems tabId items tot st)))) \<and>
   distinct (map p_itemid (mergeProducts existing newProducts)) \<and>
   length (mergeProducts existing newProducts) =
     card (p_itemid ` set existing \<union> p_itemid ` set newProducts) \<and>
   (distinct (map p_itemid existing) \<longrightarrow>
      length (mergeProducts existing newProducts) =
        length existing + card (p_itemid ` set newProducts - p_itemid ` set existing))"
proof -
  let ?r = "reset_tab tabId st"
  let ?st' = "upsert_batches tabId batches ?r"
  let ?m = "tab_products tabId ?st'"
  have inv: "distinct (map fst ?m) \<and> keyed_by_itemid ?m \<and>
             fst ` set ?m = fst ` set (tab_products tabId ?r) \<union> batch_ids batches"
    by (rule upsert_batches_products)
       (simp_all add: tab_products_reset_tab keyed_by_itemid_def)
  then have d: "distinct (map_keys ?m)" and k: "set (map_keys ?m) = batch_ids batches"
    by (simp_all add: map_keys_def tab_products_reset_tab)
  have v: "map p_itemid (map_values ?m) = map_keys ?m"
    unfolding map_values_def map_keys_def using inv by (intro keyed_values) blast
  have sz: "map_size ?m = card (batch_ids batches)"
    using distinct_card[OF d] k by (simp add: map_size_def map_keys_def)
  have tc: "totalCaptured (tab_data tabId ?st') = map_size ?m"
    by (rule upsert_batches_totalCaptured)
       (simp add: tab_data_reset_tab tab_products_reset_tab empty_ShopData_def map_size_def)
  have p1: "let st' = ?st'; m = tab_products tabId st'
    in distinct (map_keys m) \<and> distinct (map p_itemid (map_values m)) \<and>
       set (map_keys m) = batch_ids batches \<and>
       map_size m \<le> card (batch_ids batches) \<and>
       totalCaptured (tab_data tabId st') = map_size m"
    unfolding Let_def v using d k sz tc by simp
  have p2: "map_size (tab_products tabId (processItems tabId items tot st)) =
     map_size (tab_products tabId st) +
     card (set (item_ids items) - set (map_keys (tab_products tabId st)))"
    by (simp add: map_size_def map_keys_def tab_products_processItems fold_process_item_length)
  have p3: "totalCaptured (tab_data tabId (processItems tabId items tot st)) =
     map_size (tab_products tabId (processItems tabId items tot st))"
    by (rule totalCaptured_processItems)
  have p4: "distinct (map_keys (tab_products tabId st)) \<longrightarrow>
      distinct (map_keys (tab_products tabId (processItems tabId items tot st)))"
    by (simp add: map_keys_def tab_products_processItems fold_process_item_distinct)
  have p5: "distinct (map p_itemid (mergeProducts existing newProducts))"
    using mergeProducts_ids[of existing newProducts] by blast
  have p6: "length (mergeProducts existing newProducts) =
     card (p_itemid ` set existing \<union> p_itemid ` set newProducts)"
    by (rule mergeProducts_length)
  have p7: "length (mergeProducts existing newProducts) =
        length existing + card (p_itemid ` set newProducts - p_itemid ` set existing)"
    if dx: "distinct (map p_itemid existing)"
  proof -
    have "card (p_itemid ` set existing) = length existing"
      using distinct_card[OF dx] by simp
    then show ?thesis
      unfolding p6 using card_union_diff[of "p_itemid ` set existing" "p_itemid ` set newProducts"]
      by simp
  qed
  from p7 have p7': "distinct (map p_itemid existing) \<longrightarrow>
      length (mergeProducts existing newProducts) =
        length existing + card (p_itemid ` set newProducts - p_itemid ` set existing)"
    by blast
  show ?thesis by (intro conjI p1 p2 p3 p4 p5 p6 p7')
qed

theorem upsert_correct_witness:
  "distinct (map_keys (tab_products 1 (initial_state :: (unit, unit) bg_state))) \<and>
   distinct (map_keys (tab_products 1
      (processItems 1 [blank_item\<lparr>raw_itemid := Some 7\<rparr>, blank_item\<lparr>raw_item_id := Some 7\<rparr>] 0
         (initial_state :: (unit, unit) bg_state)))) \<and>
   map_size (tab_products 1
      (processItems 1 [blank_item\<lparr>raw_itemid := Some 7\<rparr>, blank_item\<lparr>raw_item_id := Some 7\<rparr>] 0
         (initial_state :: (unit, unit) bg_state))) = 1 \<and>
   distinct (map p_itemid [normalize_item 7 blank_item, normalize_item 8 blank_item]) \<and>
   length (mergeProducts [normalize_item 7 blank_item, normalize_item 8 blank_item]
             [normalize_item 8 blank_item, normalize_item 9 blank_item]) = 3"
proof -
  let ?i = "initial_state :: (unit, unit) bg_state"
  let ?items = "[blank_item\<lparr>raw_itemid := Some 7\<rparr>, blank_item\<lparr>raw_item_id := Some 7\<rparr>]"
  let ?A = "[normalize_item 7 blank_item, normalize_item 8 blank_item]"
  let ?B = "[normalize_item 8 blank_item, normalize_item 9 blank_item]"
  note u = upsert_correct[of 1 "[]" ?i ?items 0 ?A ?B]
  have e: "tab_products 1 ?i = []"
    by (simp add: tab_products_def tab_data_def initial_state_def empty_ShopData_def)
  have h1: "distinct (map_keys (tab_products 1 ?i))"
    unfolding e map_keys_def by simp
  have ids: "set (item_ids ?items) = {7}"
    by (simp add: item_ids_def List.map_filter_simps itemId_of_def blank_item_def)
  have h2: "distinct (map p_itemid ?A)"
    by (simp add: normalize_item_itemid)
  have r1: "distinct (map_keys (tab_products 1 (processItems 1 ?items 0 ?i)))"
    using u h1 by blast
  have "map_size (tab_products 1 (processItems 1 ?items 0 ?i)) =
     map_size (tab_products 1 ?i) + card (set (item_ids ?items) - set (map_keys (tab_products 1 ?i)))"
    using u by blast
  then have r2: "map_size (tab_products 1 (processItems 1 ?items 0 ?i)) = 1"
    unfolding ids e by (simp add: map_size_def map_keys_def)
  have "length (mergeProducts ?A ?B) =
          length ?A + card (p_itemid ` set ?B - p_itemid ` set ?A)"
    using u h2 by blast
  then have r3: "length (mergeProducts ?A ?B) = 3"
    by (simp add: normalize_item_itemid)
  show ?thesis by (intro conjI h1 r1 r2 h2 r3)
qed

section \<open>Push and pull\<close>

lemma snapshot_of_empty: "snapshot_of empty_ShopData = empty_snapshot"
  by (simp add: snapshot_of_def empty_ShopData_def empty_snapshot_def map_values_def)

lemma GET_reset_tab:
  "GET_CAPTURED_DATA tabId (reset_tab tabId st) = Some empty_snapshot"
  by (simp add: GET_CAPTURED_DATA_def reset_tab_def snapshot_of_empty)

lemma GET_ensure_tab:
  "GET_CAPTURED_DATA tabId (ensure_tab tabId st) =
     (case shopDataByTab st tabId of None \<Rightarrow> Some empty_snapshot | Some d \<Rightarrow> Some (snapshot_of d))"
  by (simp add: GET_CAPTURED_DATA_def ensure_tab_def snapshot_of_empty split: option.splits)

lemma last_pushed_snoc:
  "last_pushed tabId (ms @ [(t, m)]) =
     (case m of
        SHOPEE_DATA_UPDATE s \<Rightarrow> if t = tabId then Some s else last_pushed tabId ms
      | SHOPEE_SEARCH_UPDATE _ \<Rightarrow> last_pushed tabId ms
      | SHOPEE_CATEGORY_UPDATE _ \<Rightarrow> last_pushed tabId ms
      | SHOPEE_PDP_UPDATE _ \<Rightarrow> last_pushed tabId ms)"
  by (induction ms) (auto split: option.splits message.splits)

lemma notify_push_pull:
  "shopDataByTab st tabId = Some d \<Longrightarrow>
   GET_CAPTURED_DATA tabId (notifyContentScript tabId st) = Some (snapshot_of d) \<and>
   sent (notifyContentScript tabId st) = sent st @ [(tabId, SHOPEE_DATA_UPDATE (snapshot_of d))]"
  by (simp add: GET_CAPTURED_DATA_def notifyContentScript_def)

lemma processItems_entry:
  "shopDataByTab (processItems tabId items tot st) tabId =
     Some (tab_data tabId (processItems tabId items tot st))"
  by (simp add: processItems_def Let_def tab_data_def)

lemma sent_processItems: "sent (processItems tabId items tot st) = sent st"
  by (simp add: processItems_def Let_def ensure_tab_def split: option.splits)

lemma sent_ensure_tab: "sent (ensure_tab tabId st) = sent st"
  by (simp add: ensure_tab_def split: option.splits)

lemma fold_process_item_nonempty:
  "set (item_ids items) \<noteq> {} \<Longrightarrow> fold process_item items m \<noteq> []"
  using fold_process_item_key_set[of items m] by auto

lemma upsert_then_push:
  "\<exists>s. GET_CAPTURED_DATA tabId (notifyContentScript tabId (processItems tabId items tot st)) = Some s \<and>
       sent (notifyContentScript tabId (processItems tabId items tot st)) =
         sent st @ [(tabId, SHOPEE_DATA_UPDATE s)] \<and>
             sn_products s = map_values (fold process_item items (tab_products tabId st)) \<and>
             sn_totalProducts s = length (sn_products s)"
proof -
  let ?p = "processItems tabId items tot st"
  let ?d = "tab_data tabId ?p"
  have e: "shopDataByTab ?p tabId = Some ?d" by (rule processItems_entry)
  have pr: "products ?d = fold process_item items (tab_products tabId st)"
    using tab_products_processItems[of tabId items tot st] by (simp add: tab_products_def)
  have "GET_CAPTURED_DATA tabId (notifyContentScript tabId ?p) = Some (snapshot_of ?d) \<and>
        sent (notifyContentScript tabId ?p) =
          sent st @ [(tabId, SHOPEE_DATA_UPDATE (snapshot_of ?d))]"
    using notify_push_pull[OF e] by (simp add: sent_processItems)
  moreover have "sn_products (snapshot_of ?d) =
                   map_values (fold process_item items (tab_products tabId st))"
    by (simp add: snapshot_of_def Let_def pr)
  moreover have "sn_totalProducts (snapshot_of ?d) = length (sn_products (snapshot_of ?d))"
    by (simp add: snapshot_of_def Let_def)
  ultimately show ?thesis by blast
qed

lemma handle_products_nonempty:
  "fst (products_extract b) \<noteq> [] \<Longrightarrow>
   handle_body tabId (ProductsBody b) now st =
     notifyContentScript tabId
       (processItems tabId (fst (products_extract b)) (snd (products_extract b))
          (ensure_tab tabId st))"
  by (simp add: handle_body_def handle_products_def Let_def split_beta)

lemma shopData_ensure_tab_other:
  "shopDataByTab st tabId \<noteq> None \<Longrightarrow>
   shopDataByTab (ensure_tab t st) tabId = shopDataByTab st tabId"
  by (auto simp: ensure_tab_def split: option.splits)

text \<open>
  A handled response either leaves the table of \<open>ensure_tab\<close> and pushes no snapshot, or
  stores an entry for its tab and pushes the snapshot of that entry.
\<close>

lemma handle_body_cases:
  "(shopDataByTab (handle_body t bd now st) = shopDataByTab (ensure_tab t st) \<and>
    last_pushed tabId (sent (handle_body t bd now st)) = last_pushed tabId (sent st)) \<or>
   (\<exists>d. shopDataByTab (handle_body t bd now st) = (shopDataByTab (ensure_tab t st))(t \<mapsto> d) \<and>
        sent (handle_body t bd now st) = sent st @ [(t, SHOPEE_DATA_UPDATE (snapshot_of d))])"
proof (cases bd)
  case (ShopBody d)
  then show ?thesis
    by (cases d)
       (auto simp: handle_body_def handle_shop_def notifyContentScript_def sent_ensure_tab Let_def)
next
  case (ProductsBody pb)
  show ?thesis
  proof (cases "fst (products_extract pb) = []")
    case True
    then show ?thesis
      using ProductsBody
      by (simp add: handle_body_def handle_products_def Let_def split_beta sent_ensure_tab)
  next
    case False
    let ?p = "processItems t (fst (products_extract pb)) (snd (products_extract pb))
                (ensure_tab t st)"
    have e: "shopDataByTab ?p t = Some (tab_data t ?p)" by (rule processItems_entry)
    have s: "shopDataByTab ?p = (shopDataByTab (ensure_tab t st))(t \<mapsto> tab_data t ?p)"
      by (rule ext) (simp add: processItems_def Let_def tab_data_def ensure_tab_def
          split: option.splits)
    have "shopDataByTab (handle_body t bd now st) =
            (shopDataByTab (ensure_tab t st))(t \<mapsto> tab_data t ?p) \<and>
          sent (handle_body t bd now st) =
            sent st @ [(t, SHOPEE_DATA_UPDATE (snapshot_of (tab_data t ?p)))]"
      unfolding ProductsBody handle_products_nonempty[OF False]
      using e s by (simp add: notifyContentScript_def sent_processItems sent_ensure_tab)
    then show ?thesis by blast
  qed
next
  case (SearchBody sb)
  then show ?thesis
    by (simp add: handle_body_def handle_search_def send_def Let_def split_beta sent_ensure_tab
        last_pushed_snoc)
next
  case (CategoryBody cb)
  then show ?thesis
    by (simp add: handle_body_def handle_category_def send_def Let_def sent_ensure_tab
        last_pushed_snoc)
next
  case (PdpBody pd)
  then show ?thesis
    by (cases pd) (simp_all add: handle_body_def handle_pdp_def send_def Let_def sent_ensure_tab
        last_pushed_snoc)
qed

lemma handle_body_keeps_pull:
  assumes "shopDataByTab st tabId \<noteq> None"
    and "GET_CAPTURED_DATA tabId st = last_pushed tabId (sent st)"
  shows "GET_CAPTURED_DATA tabId (handle_body t bd now st) =
           last_pushed tabId (sent (handle_body t bd now st)) \<and>
         shopDataByTab (handle_body t bd now st) tabId \<noteq> None"
  using handle_body_cases[of t bd now st tabId]
proof (elim disjE conjE exE)
  assume a: "shopDataByTab (handle_body t bd now st) = shopDataByTab (ensure_tab t st)"
    and b: "last_pushed tabId (sent (handle_body t bd now st)) = last_pushed tabId (sent st)"
  have "shopDataByTab (handle_body t bd now st) tabId = shopDataByTab st tabId"
    unfolding a by (rule shopData_ensure_tab_other[OF assms(1)])
  then show ?thesis
    using assms b by (simp add: GET_CAPTURED_DATA_def)
next
  fix d
  assume a: "shopDataByTab (handle_body t bd now st) = (shopDataByTab (ensure_tab t st))(t \<mapsto> d)"
    and b: "sent (handle_body t bd now st) = sent st @ [(t, SHOPEE_DATA_UPDATE (snapshot_of d))]"
  show ?thesis
  proof (cases "t = tabId")
    case True
    then show ?thesis
      using a b by (simp add: GET_CAPTURED_DATA_def last_pushed_snoc)
  next
    case False
    then have "shopDataByTab (handle_body t bd now st) tabId = shopDataByTab st tabId"
      unfolding a using shopData_ensure_tab_other[OF assms(1), of t] by simp
    then show ?thesis
      using assms False by (simp add: GET_CAPTURED_DATA_def b last_pushed_snoc)
  qed
qed

lemma handle_body_no_capture:
  assumes "shopDataByTab st tabId = None"
  shows "GET_CAPTURED_DATA tabId (handle_body tabId (ShopBody None) now st) = Some empty_snapshot"
    and "fst (products_extract pb) = [] \<Longrightarrow>
         GET_CAPTURED_DATA tabId (handle_body tabId (ProductsBody pb) now st) = Some empty_snapshot"
    and "GET_CAPTURED_DATA tabId (handle_body tabId (SearchBody sb) now st) = Some empty_snapshot"
    and "GET_CAPTURED_DATA tabId (handle_body tabId (CategoryBody cb) now st) = Some empty_snapshot"
    and "GET_CAPTURED_DATA tabId (handle_body tabId (PdpBody pd) now st) = Some empty_snapshot"
proof -
  have e: "GET_CAPTURED_DATA tabId (ensure_tab tabId st) = Some empty_snapshot"
    using assms by (simp add: GET_ensure_tab)
  show "GET_CAPTURED_DATA tabId (handle_body tabId (ShopBody None) now st) = Some empty_snapshot"
    using e by (simp add: handle_body_def handle_shop_def Let_def)
  show "GET_CAPTURED_DATA tabId (handle_body tabId (ProductsBody pb) now st) = Some empty_snapshot"
    if "fst (products_extract pb) = []"
    using e that by (simp add: handle_body_def handle_products_def Let_def split_beta)
  show "GET_CAPTURED_DATA tabId (handle_body tabId (SearchBody sb) now st) = Some empty_snapshot"
    using e by (simp add: handle_body_def handle_search_def send_def Let_def split_beta
        GET_CAPTURED_DATA_def)
  show "GET_CAPTURED_DATA tabId (handle_body tabId (CategoryBody cb) now st) = Some empty_snapshot"
    using e by (simp add: handle_body_def handle_category_def send_def Let_def
        GET_CAPTURED_DATA_def)
  show "GET_CAPTURED_DATA tabId (handle_body tabId (PdpBody pd) now st) = Some empty_snapshot"
    using e by (cases pd) (simp_all add: handle_body_def handle_pdp_def send_def Let_def
        GET_CAPTURED_DATA_def)
qed

lemma handle_shop_push:
  "\<exists>s. GET_CAPTURED_DATA tabId (handle_body tabId (ShopBody (Some info)) now st) = Some s \<and>
       sent (handle_body tabId (ShopBody (Some info)) now st) =
         sent st @ [(tabId, SHOPEE_DATA_UPDATE s)] \<and>
       sn_shopInfo s = Some info"
  by (simp add: handle_body_def handle_shop_def notifyContentScript_def GET_CAPTURED_DATA_def
      sent_ensure_tab snapshot_of_def Let_def)

text \<open>
  Claim C4, as the code has it.  Navigation into the site resets the entry of the tab to
  an empty one before anything is captured; a pull in that state is answered with an
  empty snapshot (no shop info, no products, both counts 0), not with null, and nothing
  has been pushed.  And a pull after an upsert need not return the snapshot pushed last:
  after one item has been upserted and pushed for tab 5, a navigation start resets the
  entry, and the pull returns the empty snapshot while the message pushed last carried one
  product.
\<close>

theorem pull_null_counterexample:
  "onMessage_GET_CAPTURED_DATA (Some 1)
     (onUpdated 1 (Some ''loading'') (Some ''https://shopee.co.id/'')
        (initial_state :: (unit, unit) bg_state)) =
     Answer (Some \<lparr> sn_shopInfo = None, sn_products = [], sn_totalProducts = 0,
                     sn_totalExpected = 0 \<rparr>) \<and>
   sent (onUpdated 1 (Some ''loading'') (Some ''https://shopee.co.id/'')
        (initial_state :: (unit, unit) bg_state)) = [] \<and>
   GET_CAPTURED_DATA 1
     (onUpdated 1 (Some ''loading'') (Some ''https://shopee.co.id/'')
        (initial_state :: (unit, unit) bg_state)) \<noteq> None \<and>
   GET_CAPTURED_DATA 5
     (onUpdated 5 (Some ''loading'') (Some ''https://shopee.co.id/'')
        (notifyContentScript 5
           (processItems 5 [blank_item\<lparr>raw_itemid := Some 7\<rparr>] 40
              (initial_state :: (unit, unit) bg_state)))) =
     Some \<lparr> sn_shopInfo = None, sn_products = [], sn_totalProducts = 0,
            sn_totalExpected = 0 \<rparr> \<and>
   (\<exists>s. last_pushed 5
          (sent (onUpdated 5 (Some ''loading'') (Some ''https://shopee.co.id/'')
             (notifyContentScript 5
                (processItems 5 [blank_item\<lparr>raw_itemid := Some 7\<rparr>] 40
                   (initial_state :: (unit, unit) bg_state))))) = Some s \<and>
        sn_totalProducts s = 1 \<and> sn_totalExpected s = 40)"
proof -
  let ?i = "initial_state :: (unit, unit) bg_state"
  let ?url = "''https://shopee.co.id/''"
  let ?p = "notifyContentScript 5 (processItems 5 [blank_item\<lparr>raw_itemid := Some 7\<rparr>] 40 ?i)"
  have inc: "str_includes ?url ''shopee.co.id''"
    by simp
  have up: "onUpdated t (Some ''loading'') (Some ?url) st = reset_tab t st"
    for t and st :: "(unit, unit) bg_state"
    using inc by (simp add: onUpdated_def)
  have a: "onMessage_GET_CAPTURED_DATA (Some 1) (onUpdated 1 (Some ''loading'') (Some ?url) ?i) =
     Answer (Some \<lparr> sn_shopInfo = None, sn_products = [], sn_totalProducts = 0,
                     sn_totalExpected = 0 \<rparr>)"
    unfolding up by (simp add: onMessage_GET_CAPTURED_DATA_def GET_reset_tab empty_snapshot_def)
  have b: "sent (onUpdated 1 (Some ''loading'') (Some ?url) ?i) = []"
    unfolding up by (simp add: reset_tab_def initial_state_def)
  have c: "GET_CAPTURED_DATA 1 (onUpdated 1 (Some ''loading'') (Some ?url) ?i) \<noteq> None"
    unfolding up by (simp add: GET_reset_tab)
  have d: "GET_CAPTURED_DATA 5 (onUpdated 5 (Some ''loading'') (Some ?url) ?p) =
     Some \<lparr> sn_shopInfo = None, sn_products = [], sn_totalProducts = 0, sn_totalExpected = 0 \<rparr>"
    unfolding up by (simp add: GET_reset_tab empty_snapshot_def)
  have e: "shopDataByTab (processItems 5 [blank_item\<lparr>raw_itemid := Some 7\<rparr>] 40 ?i) 5 =
      Some (processItems_data [blank_item\<lparr>raw_itemid := Some 7\<rparr>] 40 empty_ShopData)"
    by (simp add: processItems_def Let_def ensure_tab_def tab_data_def initial_state_def)
  have f: "sent ?p = [(5, SHOPEE_DATA_UPDATE (snapshot_of
      (processItems_data [blank_item\<lparr>raw_itemid := Some 7\<rparr>] 40 empty_ShopData)))]"
    using notify_push_pull[OF e] by (simp add: sent_processItems) (simp add: initial_state_def)
  have g: "sn_totalProducts (snapshot_of
      (processItems_data [blank_item\<lparr>raw_itemid := Some 7\<rparr>] 40 empty_ShopData)) = 1"
    "sn_totalExpected (snapshot_of
      (processItems_data [blank_item\<lparr>raw_itemid := Some 7\<rparr>] 40 empty_ShopData)) = 40"
    by (simp_all add: snapshot_of_def processItems_data_def empty_ShopData_def Let_def
        process_item_def itemId_of_def blank_item_def map_values_def js_eval)
  have h: "\<exists>s. last_pushed 5 (sent (onUpdated 5 (Some ''loading'') (Some ?url) ?p)) = Some s \<and>
        sn_totalProducts s = 1 \<and> sn_totalExpected s = 40"
    unfolding up using g by (simp add: reset_tab_def f)
  show ?thesis by (intro conjI a b c d h)
qed

text \<open>
  Claim C4, amended.  To a sender with a tab id \<open>GET_CAPTURED_DATA\<close> answers null exactly
  when the tab has no entry in \<open>shopDataByTab\<close>.  It answers the empty snapshot (no shop
  info, no products, both counts 0) after the reset of a navigation start into the site or
  of a forced refresh, and, when the tab had no entry, after a completed attach and after
  a handled response that captures nothing for the store: a shop response without data, a
  product-list response without items, and every search, category and product-detail
  response.  Whenever the tab has an entry, the pull returns the snapshot that
  \<open>notifyContentScript\<close> pushes from the same state.  After an upsert followed by its push,
  and so after a product-list response with at least one item, the pull returns the
  snapshot of the \<open>SHOPEE_DATA_UPDATE\<close> message sent last, with \<open>totalProducts\<close> the length
  of its product array, which is not empty when the batch carried an item id; after a shop
  response with data the pull returns the snapshot pushed, which holds that shop info.
  Once the tab has an entry and the pull equals the snapshot pushed last to the tab, both
  stay so through every handled response, of that tab or of another one.  A navigation
  start, a forced refresh and the removal of the tab send nothing, and set the pull to the
  empty snapshot, the removal to null.
\<close>

theorem pull_matches_push:
  fixes st :: "('s, 'a) bg_state"
  shows
  "(tabId \<noteq> 0 \<longrightarrow>
      onMessage_GET_CAPTURED_DATA (Some tabId) st = Answer (GET_CAPTURED_DATA tabId st)) \<and>
   (GET_CAPTURED_DATA tabId st = None) = (shopDataByTab st tabId = None) \<and>
   GET_CAPTURED_DATA tabId (reset_tab tabId st) = Some empty_snapshot \<and>
   (\<forall>u. str_includes u ''shopee.co.id'' \<longrightarrow>
      GET_CAPTURED_DATA tabId (onUpdated tabId (Some ''loading'') (Some u) st) =
        Some empty_snapshot) \<and>
   GET_CAPTURED_DATA tabId (FORCE_REFRESH_CAPTURE tabId st) = Some empty_snapshot \<and>
   (shopDataByTab st tabId = None \<longrightarrow>
      GET_CAPTURED_DATA tabId (attachDebugger_attached tabId st) = Some empty_snapshot \<and>
      GET_CAPTURED_DATA tabId (handle_body tabId (ShopBody None) now st) = Some empty_snapshot \<and>
      (\<forall>pb. fst (products_extract pb) = [] \<longrightarrow>
         GET_CAPTURED_DATA tabId (handle_body tabId (ProductsBody pb) now st) =
           Some empty_snapshot) \<and>
      (\<forall>sb. GET_CAPTURED_DATA tabId (handle_body tabId (SearchBody sb) now st) =
           Some empty_snapshot) \<and>
      (\<forall>cb. GET_CAPTURED_DATA tabId (handle_body tabId (CategoryBody cb) now st) =
           Some empty_snapshot) \<and>
      (\<forall>pd. GET_CAPTURED_DATA tabId (handle_body tabId (PdpBody pd) now st) =
           Some empty_snapshot)) \<and>
   (\<forall>d. shopDataByTab st tabId = Some d \<longrightarrow>
      GET_CAPTURED_DATA tabId st = Some (snapshot_of d) \<and>
      GET_CAPTURED_DATA tabId (notifyContentScript tabId st) = Some (snapshot_of d) \<and>
      sent (notifyContentScript tabId st) =
        sent st @ [(tabId, SHOPEE_DATA_UPDATE (snapshot_of d))]) \<and>
   (\<exists>s. GET_CAPTURED_DATA tabId (notifyContentScript tabId (processItems tabId items tot st)) = Some s \<and>
        sent (notifyContentScript tabId (processItems tabId items tot st)) =
          sent st @ [(tabId, SHOPEE_DATA_UPDATE s)] \<and>
        sn_products s = map_values (fold process_item items (tab_products tabId st)) \<and>
        sn_totalProducts s = length (sn_products s) \<and>
        (set (item_ids items) \<noteq> {} \<longrightarrow> sn_products s \<noteq> [])) \<and>
   (fst (products_extract b) \<noteq> [] \<longrightarrow>
      (\<exists>s. GET_CAPTURED_DATA tabId (handle_body tabId (ProductsBody b) now st) = Some s \<and>
           sent (handle_body tabId (ProductsBody b) now st) =
             sent st @ [(tabId, SHOPEE_DATA_UPDATE s)])) \<and>
   (\<forall>info. \<exists>s. GET_CAPTURED_DATA tabId (handle_body tabId (ShopBody (Some info)) now st) = Some s \<and>
        sent (handle_body tabId (ShopBody (Some info)) now st) =
          sent st @ [(tabId, SHOPEE_DATA_UPDATE s)] \<and>
        sn_shopInfo s = Some info) \<and>
   (\<forall>t bd. shopDataByTab st tabId \<noteq> None \<and>
            GET_CAPTURED_DATA tabId st = last_pushed tabId (sent st) \<longrightarrow>
      GET_CAPTURED_DATA tabId (handle_body t bd now st) =
        last_pushed tabId (sent (handle_body t bd now st)) \<and>
      shopDataByTab (handle_body t bd now st) tabId \<noteq> None) \<and>
   GET_CAPTURED_DATA tabId (onRemoved tabId st) = None \<and>
   sent (reset_tab tabId st) = sent st \<and>
   sent (FORCE_REFRESH_CAPTURE tabId st) = sent st \<and>
   sent (onRemoved tabId st) = sent st \<and>
   (\<forall>status url. sent (onUpdated tabId status url st) = sent st)"
proof -
  have l: "tabId \<noteq> 0 \<longrightarrow>
      onMessage_GET_CAPTURED_DATA (Some tabId) st = Answer (GET_CAPTURED_DATA tabId st)"
    by (simp add: onMessage_GET_CAPTURED_DATA_def)
  have a: "(GET_CAPTURED_DATA tabId st = None) = (shopDataByTab st tabId = None)"
    by (simp add: GET_CAPTURED_DATA_def split: option.splits)
  have r1: "GET_CAPTURED_DATA tabId (reset_tab tabId st) = Some empty_snapshot"
    by (rule GET_reset_tab)
  have r2: "\<forall>u. str_includes u ''shopee.co.id'' \<longrightarrow>
      GET_CAPTURED_DATA tabId (onUpdated tabId (Some ''loading'') (Some u) st) =
        Some empty_snapshot"
    by (simp add: onUpdated_def GET_reset_tab)
  have r3: "GET_CAPTURED_DATA tabId (FORCE_REFRESH_CAPTURE tabId st) = Some empty_snapshot"
    by (simp add: FORCE_REFRESH_CAPTURE_def GET_reset_tab)
  have r4: "shopDataByTab st tabId = None \<longrightarrow>
      GET_CAPTURED_DATA tabId (attachDebugger_attached tabId st) = Some empty_snapshot \<and>
      GET_CAPTURED_DATA tabId (handle_body tabId (ShopBody None) now st) = Some empty_snapshot \<and>
      (\<forall>pb. fst (products_extract pb) = [] \<longrightarrow>
         GET_CAPTURED_DATA tabId (handle_body tabId (ProductsBody pb) now st) =
           Some empty_snapshot) \<and>
      (\<forall>sb. GET_CAPTURED_DATA tabId (handle_body tabId (SearchBody sb) now st) =
           Some empty_snapshot) \<and>
      (\<forall>cb. GET_CAPTURED_DATA tabId (handle_body tabId (CategoryBody cb) now st) =
           Some empty_snapshot) \<and>
      (\<forall>pd. GET_CAPTURED_DATA tabId (handle_body tabId (PdpBody pd) now st) =
           Some empty_snapshot)"
  proof
    assume n: "shopDataByTab st tabId = None"
    have "GET_CAPTURED_DATA tabId (attachDebugger_attached tabId st) = Some empty_snapshot"
      using n by (simp add: attachDebugger_attached_def GET_ensure_tab)
    then show "GET_CAPTURED_DATA tabId (attachDebugger_attached tabId st) = Some empty_snapshot \<and>
      GET_CAPTURED_DATA tabId (handle_body tabId (ShopBody None) now st) = Some empty_snapshot \<and>
      (\<forall>pb. fst (products_extract pb) = [] \<longrightarrow>
         GET_CAPTURED_DATA tabId (handle_body tabId (ProductsBody pb) now st) =
           Some empty_snapshot) \<and>
      (\<forall>sb. GET_CAPTURED_DATA tabId (handle_body tabId (SearchBody sb) now st) =
           Some empty_snapshot) \<and>
      (\<forall>cb. GET_CAPTURED_DATA tabId (handle_body tabId (CategoryBody cb) now st) =
           Some empty_snapshot) \<and>
      (\<forall>pd. GET_CAPTURED_DATA tabId (handle_body tabId (PdpBody pd) now st) =
           Some empty_snapshot)"
      using handle_body_no_capture[OF n] by simp
  qed
  have c: "\<forall>d. shopDataByTab st tabId = Some d \<longrightarrow>
      GET_CAPTURED_DATA tabId st = Some (snapshot_of d) \<and>
      GET_CAPTURED_DATA tabId (notifyContentScript tabId st) = Some (snapshot_of d) \<and>
      sent (notifyContentScript tabId st) =
        sent st @ [(tabId, SHOPEE_DATA_UPDATE (snapshot_of d))]"
    using notify_push_pull[of st tabId] by (simp add: GET_CAPTURED_DATA_def)
  obtain s where s: "GET_CAPTURED_DATA tabId (notifyContentScript tabId (processItems tabId items tot st)) = Some s"
      "sent (notifyContentScript tabId (processItems tabId items tot st)) =
          sent st @ [(tabId, SHOPEE_DATA_UPDATE s)]"
      "sn_products s = map_values (fold process_item items (tab_products tabId st))"
      "sn_totalProducts s = length (sn_products s)"
    using upsert_then_push[of tabId items tot st] by blast
  have ne: "set (item_ids items) \<noteq> {} \<longrightarrow> sn_products s \<noteq> []"
    using fold_process_item_nonempty[of items "tab_products tabId st"]
    by (simp add: s(3) map_values_def)
  have d: "\<exists>s. GET_CAPTURED_DATA tabId (notifyContentScript tabId (processItems tabId items tot st)) = Some s \<and>
        sent (notifyContentScript tabId (processItems tabId items tot st)) =
          sent st @ [(tabId, SHOPEE_DATA_UPDATE s)] \<and>
        sn_products s = map_values (fold process_item items (tab_products tabId st)) \<and>
        sn_totalProducts s = length (sn_products s) \<and>
        (set (item_ids items) \<noteq> {} \<longrightarrow> sn_products s \<noteq> [])"
    using s ne by blast
  have e: "fst (products_extract b) \<noteq> [] \<longrightarrow>
      (\<exists>s. GET_CAPTURED_DATA tabId (handle_body tabId (ProductsBody b) now st) = Some s \<and>
           sent (handle_body tabId (ProductsBody b) now st) =
             sent st @ [(tabId, SHOPEE_DATA_UPDATE s)])"
  proof
    assume n: "fst (products_extract b) \<noteq> []"
    show "\<exists>s. GET_CAPTURED_DATA tabId (handle_body tabId (ProductsBody b) now st) = Some s \<and>
           sent (handle_body tabId (ProductsBody b) now st) =
             sent st @ [(tabId, SHOPEE_DATA_UPDATE s)]"
      unfolding handle_products_nonempty[OF n]
      using upsert_then_push[of tabId "fst (products_extract b)" "snd (products_extract b)"
          "ensure_tab tabId st"]
      by (auto simp: sent_ensure_tab)
  qed
  have f: "\<forall>info. \<exists>s. GET_CAPTURED_DATA tabId (handle_body tabId (ShopBody (Some info)) now st) = Some s \<and>
        sent (handle_body tabId (ShopBody (Some info)) now st) =
          sent st @ [(tabId, SHOPEE_DATA_UPDATE s)] \<and>
        sn_shopInfo s = Some info"
    using handle_shop_push[of tabId _ now st] by blast
  have g: "\<forall>t bd. shopDataByTab st tabId \<noteq> None \<and>
            GET_CAPTURED_DATA tabId st = last_pushed tabId (sent st) \<longrightarrow>
      GET_CAPTURED_DATA tabId (handle_body t bd now st) =
        last_pushed tabId (sent (handle_body t bd now st)) \<and>
      shopDataByTab (handle_body t bd now st) tabId \<noteq> None"
    using handle_body_keeps_pull[of st tabId] by blast
  have k1: "GET_CAPTURED_DATA tabId (onRemoved tabId st) = None"
    by (simp add: GET_CAPTURED_DATA_def onRemoved_def)
  have k2: "sent (reset_tab tabId st) = sent st"
    by (simp add: reset_tab_def)
  have k3: "sent (FORCE_REFRESH_CAPTURE tabId st) = sent st"
    by (simp add: FORCE_REFRESH_CAPTURE_def reset_tab_def)
  have k4: "sent (onRemoved tabId st) = sent st"
    by (simp add: onRemoved_def)
  have k5: "\<forall>status url. sent (onUpdated tabId status url st) = sent st"
    by (simp add: onUpdated_def reset_tab_def)
  show ?thesis by (intro conjI l a r1 r2 r3 r4 c d e f g k1 k2 k3 k4 k5)
qed

theorem pull_matches_push_witness:
  "onMessage_GET_CAPTURED_DATA (Some 5) (initial_state :: (unit, unit) bg_state) = Answer None \<and>
   shopDataByTab (initial_state :: (unit, unit) bg_state) 5 = None \<and>
   GET_CAPTURED_DATA 5 (initial_state :: (unit, unit) bg_state) = None \<and>
   str_includes ''https://shopee.co.id/'' ''shopee.co.id'' \<and>
   GET_CAPTURED_DATA 5 (onUpdated 5 (Some ''loading'') (Some ''https://shopee.co.id/'')
     (initial_state :: (unit, unit) bg_state)) = Some empty_snapshot \<and>
   GET_CAPTURED_DATA 5 (attachDebugger_attached 5 (initial_state :: (unit, unit) bg_state)) =
     Some empty_snapshot \<and>
   GET_CAPTURED_DATA 5 (handle_body 5 (PdpBody None) 0 (initial_state :: (unit, unit) bg_state)) =
     Some empty_snapshot \<and>
   fst (products_extract
          \<lparr> pb_item_cards = None, pb_data_items = None, pb_items = None, pb_data_total = None \<rparr>) = [] \<and>
   GET_CAPTURED_DATA 5
     (handle_body 5
        (ProductsBody
           \<lparr> pb_item_cards = None, pb_data_items = None, pb_items = None, pb_data_total = None \<rparr>) 0
        (initial_state :: (unit, unit) bg_state)) = Some empty_snapshot \<and>
   shopDataByTab (reset_tab 5 (initial_state :: (unit, unit) bg_state)) 5 = Some empty_ShopData \<and>
   sent (notifyContentScript 5 (reset_tab 5 (initial_state :: (unit, unit) bg_state))) =
     [(5, SHOPEE_DATA_UPDATE (snapshot_of empty_ShopData))] \<and>
   set (item_ids [blank_item\<lparr>raw_itemid := Some 7\<rparr>]) \<noteq> {} \<and>
   (\<exists>s. GET_CAPTURED_DATA 5
          (notifyContentScript 5
             (processItems 5 [blank_item\<lparr>raw_itemid := Some 7\<rparr>] 40
                (initial_state :: (unit, unit) bg_state))) = Some s \<and>
        sent (notifyContentScript 5
             (processItems 5 [blank_item\<lparr>raw_itemid := Some 7\<rparr>] 40
                (initial_state :: (unit, unit) bg_state))) = [(5, SHOPEE_DATA_UPDATE s)] \<and>
        sn_products s \<noteq> []) \<and>
   fst (products_extract
          \<lparr> pb_item_cards = None, pb_data_items = Some [blank_item\<lparr>raw_itemid := Some 7\<rparr>],
            pb_items = None, pb_data_total = Some 40 \<rparr>) \<noteq> [] \<and>
   (\<exists>s. GET_CAPTURED_DATA 5
          (handle_body 5
             (ProductsBody
                \<lparr> pb_item_cards = None, pb_data_items = Some [blank_item\<lparr>raw_itemid := Some 7\<rparr>],
                  pb_items = None, pb_data_total = Some 40 \<rparr>) 0
             (initial_state :: (unit, unit) bg_state)) = Some s \<and>
        sent (handle_body 5
             (ProductsBody
                \<lparr> pb_item_cards = None, pb_data_items = Some [blank_item\<lparr>raw_itemid := Some 7\<rparr>],
                  pb_items = None, pb_data_total = Some 40 \<rparr>) 0
             (initial_state :: (unit, unit) bg_state)) = [(5, SHOPEE_DATA_UPDATE s)]) \<and>
   shopDataByTab (notifyContentScript 5 (reset_tab 5 (initial_state :: (unit, unit) bg_state))) 5
     \<noteq> None \<and>
   GET_CAPTURED_DATA 5 (notifyContentScript 5 (reset_tab 5 (initial_state :: (unit, unit) bg_state))) =
     last_pushed 5 (sent (notifyContentScript 5 (reset_tab 5 (initial_state :: (unit, unit) bg_state)))) \<and>
   GET_CAPTURED_DATA 5
     (handle_body 6 (PdpBody None) 0
        (notifyContentScript 5 (reset_tab 5 (initial_state :: (unit, unit) bg_state)))) =
     last_pushed 5 (sent
       (handle_body 6 (PdpBody None) 0
          (notifyContentScript 5 (reset_tab 5 (initial_state :: (unit, unit) bg_state)))))"
proof -
  let ?i = "initial_state :: (unit, unit) bg_state"
  let ?items = "[blank_item\<lparr>raw_itemid := Some 7\<rparr>]"
  let ?b = "\<lparr> pb_item_cards = None, pb_data_items = Some ?items,
              pb_items = None, pb_data_total = Some 40 \<rparr>"
  let ?n = "notifyContentScript 5 (reset_tab 5 ?i)"
  have si: "sent ?i = []" by (simp add: initial_state_def)
  have h1: "shopDataByTab ?i 5 = None" by (simp add: initial_state_def)
  have h2: "shopDataByTab (reset_tab 5 ?i) 5 = Some empty_ShopData"
    by (simp add: reset_tab_def)
  have sr: "sent (reset_tab 5 ?i) = []" by (simp add: reset_tab_def initial_state_def)
  have h3: "set (item_ids ?items) \<noteq> {}"
    by (simp add: item_ids_def List.map_filter_simps itemId_of_def blank_item_def)
  have h4: "fst (products_extract ?b) \<noteq> []"
    by (simp add: products_extract_def)
  have h5: "str_includes ''https://shopee.co.id/'' ''shopee.co.id''"
    by simp
  have h6: "shopDataByTab ?n 5 \<noteq> None"
    by (simp add: notifyContentScript_def reset_tab_def)
  have h7: "GET_CAPTURED_DATA 5 ?n = last_pushed 5 (sent ?n)"
    by (simp add: notifyContentScript_def reset_tab_def GET_CAPTURED_DATA_def initial_state_def)
  note t = pull_matches_push[where st = ?i and tabId = 5 and items = ?items and tot = 40
      and b = ?b and now = 0]
  note u = pull_matches_push[where st = "reset_tab 5 ?i" and tabId = 5 and items = ?items
      and tot = 40 and b = ?b and now = 0]
  note w = pull_matches_push[where st = ?n and tabId = 5 and items = ?items
      and tot = 40 and b = ?b and now = 0]
  note t2 = t[THEN conjunct2]
  note t4 = t2[THEN conjunct2, THEN conjunct2]
  note t6 = t4[THEN conjunct2, THEN conjunct2]
  note t8 = t6[THEN conjunct2, THEN conjunct2]
  have r1: "GET_CAPTURED_DATA 5 ?i = None"
    using t2[THEN conjunct1] h1 by simp
  have h0: "(5 :: nat) \<noteq> 0" by simp
  have r0: "onMessage_GET_CAPTURED_DATA (Some 5) ?i = Answer None"
    using t[THEN conjunct1, THEN mp, OF h0] unfolding r1 .
  have e1: "GET_CAPTURED_DATA 5 (onUpdated 5 (Some ''loading'') (Some ''https://shopee.co.id/'') ?i) =
      Some empty_snapshot"
    by (rule t4[THEN conjunct1, THEN spec, THEN mp, OF h5])
  note abs = t6[THEN conjunct1, THEN mp, OF h1]
  have e2: "GET_CAPTURED_DATA 5 (attachDebugger_attached 5 ?i) = Some empty_snapshot"
    by (rule abs[THEN conjunct1])
  have e3: "GET_CAPTURED_DATA 5 (handle_body 5 (PdpBody None) 0 ?i) = Some empty_snapshot"
    by (rule abs[THEN conjunct2, THEN conjunct2, THEN conjunct2, THEN conjunct2, THEN conjunct2,
          THEN spec])
  have h8: "fst (products_extract
      \<lparr> pb_item_cards = None, pb_data_items = None, pb_items = None, pb_data_total = None \<rparr>) = []"
    by (simp add: products_extract_def)
  have e4: "GET_CAPTURED_DATA 5
     (handle_body 5
        (ProductsBody
           \<lparr> pb_item_cards = None, pb_data_items = None, pb_items = None, pb_data_total = None \<rparr>) 0
        ?i) = Some empty_snapshot"
    by (rule abs[THEN conjunct2, THEN conjunct2, THEN conjunct1, THEN spec, THEN mp, OF h8])
  have r2: "sent (notifyContentScript 5 (reset_tab 5 ?i)) =
              [(5, SHOPEE_DATA_UPDATE (snapshot_of empty_ShopData))]"
    using u[THEN conjunct2, THEN conjunct2, THEN conjunct2, THEN conjunct2, THEN conjunct2,
        THEN conjunct2, THEN conjunct1, THEN spec, THEN mp, OF h2]
    by (simp add: sr)
  have r3: "\<exists>s. GET_CAPTURED_DATA 5 (notifyContentScript 5 (processItems 5 ?items 40 ?i)) = Some s \<and>
        sent (notifyContentScript 5 (processItems 5 ?items 40 ?i)) = [(5, SHOPEE_DATA_UPDATE s)] \<and>
        sn_products s \<noteq> []"
    using t6[THEN conjunct2, THEN conjunct2, THEN conjunct1] h3
    unfolding si by auto
  have r4: "\<exists>s. GET_CAPTURED_DATA 5 (handle_body 5 (ProductsBody ?b) 0 ?i) = Some s \<and>
        sent (handle_body 5 (ProductsBody ?b) 0 ?i) = [(5, SHOPEE_DATA_UPDATE s)]"
    using t8[THEN conjunct2, THEN conjunct1, THEN mp, OF h4]
    unfolding si by simp
  have r5: "GET_CAPTURED_DATA 5 (handle_body 6 (PdpBody None) 0 ?n) =
      last_pushed 5 (sent (handle_body 6 (PdpBody None) 0 ?n))"
    using w[THEN conjunct2, THEN conjunct2, THEN conjunct2, THEN conjunct2, THEN conjunct2,
        THEN conjunct2, THEN conjunct2, THEN conjunct2, THEN conjunct2, THEN conjunct2,
        THEN conjunct1, THEN spec, THEN spec, THEN mp, OF conjI, OF h6 h7]
    by (rule conjunct1)
  show ?thesis by (intro conjI r0 h1 r1 h5 e1 e2 e3 h8 e4 h2 r2 h3 r3 h4 r4 h6 h7 r5)
qed

section \<open>The search and category caches\<close>

lemma ensure_tab_caches:
  "searchDataByTab (ensure_tab tabId st) = searchDataByTab st \<and>
   categoryDataByTab (ensure_tab tabId st) = categoryDataByTab st"
  by (simp add: ensure_tab_def split: option.splits)

lemma handle_search_empty:
  "fst (search_extract b) = [] \<Longrightarrow>
   handle_body tabId (SearchBody b) now st = ensure_tab tabId st"
  by (simp add: handle_body_def handle_search_def Let_def split_beta)

lemma handle_search_nonempty:
  "fst (search_extract b) \<noteq> [] \<Longrightarrow>
   searchDataByTab (handle_body tabId (SearchBody b) now st) =
     (searchDataByTab st)(tabId \<mapsto>
        \<lparr> sc_items = fst (search_extract b), sc_totalCount = snd (search_extract b),
          sc_timestamp = now \<rparr>) \<and>
   sent (handle_body tabId (SearchBody b) now st) =
     sent st @ [(tabId, SHOPEE_SEARCH_UPDATE
        \<lparr> sc_items = fst (search_extract b), sc_totalCount = snd (search_extract b),
          sc_timestamp = now \<rparr>)]"
  by (simp add: handle_body_def handle_search_def Let_def split_beta send_def
      ensure_tab_caches sent_ensure_tab)

lemma handle_category_empty:
  "category_units b = [] \<Longrightarrow>
   handle_body tabId (CategoryBody b) now st = ensure_tab tabId st"
  by (simp add: handle_body_def handle_category_def Let_def)

lemma handle_category_nonempty:
  "category_units b \<noteq> [] \<Longrightarrow>
   categoryDataByTab (handle_body tabId (CategoryBody b) now st) =
     (categoryDataByTab st)(tabId \<mapsto>
        category_result (category_units b) (num_or0 (cb_total b)) now) \<and>
   sent (handle_body tabId (CategoryBody b) now st) =
     sent st @ [(tabId, SHOPEE_CATEGORY_UPDATE
        (category_result (category_units b) (num_or0 (cb_total b)) now))]"
  by (simp add: handle_body_def handle_category_def Let_def send_def
      ensure_tab_caches sent_ensure_tab)

text \<open>
  Claim C10.  A search response from which no item is extracted leaves the search cache of
  every tab as it was, with its old timestamp, and sends no message; a category response
  whose list of units is absent or empty leaves the category cache as it was and sends no
  message.  A search response with at least one extracted item, and a category response
  with at least one unit, replaces the cache entry of the tab by the new result stamped
  with the time of the capture; so a cache changes only on such a capture.
\<close>

theorem empty_capture_keeps_cache:
  fixes st :: "('s, 'a) bg_state"
  shows
  "(fst (search_extract b) = [] \<longrightarrow>
      searchDataByTab (handle_body tabId (SearchBody b) now st) = searchDataByTab st \<and>
      categoryDataByTab (handle_body tabId (SearchBody b) now st) = categoryDataByTab st \<and>
      sent (handle_body tabId (SearchBody b) now st) = sent st) \<and>
   (fst (search_extract b) \<noteq> [] \<longrightarrow>
      searchDataByTab (handle_body tabId (SearchBody b) now st) tabId =
        Some \<lparr> sc_items = fst (search_extract b), sc_totalCount = snd (search_extract b),
               sc_timestamp = now \<rparr>) \<and>
   (category_units c = [] \<longrightarrow>
      categoryDataByTab (handle_body tabId (CategoryBody c) now st) = categoryDataByTab st \<and>
      searchDataByTab (handle_body tabId (CategoryBody c) now st) = searchDataByTab st \<and>
      sent (handle_body tabId (CategoryBody c) now st) = sent st) \<and>
   (category_units c \<noteq> [] \<longrightarrow>
      categoryDataByTab (handle_body tabId (CategoryBody c) now st) tabId =
        Some (category_result (category_units c) (num_or0 (cb_total c)) now)) \<and>
   (searchDataByTab (handle_body tabId (SearchBody b) now st) \<noteq> searchDataByTab st \<longrightarrow>
      fst (search_extract b) \<noteq> []) \<and>
   (categoryDataByTab (handle_body tabId (CategoryBody c) now st) \<noteq> categoryDataByTab st \<longrightarrow>
      category_units c \<noteq> [])"
proof -
  have s0: "fst (search_extract b) = [] \<longrightarrow>
      searchDataByTab (handle_body tabId (SearchBody b) now st) = searchDataByTab st \<and>
      categoryDataByTab (handle_body tabId (SearchBody b) now st) = categoryDataByTab st \<and>
      sent (handle_body tabId (SearchBody b) now st) = sent st"
    by (simp add: handle_search_empty ensure_tab_caches sent_ensure_tab)
  have s1: "fst (search_extract b) \<noteq> [] \<longrightarrow>
      searchDataByTab (handle_body tabId (SearchBody b) now st) tabId =
        Some \<lparr> sc_items = fst (search_extract b), sc_totalCount = snd (search_extract b),
               sc_timestamp = now \<rparr>"
    by (simp add: handle_search_nonempty)
  have c0: "category_units c = [] \<longrightarrow>
      categoryDataByTab (handle_body tabId (CategoryBody c) now st) = categoryDataByTab st \<and>
      searchDataByTab (handle_body tabId (CategoryBody c) now st) = searchDataByTab st \<and>
      sent (handle_body tabId (CategoryBody c) now st) = sent st"
    by (simp add: handle_category_empty ensure_tab_caches sent_ensure_tab)
  have c1: "category_units c \<noteq> [] \<longrightarrow>
      categoryDataByTab (handle_body tabId (CategoryBody c) now st) tabId =
        Some (category_result (category_units c) (num_or0 (cb_total c)) now)"
    by (simp add: handle_category_nonempty)
  from s0 have s2: "searchDataByTab (handle_body tabId (SearchBody b) now st) \<noteq> searchDataByTab st \<longrightarrow>
      fst (search_extract b) \<noteq> []" by blast
  from c0 have c2: "categoryDataByTab (handle_body tabId (CategoryBody c) now st) \<noteq> categoryDataByTab st \<longrightarrow>
      category_units c \<noteq> []" by blast
  show ?thesis by (intro conjI s0 s1 c0 c1 s2 c2)
qed

theorem empty_capture_keeps_cache_witness:
  "fst (search_extract
          \<lparr> sb_item_cards = None, sb_data_items = Some ([] :: unit search_entry list),
            sb_items = None, sb_data_total = Some 12, sb_data_total_count = None,
            sb_total_count = None \<rparr>) = [] \<and>
   searchDataByTab
     (handle_body 5
        (SearchBody
           \<lparr> sb_item_cards = None, sb_data_items = Some ([] :: unit search_entry list),
             sb_items = None, sb_data_total = Some 12, sb_data_total_count = None,
             sb_total_count = None \<rparr>) 99
        ((initial_state :: (unit, unit) bg_state)
           \<lparr>searchDataByTab := [5 \<mapsto> \<lparr> sc_items = [()], sc_totalCount = 1, sc_timestamp = 10 \<rparr>]\<rparr>)) 5 =
     Some \<lparr> sc_items = [()], sc_totalCount = 1, sc_timestamp = 10 \<rparr> \<and>
   fst (search_extract
          \<lparr> sb_item_cards = Some [()], sb_data_items = None, sb_items = None,
            sb_data_total = None, sb_data_total_count = None, sb_total_count = None \<rparr>) \<noteq> [] \<and>
   searchDataByTab
     (handle_body 5
        (SearchBody
           \<lparr> sb_item_cards = Some [()], sb_data_items = None, sb_items = None,
             sb_data_total = None, sb_data_total_count = None, sb_total_count = None \<rparr>) 99
        (initial_state :: (unit, unit) bg_state)) 5 =
     Some \<lparr> sc_items = [()], sc_totalCount = 1, sc_timestamp = 99 \<rparr> \<and>
   category_units \<lparr> cb_units = Some [], cb_total = Some 3 \<rparr> = [] \<and>
   categoryDataByTab
     (handle_body 5 (CategoryBody \<lparr> cb_units = Some [], cb_total = Some 3 \<rparr>) 99
        (initial_state :: (unit, unit) bg_state)) 5 = None \<and>
   category_units \<lparr> cb_units = Some [\<lparr> u_data_type = None, u_item = None \<rparr>], cb_total = None \<rparr> \<noteq> [] \<and>
   categoryDataByTab
     (handle_body 5
        (CategoryBody \<lparr> cb_units = Some [\<lparr> u_data_type = None, u_item = None \<rparr>], cb_total = None \<rparr>) 99
        (initial_state :: (unit, unit) bg_state)) 5 \<noteq> None"
proof -
  let ?i = "initial_state :: (unit, unit) bg_state"
  let ?old = "\<lparr> sc_items = [()], sc_totalCount = 1, sc_timestamp = 10 \<rparr> :: unit search_cache"
  let ?st = "?i\<lparr>searchDataByTab := [5 \<mapsto> ?old]\<rparr>"
  let ?b0 = "\<lparr> sb_item_cards = None, sb_data_items = Some ([] :: unit search_entry list),
             sb_items = None, sb_data_total = Some 12, sb_data_total_count = None,
             sb_total_count = None \<rparr>"
  let ?b1 = "\<lparr> sb_item_cards = Some [()], sb_data_items = None, sb_items = None,
             sb_data_total = None, sb_data_total_count = None, sb_total_count = None \<rparr>
             :: unit search_body"
  let ?c0 = "\<lparr> cb_units = Some [], cb_total = Some 3 \<rparr>"
  let ?c1 = "\<lparr> cb_units = Some [\<lparr> u_data_type = None, u_item = None \<rparr>], cb_total = None \<rparr>"
  have e0: "search_extract ?b0 = ([], 12)"
    by (simp add: search_extract_def or_length_def js_eval)
  then have h0: "fst (search_extract ?b0) = []" by simp
  have e1: "search_extract ?b1 = ([()], 1)"
    by (simp add: search_extract_def or_length_def js_eval)
  then have h1: "fst (search_extract ?b1) \<noteq> []" by simp
  have h2: "category_units ?c0 = []" by (simp add: category_units_def)
  have h3: "category_units ?c1 \<noteq> []" by (simp add: category_units_def)
  have "searchDataByTab (handle_body 5 (SearchBody ?b0) 99 ?st) = searchDataByTab ?st"
    using empty_capture_keeps_cache[of ?b0 5 99 ?st ?c0] h0 by blast
  then have r0: "searchDataByTab (handle_body 5 (SearchBody ?b0) 99 ?st) 5 = Some ?old"
    by simp
  have "searchDataByTab (handle_body 5 (SearchBody ?b1) 99 ?i) 5 =
          Some \<lparr> sc_items = fst (search_extract ?b1), sc_totalCount = snd (search_extract ?b1),
                 sc_timestamp = 99 \<rparr>"
    using empty_capture_keeps_cache[of ?b1 5 99 ?i ?c0] h1 by blast
  then have r1: "searchDataByTab (handle_body 5 (SearchBody ?b1) 99 ?i) 5 =
          Some \<lparr> sc_items = [()], sc_totalCount = 1, sc_timestamp = 99 \<rparr>"
    unfolding e1 by simp
  have "categoryDataByTab (handle_body 5 (CategoryBody ?c0) 99 ?i) = categoryDataByTab ?i"
    using empty_capture_keeps_cache[of ?b0 5 99 ?i ?c0] h2 by blast
  then have r2: "categoryDataByTab (handle_body 5 (CategoryBody ?c0) 99 ?i) 5 = None"
    by (simp add: initial_state_def)
  have "categoryDataByTab (handle_body 5 (CategoryBody ?c1) 99 ?i) 5 =
          Some (category_result (category_units ?c1) (num_or0 (cb_total ?c1)) 99)"
    using empty_capture_keeps_cache[of ?b0 5 99 ?i ?c1] h3 by blast
  then have r3: "categoryDataByTab (handle_body 5 (CategoryBody ?c1) 99 ?i) 5 \<noteq> None"
    by simp
  show ?thesis by (intro conjI h0 r0 h1 r1 h2 r2 h3 r3)
qed

section \<open>Official stores\<close>

lemma scan_units_snoc: "scan_units (units @ [u]) = scan_unit u (scan_units units)"
  by (simp add: scan_units_def)

lemma sort_by_productCount_sorted:
  "sorted_wrt (\<lambda>a b. productCount a \<ge> productCount b) (sort_by_productCount stores)"
proof -
  have "sorted (map (\<lambda>s. - int (productCount s)) (sort_by_productCount stores))"
    unfolding sort_by_productCount_def by (rule sorted_sort_key)
  then show ?thesis
    by (simp add: sorted_map sorted_wrt_iff_nth_less)
qed

lemma sort_by_productCount_set: "set (sort_by_productCount stores) = set stores"
  by (simp add: sort_by_productCount_def)

lemma sort_by_productCount_mset: "mset (sort_by_productCount stores) = mset stores"
  by (simp add: sort_by_productCount_def)

lemma with_avgRating_avg:
  "avgRating (with_avgRating s) =
     (if ratingSum (with_avgRating s) > 0
      then totalRating (with_avgRating s) / of_nat (ratingSum (with_avgRating s)) else 0)"
  by (simp add: with_avgRating_def)

lemma officialStores_avg:
  "list_all (\<lambda>s. avgRating s = (if ratingSum s > 0 then totalRating s / of_nat (ratingSum s) else 0))
     (officialStores_of m)"
  unfolding officialStores_of_def list_all_iff sort_by_productCount_set
  using with_avgRating_avg by auto

lemma scan_unit_pair:
  "u_data_type u = Some ''item'' \<Longrightarrow> u_item u = Some it \<Longrightarrow>
   scan_unit u acc = (fst acc @ [normalize_unit it], track_store (normalize_unit it) (snd acc))"
  by (simp add: scan_unit_def Let_def)

lemma track_store_new:
  "cp_isOfficialShop p \<Longrightarrow> cp_shopid p = Some sid \<Longrightarrow> sid \<noteq> 0 \<Longrightarrow>
   track_store p [] =
     [(sid, \<lparr> os_shopid = sid, os_shopName = cp_shopName p, os_shopLocation = cp_shopLocation p,
              productCount = 1, totalSold = cp_historicalSold p, totalRating = cp_rating p,
              ratingSum = 1 \<rparr>)]"
  by (simp add: track_store_def map_get_def)

lemma track_store_again:
  "cp_isOfficialShop p \<Longrightarrow> cp_shopid p = Some sid \<Longrightarrow> sid \<noteq> 0 \<Longrightarrow>
   track_store p [(sid, s)] =
     [(sid, s\<lparr> productCount := productCount s + 1,
               totalSold := js_plus (totalSold s) (cp_historicalSold p),
               totalRating := totalRating s + cp_rating p,
               ratingSum := ratingSum s + 1 \<rparr>)]"
  by (simp add: track_store_def map_get_def)

lemma track_store_not_official: "\<not> cp_isOfficialShop p \<Longrightarrow> track_store p m = m"
  by (simp add: track_store_def split: option.splits)

lemma item_unit_normalized:
  "cp_isOfficialShop (normalize_unit (the (u_item (item_unit sid flag txt star price)))) =
     (flag = ''OFFICIAL_SHOP'') \<and>
   cp_shopid (normalize_unit (the (u_item (item_unit sid flag txt star price)))) = Some sid \<and>
   cp_historicalSold (normalize_unit (the (u_item (item_unit sid flag txt star price)))) =
     parseSoldText txt \<and>
   cp_rating (normalize_unit (the (u_item (item_unit sid flag txt star price)))) = star"
  by (simp add: item_unit_def normalize_unit_def Let_def split_beta blank_item_data_def js_eval)

lemma scan_three:
  assumes "u_data_type a = Some ''item''" "u_item a = Some ia"
    and "u_data_type b = Some ''item''" "u_item b = Some ib"
    and "u_data_type c = Some ''item''" "u_item c = Some ic"
  shows "scan_units [a, b, c] =
           ([normalize_unit ia, normalize_unit ib, normalize_unit ic],
            track_store (normalize_unit ic)
              (track_store (normalize_unit ib) (track_store (normalize_unit ia) [])))"
  unfolding scan_units_def
  by (simp only: fold_simps id_apply comp_apply scan_unit_pair[OF assms(1,2)]
      scan_unit_pair[OF assms(3,4)] scan_unit_pair[OF assms(5,6)] fst_conv snd_conv
      append_Nil append_Cons)

lemma two_official_one_other:
  assumes p: "cp_isOfficialShop p" "cp_shopid p = Some X"
    and q: "cp_isOfficialShop q" "cp_shopid q = Some X"
    and r: "\<not> cp_isOfficialShop r" and X: "X \<noteq> 0"
  defines "S \<equiv> \<lparr> os_shopid = X, os_shopName = cp_shopName p,
                   os_shopLocation = cp_shopLocation p, productCount = 2,
                   totalSold = js_plus (cp_historicalSold p) (cp_historicalSold q),
                   totalRating = cp_rating p + cp_rating q, ratingSum = 2 \<rparr>"
  shows "track_store r (track_store q (track_store p [])) = [(X, S)]"
    and "track_store q (track_store r (track_store p [])) = [(X, S)]"
    and "track_store q (track_store p (track_store r [])) = [(X, S)]"
proof -
  have pq: "track_store q (track_store p []) = [(X, S)]"
    unfolding track_store_new[OF p X] track_store_again[OF q X] S_def by simp
  show "track_store r (track_store q (track_store p [])) = [(X, S)]"
    unfolding track_store_not_official[OF r] by (rule pq)
  show "track_store q (track_store r (track_store p [])) = [(X, S)]"
    unfolding track_store_not_official[OF r] by (rule pq)
  show "track_store q (track_store p (track_store r [])) = [(X, S)]"
    unfolding track_store_not_official[OF r] by (rule pq)
qed

lemma officialStores_single:
  "map (\<lambda>s. (os_shopid s, productCount s, totalSold s, avgRating s)) (officialStores_of [(k, S)]) =
     [(os_shopid S, productCount S, totalSold S,
       if ratingSum S > 0 then totalRating S / of_nat (ratingSum S) else 0)]"
  by (simp add: officialStores_of_def map_values_def sort_by_productCount_def with_avgRating_def)

lemma category_result_fields:
  "cc_products (category_result units tot now) = fst (scan_units units) \<and>
   cc_officialStores (category_result units tot now) = officialStores_of (snd (scan_units units))"
  by (simp add: category_result_def split_beta)

lemma three_items_summary:
  assumes a: "u_data_type a = Some ''item''" "u_item a = Some ia"
    and b: "u_data_type b = Some ''item''" "u_item b = Some ib"
    and c: "u_data_type c = Some ''item''" "u_item c = Some ic"
    and pa: "cp_isOfficialShop (normalize_unit ia)" "cp_shopid (normalize_unit ia) = Some X"
    and pb: "cp_isOfficialShop (normalize_unit ib)" "cp_shopid (normalize_unit ib) = Some X"
    and pc: "\<not> cp_isOfficialShop (normalize_unit ic)" and X: "X \<noteq> 0"
    and us: "us = [a, b, c] \<or> us = [a, c, b] \<or> us = [c, a, b]"
  shows "length (cc_products (category_result us tot now)) = 3 \<and>
         map (\<lambda>s. (os_shopid s, productCount s, totalSold s, avgRating s))
           (cc_officialStores (category_result us tot now)) =
         [(X, 2, js_plus (cp_historicalSold (normalize_unit ia))
                   (cp_historicalSold (normalize_unit ib)),
           (cp_rating (normalize_unit ia) + cp_rating (normalize_unit ib)) / 2)]"
proof -
  note t = two_official_one_other[OF pa pb pc X]
  consider "us = [a, b, c]" | "us = [a, c, b]" | "us = [c, a, b]" using us by blast
  then show ?thesis
  proof cases
    case 1
    show ?thesis
      unfolding 1 category_result_fields[THEN conjunct1] category_result_fields[THEN conjunct2]
        scan_three[OF a b c] fst_conv snd_conv t(1) officialStores_single
      by simp
  next
    case 2
    show ?thesis
      unfolding 2 category_result_fields[THEN conjunct1] category_result_fields[THEN conjunct2]
        scan_three[OF a c b] fst_conv snd_conv t(2) officialStores_single
      by simp
  next
    case 3
    show ?thesis
      unfolding 3 category_result_fields[THEN conjunct1] category_result_fields[THEN conjunct2]
        scan_three[OF c a b] fst_conv snd_conv t(3) officialStores_single
      by simp
  qed
qed

lemma js_plus_100_50:
  "js_plus (Finite 100) (Finite 50) = Finite 150" "js_plus (Finite 50) (Finite 100) = Finite 150"
  by (simp_all add: double_eval)

text \<open>The store map after a traversal, entry by entry.\<close>

lemma map_get_map_set: "map_get k' (map_set k v m) = (if k' = k then Some v else map_get k' m)"
  by (induction m) (auto simp: map_get_def)

lemma official_of_snoc:
  "official_of sid (ps @ [p]) =
     (if cp_isOfficialShop p \<and> cp_shopid p = Some sid then official_of sid ps @ [p]
      else official_of sid ps)"
  by (simp add: official_of_def)

lemma with_avgRating_summary:
  "ofs \<noteq> [] \<Longrightarrow> with_avgRating (official_store.truncate (store_summary sid ofs)) = store_summary sid ofs"
  by (simp add: with_avgRating_def store_summary_def official_store.truncate_def)

lemma track_store_entry:
  assumes g: "\<And>sid. map_get sid m =
      (if sid \<noteq> 0 \<and> official_of sid ps \<noteq> []
       then Some (official_store.truncate (store_summary sid (official_of sid ps))) else None)"
  shows "map_get sid (track_store p m) =
      (if sid \<noteq> 0 \<and> official_of sid (ps @ [p]) \<noteq> []
       then Some (official_store.truncate (store_summary sid (official_of sid (ps @ [p])))) else None)"
proof (cases "cp_shopid p")
  case None
  then show ?thesis
    by (simp add: track_store_def official_of_snoc g)
next
  case (Some k)
  show ?thesis
  proof (cases "cp_isOfficialShop p \<and> k \<noteq> 0")
    case False
    then show ?thesis
      using Some by (auto simp: track_store_def official_of_snoc g)
  next
    case True
    show ?thesis
    proof (cases "official_of k ps = []")
      case e: True
      then have n: "map_get k m = None" by (simp add: g)
      show ?thesis
        using Some True e
        by (simp add: track_store_def n map_get_map_set official_of_snoc g store_summary_def
            official_store.truncate_def)
    next
      case e: False
      then have n: "map_get k m =
          Some (official_store.truncate (store_summary k (official_of k ps)))"
        using True by (simp add: g)
      show ?thesis
        using Some True e
        by (simp add: track_store_def n map_get_map_set official_of_snoc g store_summary_def
            official_store.truncate_def)
    qed
  qed
qed

lemma track_store_distinct: "distinct (map fst m) \<Longrightarrow> distinct (map fst (track_store p m))"
  by (simp add: track_store_def map_set_distinct split: option.splits)

lemma unit_items_snoc:
  "unit_items (units @ [u]) =
     unit_items units @ (if u_data_type u = Some ''item''
                         then (case u_item u of None \<Rightarrow> [] | Some it \<Rightarrow> [it]) else [])"
  by (simp add: unit_items_def)

lemma scan_units_entries:
  "fst (scan_units units) = map normalize_unit (unit_items units) \<and>
   distinct (map fst (snd (scan_units units))) \<and>
   (\<forall>sid. map_get sid (snd (scan_units units)) =
      (if sid \<noteq> 0 \<and> official_of sid (fst (scan_units units)) \<noteq> []
       then Some (official_store.truncate
                    (store_summary sid (official_of sid (fst (scan_units units)))))
       else None))"
proof (induction units rule: rev_induct)
  case Nil
  show ?case
    by (simp add: scan_units_def unit_items_def map_get_def official_of_def)
next
  case (snoc u units)
  let ?acc = "scan_units units"
  have g: "\<And>sid. map_get sid (snd ?acc) =
      (if sid \<noteq> 0 \<and> official_of sid (fst ?acc) \<noteq> []
       then Some (official_store.truncate (store_summary sid (official_of sid (fst ?acc))))
       else None)"
    using snoc.IH by blast
  show ?case
  proof (cases "u_data_type u = Some ''item'' \<and> u_item u \<noteq> None")
    case False
    then have "scan_unit u ?acc = ?acc" "unit_items (units @ [u]) = unit_items units"
      by (auto simp: scan_unit_def unit_items_snoc split: option.splits)
    then show ?thesis
      using snoc.IH by (simp add: scan_units_snoc)
  next
    case True
    then obtain it where it: "u_data_type u = Some ''item''" "u_item u = Some it" by auto
    have s: "scan_units (units @ [u]) =
        (fst ?acc @ [normalize_unit it], track_store (normalize_unit it) (snd ?acc))"
      unfolding scan_units_snoc by (rule scan_unit_pair[OF it])
    have a: "fst (scan_units (units @ [u])) = map normalize_unit (unit_items (units @ [u]))"
      using snoc.IH it by (simp add: s unit_items_snoc)
    have b: "distinct (map fst (snd (scan_units (units @ [u]))))"
      using snoc.IH by (simp add: s track_store_distinct)
    have c: "\<forall>sid. map_get sid (snd (scan_units (units @ [u]))) =
      (if sid \<noteq> 0 \<and> official_of sid (fst (scan_units (units @ [u]))) \<noteq> []
       then Some (official_store.truncate
                    (store_summary sid (official_of sid (fst (scan_units (units @ [u]))))))
       else None)"
      unfolding s fst_conv snd_conv using track_store_entry[OF g] by blast
    show ?thesis by (intro conjI a b c)
  qed
qed

lemma store_map_values:
  assumes d: "distinct (map fst m)"
    and g: "\<And>sid. map_get sid m =
      (if sid \<noteq> 0 \<and> official_of sid ps \<noteq> []
       then Some (official_store.truncate (store_summary sid (official_of sid ps))) else None)"
  shows "mset (map with_avgRating (map_values m)) =
           image_mset (\<lambda>sid. store_summary sid (official_of sid ps))
             (mset_set {sid. sid \<noteq> 0 \<and> official_of sid ps \<noteq> []})"
proof -
  have v: "with_avgRating (snd e) = store_summary (fst e) (official_of (fst e) ps)"
    if "e \<in> set m" for e
  proof -
    have "map_of m (fst e) = Some (snd e)"
      using that d by simp
    then have "map_get (fst e) m = Some (snd e)" by (simp add: map_get_def)
    then have "fst e \<noteq> 0 \<and> official_of (fst e) ps \<noteq> [] \<and>
        snd e = official_store.truncate (store_summary (fst e) (official_of (fst e) ps))"
      unfolding g by (auto split: if_splits)
    then show ?thesis by (simp add: with_avgRating_summary)
  qed
  have k: "set (map fst m) = {sid. sid \<noteq> 0 \<and> official_of sid ps \<noteq> []}"
  proof (rule set_eqI)
    fix sid
    have "sid \<in> set (map fst m) \<longleftrightarrow> map_get sid m \<noteq> None"
      by (simp add: map_get_def map_of_eq_None_iff)
    also have "\<dots> \<longleftrightarrow> sid \<noteq> 0 \<and> official_of sid ps \<noteq> []"
      unfolding g by simp
    finally show "sid \<in> set (map fst m) \<longleftrightarrow> sid \<in> {sid. sid \<noteq> 0 \<and> official_of sid ps \<noteq> []}"
      by simp
  qed
  have "map with_avgRating (map_values m) =
          map (\<lambda>sid. store_summary sid (official_of sid ps)) (map fst m)"
    using v by (simp add: map_values_def)
  then have "mset (map with_avgRating (map_values m)) =
          image_mset (\<lambda>sid. store_summary sid (official_of sid ps)) (mset (map fst m))"
    by (simp only: mset_map)
  also have "mset (map fst m) = mset_set (set (map fst m))"
    by (rule mset_set_set[OF d, symmetric])
  finally show ?thesis unfolding k .
qed

lemma officialStores_summary:
  "mset (cc_officialStores (category_result units tot now)) =
     image_mset (\<lambda>sid. store_summary sid (official_of sid (cc_products (category_result units tot now))))
       (mset_set {sid. sid \<noteq> 0 \<and> official_of sid (cc_products (category_result units tot now)) \<noteq> []})"
proof -
  note e = scan_units_entries[of units]
  have "mset (map with_avgRating (map_values (snd (scan_units units)))) =
     image_mset (\<lambda>sid. store_summary sid (official_of sid (fst (scan_units units))))
       (mset_set {sid. sid \<noteq> 0 \<and> official_of sid (fst (scan_units units)) \<noteq> []})"
    by (rule store_map_values[OF e[THEN conjunct2, THEN conjunct1]
          e[THEN conjunct2, THEN conjunct2, THEN spec]])
  then show ?thesis
    unfolding category_result_fields[THEN conjunct1] category_result_fields[THEN conjunct2]
      officialStores_of_def sort_by_productCount_mset .
qed

text \<open>
  Claim C5.  Three category items in any order, two of an official store with shop id X
  (sold 100 and rating 4; sold 50 and rating 5) and one that is not of an official store,
  with shop id Y: the category result lists three products and exactly one official
  store, X, with productCount 2, totalSold 150 and avgRating 4.5, and no entry for Y.  A
  shop id counts when it is not 0, as the script tests it for truth.  For every list of
  units: the products are the normalized items of the units of type "item", in order; the
  official-store list holds, up to order, exactly one entry for every non-zero shop id
  that an official product carries, and the entry is the summary of the official products
  of that shop (their number, their sold counts and ratings added up, the average rating);
  the list is in descending order of productCount; \<open>avgRating\<close> of each entry is
  \<open>totalRating / ratingSum\<close>, computed when the list is built (the accumulator has no such
  field); products and accumulators come out of one traversal, a further unit updating
  the pair in one step.  Three official items, the first of shop 1 and the next two of
  shop 2, give the list of shop 2 with two products and then shop 1 with one.
\<close>

theorem official_store_aggregation:
  "(u_data_type u1 = Some ''item'' \<and> u_item u1 = Some it1 \<and>
    u_data_type u2 = Some ''item'' \<and> u_item u2 = Some it2 \<and>
    u_data_type u3 = Some ''item'' \<and> u_item u3 = Some it3 \<and>
    cp_isOfficialShop (normalize_unit it1) \<and> cp_shopid (normalize_unit it1) = Some X \<and>
    cp_historicalSold (normalize_unit it1) = Finite 100 \<and> cp_rating (normalize_unit it1) = 4 \<and>
    cp_isOfficialShop (normalize_unit it2) \<and> cp_shopid (normalize_unit it2) = Some X \<and>
    cp_historicalSold (normalize_unit it2) = Finite 50 \<and> cp_rating (normalize_unit it2) = 5 \<and>
    \<not> cp_isOfficialShop (normalize_unit it3) \<and> cp_shopid (normalize_unit it3) = Some Y \<and>
    X \<noteq> 0 \<and>
    us \<in> {[u1, u2, u3], [u1, u3, u2], [u3, u1, u2], [u2, u1, u3], [u2, u3, u1], [u3, u2, u1]} \<longrightarrow>
    length (cc_products (category_result us tot now)) = 3 \<and>
    map (\<lambda>s. (os_shopid s, productCount s, totalSold s, avgRating s))
      (cc_officialStores (category_result us tot now)) = [(X, 2, Finite 150, 9 / 2)]) \<and>
   cc_products (category_result units tot now) = map normalize_unit (unit_items units) \<and>
   mset (cc_officialStores (category_result units tot now)) =
     image_mset (\<lambda>sid. store_summary sid (official_of sid (cc_products (category_result units tot now))))
       (mset_set {sid. sid \<noteq> 0 \<and>
                       official_of sid (cc_products (category_result units tot now)) \<noteq> []}) \<and>
   sorted_wrt (\<lambda>a b. productCount a \<ge> productCount b)
     (cc_officialStores (category_result units tot now)) \<and>
   list_all (\<lambda>s. avgRating s = (if ratingSum s > 0 then totalRating s / of_nat (ratingSum s) else 0))
     (cc_officialStores (category_result units tot now)) \<and>
   cc_products (category_result units tot now) = fst (scan_units units) \<and>
   cc_officialStores (category_result units tot now) = officialStores_of (snd (scan_units units)) \<and>
   scan_units (units @ [u]) = scan_unit u (scan_units units) \<and>
   map (\<lambda>s. (os_shopid s, productCount s, totalSold s, avgRating s))
     (cc_officialStores
        (category_result
           [item_unit 1 ''OFFICIAL_SHOP'' ''10 terjual'' 4 1000,
            item_unit 2 ''OFFICIAL_SHOP'' ''20 terjual'' 5 1000,
            item_unit 2 ''OFFICIAL_SHOP'' ''30 terjual'' 3 1000] 3 0)) =
     [(2, 2, Finite 50, 4), (1, 1, Finite 10, 4)]"
proof -
  have ex: "length (cc_products (category_result us tot now)) = 3 \<and>
    map (\<lambda>s. (os_shopid s, productCount s, totalSold s, avgRating s))
      (cc_officialStores (category_result us tot now)) = [(X, 2, Finite 150, 9 / 2)]"
    if h: "u_data_type u1 = Some ''item'' \<and> u_item u1 = Some it1 \<and>
    u_data_type u2 = Some ''item'' \<and> u_item u2 = Some it2 \<and>
    u_data_type u3 = Some ''item'' \<and> u_item u3 = Some it3 \<and>
    cp_isOfficialShop (normalize_unit it1) \<and> cp_shopid (normalize_unit it1) = Some X \<and>
    cp_historicalSold (normalize_unit it1) = Finite 100 \<and> cp_rating (normalize_unit it1) = 4 \<and>
    cp_isOfficialShop (normalize_unit it2) \<and> cp_shopid (normalize_unit it2) = Some X \<and>
    cp_historicalSold (normalize_unit it2) = Finite 50 \<and> cp_rating (normalize_unit it2) = 5 \<and>
    \<not> cp_isOfficialShop (normalize_unit it3) \<and> cp_shopid (normalize_unit it3) = Some Y \<and>
    X \<noteq> 0 \<and>
    us \<in> {[u1, u2, u3], [u1, u3, u2], [u3, u1, u2], [u2, u1, u3], [u2, u3, u1], [u3, u2, u1]}"
  proof -
    have i1: "u_data_type u1 = Some ''item''" "u_item u1 = Some it1"
      and i2: "u_data_type u2 = Some ''item''" "u_item u2 = Some it2"
      and i3: "u_data_type u3 = Some ''item''" "u_item u3 = Some it3"
      and p1: "cp_isOfficialShop (normalize_unit it1)" "cp_shopid (normalize_unit it1) = Some X"
      and p2: "cp_isOfficialShop (normalize_unit it2)" "cp_shopid (normalize_unit it2) = Some X"
      and p3: "\<not> cp_isOfficialShop (normalize_unit it3)" and X: "X \<noteq> 0"
      and v: "cp_historicalSold (normalize_unit it1) = Finite 100" "cp_rating (normalize_unit it1) = 4"
        "cp_historicalSold (normalize_unit it2) = Finite 50" "cp_rating (normalize_unit it2) = 5"
      using h by blast+
    from h consider
        "us = [u1, u2, u3] \<or> us = [u1, u3, u2] \<or> us = [u3, u1, u2]"
      | "us = [u2, u1, u3] \<or> us = [u2, u3, u1] \<or> us = [u3, u2, u1]"
      by auto
    then show ?thesis
    proof cases
      case 1
      show ?thesis
        using three_items_summary[OF i1 i2 i3 p1 p2 p3 X 1, of tot now]
        by (simp add: v js_plus_100_50)
    next
      case 2
      show ?thesis
        using three_items_summary[OF i2 i1 i3 p2 p1 p3 X 2, of tot now]
        by (simp add: v js_plus_100_50)
    qed
  qed
  have pr: "cc_products (category_result units tot now) = map normalize_unit (unit_items units)"
    unfolding category_result_fields[THEN conjunct1]
    by (rule scan_units_entries[THEN conjunct1])
  have so: "sorted_wrt (\<lambda>a b. productCount a \<ge> productCount b)
     (cc_officialStores (category_result units tot now))"
    unfolding category_result_fields[THEN conjunct2]
    by (simp add: officialStores_of_def sort_by_productCount_sorted)
  have av: "list_all (\<lambda>s. avgRating s = (if ratingSum s > 0 then totalRating s / of_nat (ratingSum s) else 0))
     (cc_officialStores (category_result units tot now))"
    unfolding category_result_fields[THEN conjunct2] by (rule officialStores_avg)
  from ex have ex': "u_data_type u1 = Some ''item'' \<and> u_item u1 = Some it1 \<and>
    u_data_type u2 = Some ''item'' \<and> u_item u2 = Some it2 \<and>
    u_data_type u3 = Some ''item'' \<and> u_item u3 = Some it3 \<and>
    cp_isOfficialShop (normalize_unit it1) \<and> cp_shopid (normalize_unit it1) = Some X \<and>
    cp_historicalSold (normalize_unit it1) = Finite 100 \<and> cp_rating (normalize_unit it1) = 4 \<and>
    cp_isOfficialShop (normalize_unit it2) \<and> cp_shopid (normalize_unit it2) = Some X \<and>
    cp_historicalSold (normalize_unit it2) = Finite 50 \<and> cp_rating (normalize_unit it2) = 5 \<and>
    \<not> cp_isOfficialShop (normalize_unit it3) \<and> cp_shopid (normalize_unit it3) = Some Y \<and>
    X \<noteq> 0 \<and>
    us \<in> {[u1, u2, u3], [u1, u3, u2], [u3, u1, u2], [u2, u1, u3], [u2, u3, u1], [u3, u2, u1]} \<longrightarrow>
    length (cc_products (category_result us tot now)) = 3 \<and>
    map (\<lambda>s. (os_shopid s, productCount s, totalSold s, avgRating s))
      (cc_officialStores (category_result us tot now)) = [(X, 2, Finite 150, 9 / 2)]"
    by blast
  let ?a = "item_unit 1 ''OFFICIAL_SHOP'' ''10 terjual'' 4 1000"
  let ?b = "item_unit 2 ''OFFICIAL_SHOP'' ''20 terjual'' 5 1000"
  let ?c = "item_unit 2 ''OFFICIAL_SHOP'' ''30 terjual'' 3 1000"
  have two: "map (\<lambda>s. (os_shopid s, productCount s, totalSold s, avgRating s))
     (cc_officialStores (category_result [?a, ?b, ?c] 3 0)) =
     [(2, 2, Finite 50, 4), (1, 1, Finite 10, 4)]"
  proof -
    have u: "u_data_type ?a = Some ''item''" "u_item ?a = Some (the (u_item ?a))"
        "u_data_type ?b = Some ''item''" "u_item ?b = Some (the (u_item ?b))"
        "u_data_type ?c = Some ''item''" "u_item ?c = Some (the (u_item ?c))"
      by (simp_all add: item_unit_def)
    have s: "parseSoldText ''10 terjual'' = Finite 10" "parseSoldText ''20 terjual'' = Finite 20"
        "parseSoldText ''30 terjual'' = Finite 30"
      by (simp_all add: parse_eval)
    have j: "js_plus (Finite 20) (Finite 30) = Finite 50"
      by (simp add: double_eval)
    note n = item_unit_normalized[THEN conjunct1]
      item_unit_normalized[THEN conjunct2, THEN conjunct1]
      item_unit_normalized[THEN conjunct2, THEN conjunct2, THEN conjunct1]
      item_unit_normalized[THEN conjunct2, THEN conjunct2, THEN conjunct2]
    show ?thesis
      unfolding category_result_fields[THEN conjunct2] scan_three[OF u] snd_conv
      by (simp add: track_store_def map_get_def n s j officialStores_of_def map_values_def
          sort_by_productCount_def with_avgRating_def)
  qed
  show ?thesis
    by (intro conjI ex' pr officialStores_summary so av category_result_fields[THEN conjunct1]
        category_result_fields[THEN conjunct2] scan_units_snoc two)
qed

theorem official_store_aggregation_witness:
  "map (\<lambda>s. (os_shopid s, productCount s, totalSold s, avgRating s))
     (cc_officialStores
        (category_result
           [item_unit 22 ''PREFERRED_PLUS'' ''7 terjual'' 3 1000,
            item_unit 11 ''OFFICIAL_SHOP'' ''50 terjual'' 5 60000,
            item_unit 11 ''OFFICIAL_SHOP'' ''100 terjual'' 4 50000] 3 0)) =
     [(11, 2, Finite 150, 9 / 2)] \<and>
   length (cc_products
        (category_result
           [item_unit 22 ''PREFERRED_PLUS'' ''7 terjual'' 3 1000,
            item_unit 11 ''OFFICIAL_SHOP'' ''50 terjual'' 5 60000,
            item_unit 11 ''OFFICIAL_SHOP'' ''100 terjual'' 4 50000] 3 0)) = 3"
proof -
  let ?u1 = "item_unit 11 ''OFFICIAL_SHOP'' ''100 terjual'' 4 50000"
  let ?u2 = "item_unit 11 ''OFFICIAL_SHOP'' ''50 terjual'' 5 60000"
  let ?u3 = "item_unit 22 ''PREFERRED_PLUS'' ''7 terjual'' 3 1000"
  let ?it1 = "the (u_item ?u1)" and ?it2 = "the (u_item ?u2)" and ?it3 = "the (u_item ?u3)"
  have s1: "parseSoldText ''100 terjual'' = Finite 100" by (simp add: parse_eval)
  have s2: "parseSoldText ''50 terjual'' = Finite 50" by (simp add: parse_eval)
  have u: "u_data_type ?u1 = Some ''item'' \<and> u_item ?u1 = Some ?it1 \<and>
           u_data_type ?u2 = Some ''item'' \<and> u_item ?u2 = Some ?it2 \<and>
           u_data_type ?u3 = Some ''item'' \<and> u_item ?u3 = Some ?it3"
    by (simp add: item_unit_def)
  have n1: "cp_isOfficialShop (normalize_unit ?it1) \<and> cp_shopid (normalize_unit ?it1) = Some 11 \<and>
            cp_historicalSold (normalize_unit ?it1) = Finite 100 \<and> cp_rating (normalize_unit ?it1) = 4"
    unfolding item_unit_normalized[THEN conjunct1]
      item_unit_normalized[THEN conjunct2, THEN conjunct1]
      item_unit_normalized[THEN conjunct2, THEN conjunct2, THEN conjunct1]
      item_unit_normalized[THEN conjunct2, THEN conjunct2, THEN conjunct2] s1 by simp
  have n2: "cp_isOfficialShop (normalize_unit ?it2) \<and> cp_shopid (normalize_unit ?it2) = Some 11 \<and>
            cp_historicalSold (normalize_unit ?it2) = Finite 50 \<and> cp_rating (normalize_unit ?it2) = 5"
    unfolding item_unit_normalized[THEN conjunct1]
      item_unit_normalized[THEN conjunct2, THEN conjunct1]
      item_unit_normalized[THEN conjunct2, THEN conjunct2, THEN conjunct1]
      item_unit_normalized[THEN conjunct2, THEN conjunct2, THEN conjunct2] s2 by simp
  have n3: "\<not> cp_isOfficialShop (normalize_unit ?it3) \<and> cp_shopid (normalize_unit ?it3) = Some 22"
    unfolding item_unit_normalized[THEN conjunct1]
      item_unit_normalized[THEN conjunct2, THEN conjunct1] by simp
  have x: "(11 :: int) \<noteq> 0" by simp
  have o: "[?u3, ?u2, ?u1] \<in>
             {[?u1, ?u2, ?u3], [?u1, ?u3, ?u2], [?u3, ?u1, ?u2], [?u2, ?u1, ?u3], [?u2, ?u3, ?u1],
              [?u3, ?u2, ?u1]}"
    by (simp only: insert_iff simp_thms)
  have hyp: "u_data_type ?u1 = Some ''item'' \<and> u_item ?u1 = Some ?it1 \<and>
    u_data_type ?u2 = Some ''item'' \<and> u_item ?u2 = Some ?it2 \<and>
    u_data_type ?u3 = Some ''item'' \<and> u_item ?u3 = Some ?it3 \<and>
    cp_isOfficialShop (normalize_unit ?it1) \<and> cp_shopid (normalize_unit ?it1) = Some 11 \<and>
    cp_historicalSold (normalize_unit ?it1) = Finite 100 \<and> cp_rating (normalize_unit ?it1) = 4 \<and>
    cp_isOfficialShop (normalize_unit ?it2) \<and> cp_shopid (normalize_unit ?it2) = Some 11 \<and>
    cp_historicalSold (normalize_unit ?it2) = Finite 50 \<and> cp_rating (normalize_unit ?it2) = 5 \<and>
    \<not> cp_isOfficialShop (normalize_unit ?it3) \<and> cp_shopid (normalize_unit ?it3) = Some 22 \<and>
    (11 :: int) \<noteq> 0 \<and>
    [?u3, ?u2, ?u1] \<in>
      {[?u1, ?u2, ?u3], [?u1, ?u3, ?u2], [?u3, ?u1, ?u2], [?u2, ?u1, ?u3], [?u2, ?u3, ?u1],
       [?u3, ?u2, ?u1]}"
    using u n1 n2 n3 x o by (simp only: simp_thms)
  note t = official_store_aggregation[where ?u1.0 = ?u1 and ?u2.0 = ?u2 and ?u3.0 = ?u3
      and ?it1.0 = ?it1 and ?it2.0 = ?it2 and ?it3.0 = ?it3 and X = 11 and Y = 22
      and us = "[?u3, ?u2, ?u1]" and tot = 3 and now = 0, THEN conjunct1, THEN mp, OF hyp]
  show ?thesis by (intro conjI t[THEN conjunct2] t[THEN conjunct1])
qed

section \<open>The retry policy of the resolver\<close>

















end
